theory Spec2Isabelle
  imports Complex_Main "HOL-Library.Log_Nat"
begin

section \<open>Python values\<close>

text \<open>
  A Python \<open>str\<close> is a sequence of Unicode code points, so it is modelled as a list of
  natural numbers; \<open>ustr\<close> embeds an ASCII literal. The bullet glyph U+2022 is the code
  point 8226.
\<close>

type_synonym pystr = "nat list"

definition ustr :: "string \<Rightarrow> pystr" where
  "ustr s = map of_char s"

definition BULLET :: nat where
  "BULLET = 8226"

subsection \<open>Floats\<close>

text \<open>
  A Python \<open>float\<close> is an IEEE binary64 value: a finite number, an infinity or NaN. The
  result of an arithmetic operation is the exact result rounded to the nearest binary64
  value, ties to the even significand: \<open>round64\<close>. The significand has 53 bits, the
  exponent of the unit in the last place is not below \<open>-1074\<close>, and a rounded magnitude
  of \<open>2 ^ 1024\<close> or more is an infinity. The two zeros are not told apart. \<open>Fin\<close> takes
  any real number; the floats are those that \<open>round64\<close> leaves unchanged, and every
  operation below returns such a number.
\<close>

datatype pyfloat = Fin real | PInf | NInf | NaN

definition pow2 :: "int \<Rightarrow> real" where
  "pow2 k = (if 0 \<le> k then 2 ^ nat k else 1 / 2 ^ nat (- k))"

text \<open>The binary exponent \<open>\<lfloor>log\<^sub>2 a\<rfloor>\<close> of a positive number, at least \<open>-1022\<close>.\<close>

definition float_exponent :: "real \<Rightarrow> int" where
  "float_exponent a =
     max (- 1022) (if 1 \<le> a then bitlen \<lfloor>a\<rfloor> - 1 else - bitlen (\<lceil>1 / a\<rceil> - 1))"

definition round_even :: "real \<Rightarrow> int" where
  "round_even x =
     (let f = \<lfloor>x\<rfloor>; d = x - real_of_int f
      in if d < 1 / 2 then f else if 1 / 2 < d then f + 1 else if even f then f else f + 1)"

definition round64 :: "real \<Rightarrow> pyfloat" where
  "round64 x =
     (if x = 0 then Fin 0
      else (let q = pow2 (float_exponent \<bar>x\<bar> - 52);
                y = real_of_int (round_even (\<bar>x\<bar> / q)) * q
            in if 2 ^ 1024 \<le> y then (if 0 < x then PInf else NInf)
               else Fin (if 0 < x then y else - y)))"

text \<open>The product of two floats.\<close>

fun fmul :: "pyfloat \<Rightarrow> pyfloat \<Rightarrow> pyfloat" where
  "fmul NaN y = NaN"
| "fmul x NaN = NaN"
| "fmul (Fin a) (Fin b) = round64 (a * b)"
| "fmul (Fin a) PInf = (if a = 0 then NaN else if 0 < a then PInf else NInf)"
| "fmul (Fin a) NInf = (if a = 0 then NaN else if 0 < a then NInf else PInf)"
| "fmul PInf (Fin b) = (if b = 0 then NaN else if 0 < b then PInf else NInf)"
| "fmul NInf (Fin b) = (if b = 0 then NaN else if 0 < b then NInf else PInf)"
| "fmul PInf PInf = PInf"
| "fmul PInf NInf = NInf"
| "fmul NInf PInf = NInf"
| "fmul NInf NInf = PInf"

text \<open>A float divided by 100, and a float minus 1.\<close>

fun fdiv100 :: "pyfloat \<Rightarrow> pyfloat" where
  "fdiv100 (Fin a) = round64 (a / 100)"
| "fdiv100 x = x"

fun fsub1 :: "pyfloat \<Rightarrow> pyfloat" where
  "fsub1 (Fin a) = round64 (a - 1)"
| "fsub1 x = x"

text \<open>The comparison \<open>x < y\<close>: false whenever NaN takes part.\<close>

fun fless :: "pyfloat \<Rightarrow> pyfloat \<Rightarrow> bool" where
  "fless NaN y = False"
| "fless x NaN = False"
| "fless (Fin a) (Fin b) = (a < b)"
| "fless (Fin a) PInf = True"
| "fless (Fin a) NInf = False"
| "fless PInf y = False"
| "fless NInf (Fin b) = True"
| "fless NInf PInf = True"
| "fless NInf NInf = False"

text \<open>
  The quotient of two floats: a divisor equal to zero raises \<open>ZeroDivisionError\<close>
  (\<open>None\<close> here).
\<close>

fun fdiv :: "pyfloat \<Rightarrow> pyfloat \<Rightarrow> pyfloat option" where
  "fdiv x (Fin b) =
     (if b = 0 then None
      else (case x of
              Fin a \<Rightarrow> Some (round64 (a / b))
            | PInf \<Rightarrow> Some (if 0 < b then PInf else NInf)
            | NInf \<Rightarrow> Some (if 0 < b then NInf else PInf)
            | NaN \<Rightarrow> Some NaN))"
| "fdiv x NaN = Some NaN"
| "fdiv (Fin a) y = Some (Fin 0)"
| "fdiv x y = Some NaN"

subsection \<open>Parsed JSON\<close>

text \<open>
  The value \<open>json.loads\<close> returns: \<open>None\<close>, a \<open>bool\<close>, an \<open>int\<close>, a \<open>float\<close> (the
  parser also yields \<open>NaN\<close> and the infinities), a \<open>str\<close>, a \<open>list\<close>, or a \<open>dict\<close>, given
  by its items in order.
\<close>

datatype json =
    JNull
  | JBool bool
  | JInt int
  | JFloat pyfloat
  | JStr pystr
  | JList "json list"
  | JDict "(pystr \<times> json) list"

datatype py_error =
  AttributeError | TypeError | ValueError | OverflowError | IndexError | ZeroDivisionError

text \<open>Truth value of an object, as \<open>not x\<close>, \<open>x and y\<close>, \<open>x or y\<close> test it.\<close>

fun truthy :: "json \<Rightarrow> bool" where
  "truthy JNull = False"
| "truthy (JBool b) = b"
| "truthy (JInt n) = (n \<noteq> 0)"
| "truthy (JFloat f) = (f \<noteq> Fin 0)"
| "truthy (JStr s) = (s \<noteq> [])"
| "truthy (JList xs) = (xs \<noteq> [])"
| "truthy (JDict kvs) = (kvs \<noteq> [])"

text \<open>\<open>d.get(key, default)\<close>: only a \<open>dict\<close> has the method.\<close>

fun py_get :: "json \<Rightarrow> pystr \<Rightarrow> json \<Rightarrow> py_error + json" where
  "py_get (JDict kvs) k dflt = Inr (case map_of kvs k of None \<Rightarrow> dflt | Some v \<Rightarrow> v)"
| "py_get _ k dflt = Inl AttributeError"

subsection \<open>String methods\<close>

text \<open>The characters \<open>str.strip()\<close> removes: those for which \<open>str.isspace\<close> holds.\<close>

definition py_isspace :: "nat \<Rightarrow> bool" where
  "py_isspace c \<longleftrightarrow>
     (9 \<le> c \<and> c \<le> 13) \<or> (28 \<le> c \<and> c \<le> 32) \<or> c = 133 \<or> c = 160 \<or> c = 5760 \<or>
     (8192 \<le> c \<and> c \<le> 8202) \<or> c = 8232 \<or> c = 8233 \<or> c = 8239 \<or> c = 8287 \<or> c = 12288"

definition py_lstrip :: "pystr \<Rightarrow> pystr" where
  "py_lstrip s = dropWhile py_isspace s"

definition py_rstrip :: "pystr \<Rightarrow> pystr" where
  "py_rstrip s = rev (dropWhile py_isspace (rev s))"

definition py_strip :: "pystr \<Rightarrow> pystr" where
  "py_strip s = py_rstrip (py_lstrip s)"

text \<open>\<open>s.lstrip(chars)\<close> removes the longest prefix made of characters of \<open>chars\<close>.\<close>

definition py_lstrip_chars :: "pystr \<Rightarrow> pystr \<Rightarrow> pystr" where
  "py_lstrip_chars chars s = dropWhile (\<lambda>c. c \<in> set chars) s"

definition py_startswith :: "pystr \<Rightarrow> pystr \<Rightarrow> bool" where
  "py_startswith s p \<longleftrightarrow> take (length p) s = p"

definition py_endswith :: "pystr \<Rightarrow> pystr \<Rightarrow> bool" where
  "py_endswith s p \<longleftrightarrow> length p \<le> length s \<and> drop (length s - length p) s = p"

text \<open>\<open>sub in s\<close>: \<open>sub\<close> occurs in \<open>s\<close> as a contiguous substring.\<close>

fun py_in :: "pystr \<Rightarrow> pystr \<Rightarrow> bool" where
  "py_in sub [] = (sub = [])"
| "py_in sub (c # cs) = (py_startswith (c # cs) sub \<or> py_in sub cs)"

text \<open>\<open>s.split('\n')\<close>.\<close>

fun py_split_nl :: "pystr \<Rightarrow> pystr list" where
  "py_split_nl [] = [[]]"
| "py_split_nl (c # cs) =
     (if c = 10 then [] # py_split_nl cs
      else (case py_split_nl cs of l # ls \<Rightarrow> (c # l) # ls | [] \<Rightarrow> [[c]]))"

text \<open>\<open>s.replace('pt', '')\<close>: every occurrence of \<open>pt\<close>, scanned from the left, is removed.\<close>

fun replace_pt :: "pystr \<Rightarrow> pystr" where
  "replace_pt (a # b # cs) =
     (if a = 112 \<and> b = 116 then replace_pt cs else a # replace_pt (b # cs))"
| "replace_pt cs = cs"

subsection \<open>The builtin \<open>int(s, base)\<close> on a string\<close>

text \<open>
  CPython first maps the string to ASCII: a code point below 127 stays, a Unicode space
  becomes a blank, a Unicode decimal digit becomes its ASCII digit, and anything else
  makes the conversion fail. Which code points from 127 on are decimal digits depends on
  the Unicode tables of the interpreter, so their decimal value is the parameter \<open>udec\<close>
  (\<open>None\<close>: not a decimal digit). Then: blanks, an optional sign, for base 16 an optional
  \<open>0x\<close>, digits with single underscores between them, blanks. A decimal string of more
  than 4300 digits is refused.
\<close>

definition to_ascii :: "(nat \<Rightarrow> nat option) \<Rightarrow> nat \<Rightarrow> nat option" where
  "to_ascii udec c =
     (if c < 127 then Some c
      else if py_isspace c then Some 32
      else (case udec c of
              Some d \<Rightarrow> if d < 10 then Some (48 + d) else None
            | None \<Rightarrow> None))"

definition ascii_space :: "nat \<Rightarrow> bool" where
  "ascii_space c \<longleftrightarrow> (9 \<le> c \<and> c \<le> 13) \<or> c = 32"

definition digit_value :: "nat \<Rightarrow> nat option" where
  "digit_value c =
     (if 48 \<le> c \<and> c \<le> 57 then Some (c - 48)
      else if 97 \<le> c \<and> c \<le> 122 then Some (c - 87)
      else if 65 \<le> c \<and> c \<le> 90 then Some (c - 55)
      else None)"

text \<open>
  The digit scan: the value read so far, the number of digits, and the rest of the input
  at the first character that is neither a digit of the base nor an underscore.
\<close>

fun scan_digits :: "nat \<Rightarrow> bool \<Rightarrow> int \<Rightarrow> nat \<Rightarrow> nat list \<Rightarrow> (int \<times> nat \<times> nat list) option" where
  "scan_digits base prev_us acc n [] = (if prev_us then None else Some (acc, n, []))"
| "scan_digits base prev_us acc n (c # cs) =
     (if c = 95 then (if prev_us then None else scan_digits base True acc n cs)
      else (case digit_value c of
              Some d \<Rightarrow>
                if d < base then scan_digits base False (acc * int base + int d) (Suc n) cs
                else if prev_us then None else Some (acc, n, c # cs)
            | None \<Rightarrow> if prev_us then None else Some (acc, n, c # cs)))"

definition strip_sign :: "nat list \<Rightarrow> bool \<times> nat list" where
  "strip_sign s =
     (case s of
        [] \<Rightarrow> (False, [])
      | c # cs \<Rightarrow> if c = 43 then (False, cs) else if c = 45 then (True, cs) else (False, s))"

definition strip_0x :: "nat \<Rightarrow> nat list \<Rightarrow> nat list" where
  "strip_0x base s =
     (case s of
        a # b # cs \<Rightarrow>
          if base = 16 \<and> a = 48 \<and> (b = 120 \<or> b = 88)
          then (case cs of [] \<Rightarrow> cs | c # ds \<Rightarrow> if c = 95 then ds else cs)
          else s
      | _ \<Rightarrow> s)"

definition py_int :: "(nat \<Rightarrow> nat option) \<Rightarrow> nat \<Rightarrow> pystr \<Rightarrow> int option" where
  "py_int udec base s =
     (case those (map (to_ascii udec) s) of
        None \<Rightarrow> None
      | Some a \<Rightarrow>
          (case strip_sign (dropWhile ascii_space a) of
             (neg, a2) \<Rightarrow>
               (case strip_0x base a2 of
                  [] \<Rightarrow> None
                | c # cs \<Rightarrow>
                    if c = 95 then None
                    else (case scan_digits base False 0 0 (c # cs) of
                            None \<Rightarrow> None
                          | Some (v, n, rest) \<Rightarrow>
                              if n = 0 then None
                              else if base = 10 \<and> 4300 < n then None
                              else if dropWhile ascii_space rest = []
                                then Some (if neg then - v else v)
                              else None))))"

section \<open>Colour resolution\<close>

text \<open>
  \<open>hex_to_rgb\<close>: a false value gives black; \<open>lstrip('#')\<close> removes every leading \<open>#\<close>
  (and exists only on a string); six remaining characters are read as three pairs by
  \<open>int(pair, 16)\<close>, whose \<open>ValueError\<close> gives black; any other length gives black.
\<close>

definition hex_to_rgb :: "(nat \<Rightarrow> nat option) \<Rightarrow> json \<Rightarrow> py_error + (int \<times> int \<times> int)" where
  "hex_to_rgb udec hex_color =
     (if \<not> truthy hex_color then Inr (0, 0, 0)
      else (case hex_color of
              JStr s \<Rightarrow>
                (let h = py_lstrip_chars (ustr ''#'') s in
                 if length h = 6 then
                   (case py_int udec 16 (take 2 h) of
                      None \<Rightarrow> Inr (0, 0, 0)
                    | Some r \<Rightarrow>
                        (case py_int udec 16 (take 2 (drop 2 h)) of
                           None \<Rightarrow> Inr (0, 0, 0)
                         | Some g \<Rightarrow>
                             (case py_int udec 16 (take 2 (drop 4 h)) of
                                None \<Rightarrow> Inr (0, 0, 0)
                              | Some b \<Rightarrow> Inr (r, g, b))))
                 else Inr (0, 0, 0))
            | _ \<Rightarrow> Inl AttributeError))"

section \<open>Content Extractor\<close>

text \<open>
  What one call of \<open>client.models.generate_content\<close> does: it raises, or it returns a
  response whose \<open>text\<close> is a string or \<open>None\<close>. An exception is either a
  \<open>json.JSONDecodeError\<close> or any other \<open>Exception\<close> with its message \<open>str(e)\<close>; the two
  \<open>except\<close> clauses of the source tell exactly these apart.
\<close>

datatype exn = JSONDecodeError | OtherError pystr

datatype api_outcome = ApiRaises exn | ApiResponse "pystr option"

definition FENCE :: pystr where
  "FENCE = [96, 96, 96]"

text \<open>Removal of a markdown code fence around the response text.\<close>

definition strip_fences :: "pystr \<Rightarrow> pystr" where
  "strip_fences text =
     (let t0 = py_strip text;
          t1 = (if py_startswith t0 (FENCE @ ustr ''json'') then drop 7 t0
                else if py_startswith t0 FENCE then drop 3 t0
                else t0);
          t2 = (if py_endswith t1 FENCE then take (length t1 - 3) t1 else t1)
      in py_strip t2)"

fun type_name :: "json \<Rightarrow> pystr" where
  "type_name JNull = ustr ''NoneType''"
| "type_name (JBool _) = ustr ''bool''"
| "type_name (JInt _) = ustr ''int''"
| "type_name (JFloat _) = ustr ''float''"
| "type_name (JStr _) = ustr ''str''"
| "type_name (JList _) = ustr ''list''"
| "type_name (JDict _) = ustr ''dict''"

text \<open>The messages of the two exceptions the \<open>try\<close> body can raise by itself.\<close>

definition no_attribute_msg :: "json \<Rightarrow> string \<Rightarrow> pystr" where
  "no_attribute_msg v a =
     [39] @ type_name v @ [39] @ ustr '' object has no attribute '' @ [39] @ ustr a @ [39]"

definition no_len_msg :: "json \<Rightarrow> pystr" where
  "no_len_msg v = ustr ''object of type '' @ [39] @ type_name v @ [39] @ ustr '' has no len()''"

fun py_len :: "json \<Rightarrow> nat option" where
  "py_len (JStr s) = Some (length s)"
| "py_len (JList xs) = Some (length xs)"
| "py_len (JDict kvs) = Some (length kvs)"
| "py_len _ = None"

text \<open>
  The body of the \<open>try\<close>: the call, the fence removal, \<open>json.loads\<close> (a parameter: it
  returns the parsed value or raises) and the element count, which needs a \<open>dict\<close>
  whose \<open>elements\<close> has a length. The result is the exception raised or the value returned.
\<close>

definition try_body :: "(pystr \<Rightarrow> exn + json) \<Rightarrow> api_outcome \<Rightarrow> exn + json" where
  "try_body loads outcome =
     (case outcome of
        ApiRaises e \<Rightarrow> Inl e
      | ApiResponse None \<Rightarrow> Inl (OtherError (no_attribute_msg JNull ''strip''))
      | ApiResponse (Some text) \<Rightarrow>
          (case loads (strip_fences text) of
             Inl e \<Rightarrow> Inl e
           | Inr slide_data \<Rightarrow>
               (case py_get slide_data (ustr ''elements'') (JList []) of
                  Inl _ \<Rightarrow> Inl (OtherError (no_attribute_msg slide_data ''get''))
                | Inr els \<Rightarrow>
                    (case py_len els of
                       None \<Rightarrow> Inl (OtherError (no_len_msg els))
                     | Some _ \<Rightarrow> Inr slide_data))))"

definition rate_limited :: "pystr \<Rightarrow> bool" where
  "rate_limited error_str \<longleftrightarrow>
     py_in (ustr ''429'') error_str \<or> py_in (ustr ''RESOURCE_EXHAUSTED'') error_str"

text \<open>
  The state the extractor acts on: the calls made so far, each with its model and attempt
  index, and the waits \<open>time.sleep\<close> was asked for, in seconds. The \<open>k\<close>-th call of the
  run (from 0) has the outcome \<open>env k\<close>.
\<close>

record ext_state =
  calls :: "(pystr \<times> nat) list"
  sleeps :: "nat list"

datatype loop_exit = Return "json option" | NextModel

definition log_call :: "pystr \<Rightarrow> nat \<Rightarrow> ext_state \<Rightarrow> ext_state" where
  "log_call model_name attempt st = st\<lparr>calls := calls st @ [(model_name, attempt)]\<rparr>"

definition log_sleep :: "nat \<Rightarrow> ext_state \<Rightarrow> ext_state" where
  "log_sleep secs st = st\<lparr>sleeps := sleeps st @ [secs]\<rparr>"

text \<open>
  The inner loop \<open>for attempt in range(max_retries)\<close> from index \<open>attempt\<close> on. It ends by
  a \<open>return\<close>, or by \<open>break\<close> or exhaustion, which both pass to the next model.
\<close>

function attempt_loop ::
  "(pystr \<Rightarrow> exn + json) \<Rightarrow> (nat \<Rightarrow> api_outcome) \<Rightarrow> nat \<Rightarrow> pystr \<Rightarrow> nat \<Rightarrow> ext_state
     \<Rightarrow> loop_exit \<times> ext_state" where
  "attempt_loop loads env max_retries model_name attempt st =
     (if attempt < max_retries then
        (case try_body loads (env (length (calls st))) of
           Inr slide_data \<Rightarrow> (Return (Some slide_data), log_call model_name attempt st)
         | Inl JSONDecodeError \<Rightarrow> (Return None, log_call model_name attempt st)
         | Inl (OtherError error_str) \<Rightarrow>
             if rate_limited error_str then
               attempt_loop loads env max_retries model_name (Suc attempt)
                 (log_sleep (15 * (attempt + 1)) (log_call model_name attempt st))
             else (NextModel, log_call model_name attempt st))
      else (NextModel, st))"
  by pat_completeness auto
termination
  by (relation "measure (\<lambda>(loads, env, max_retries, model_name, attempt, st). max_retries - attempt)")
     auto

declare attempt_loop.simps [simp del]

fun model_loop ::
  "(pystr \<Rightarrow> exn + json) \<Rightarrow> (nat \<Rightarrow> api_outcome) \<Rightarrow> nat \<Rightarrow> pystr list \<Rightarrow> ext_state
     \<Rightarrow> json option \<times> ext_state" where
  "model_loop loads env max_retries [] st = (None, st)"
| "model_loop loads env max_retries (model_name # rest) st =
     (case attempt_loop loads env max_retries model_name 0 st of
        (Return r, st') \<Rightarrow> (r, st')
      | (NextModel, st') \<Rightarrow> model_loop loads env max_retries rest st')"

definition models :: "pystr list" where
  "models = [ustr ''gemini-2.5-flash-lite'', ustr ''gemini-2.5-flash'', ustr ''gemini-2.0-flash'']"

definition analyze_slide_with_gemini ::
  "(pystr \<Rightarrow> exn + json) \<Rightarrow> (nat \<Rightarrow> api_outcome) \<Rightarrow> nat \<Rightarrow> ext_state \<Rightarrow> json option \<times> ext_state" where
  "analyze_slide_with_gemini loads env max_retries st = model_loop loads env max_retries models st"

text \<open>The response text of a call fails \<open>json.loads\<close> with a \<open>JSONDecodeError\<close>.\<close>

fun json_parse_fails :: "(pystr \<Rightarrow> exn + json) \<Rightarrow> api_outcome \<Rightarrow> bool" where
  "json_parse_fails loads (ApiResponse (Some text)) = (loads (strip_fences text) = Inl JSONDecodeError)"
| "json_parse_fails loads _ = False"

section \<open>Slide Reconstructor\<close>

text \<open>Sequencing of steps that may raise: the first exception ends the computation.\<close>

definition ebind :: "'e + 'a \<Rightarrow> ('a \<Rightarrow> 'e + 'b) \<Rightarrow> 'e + 'b" where
  "ebind m f = (case m of Inl e \<Rightarrow> Inl e | Inr v \<Rightarrow> f v)"

subsection \<open>Numbers\<close>

text \<open>
  \<open>int(x)\<close> on a float truncates towards zero; it raises \<open>OverflowError\<close> on an infinity
  and \<open>ValueError\<close> on NaN. An \<open>int\<close> becomes a float by rounding and raises
  \<open>OverflowError\<close> when the result is no finite float.
\<close>

definition py_trunc :: "real \<Rightarrow> int" where
  "py_trunc r = (if 0 \<le> r then \<lfloor>r\<rfloor> else \<lceil>r\<rceil>)"

fun py_int_of_float :: "pyfloat \<Rightarrow> py_error + int" where
  "py_int_of_float (Fin a) = Inr (py_trunc a)"
| "py_int_of_float NaN = Inl ValueError"
| "py_int_of_float x = Inl OverflowError"

definition int_to_float :: "int \<Rightarrow> py_error + pyfloat" where
  "int_to_float n = (case round64 (real_of_int n) of Fin y \<Rightarrow> Inr (Fin y) | _ \<Rightarrow> Inl OverflowError)"

text \<open>
  \<open>pptx.util\<close>: lengths are integers in English Metric Units. \<open>Inches\<close> is applied to
  literals only (0, 0.2, 0.4, 0.6, 1, 2, 7.5, 10, 13.333); on each of them the float
  product truncates to the integer given here.
\<close>

definition Inches :: "real \<Rightarrow> int" where
  "Inches x = py_trunc (x * 914400)"

text \<open>
  A number is an \<open>int\<close> (a \<open>bool\<close> counts as 0 or 1) or a \<open>float\<close>. Comparisons between
  the two kinds are exact.
\<close>

datatype pynum = PInt int | PFloat pyfloat

fun to_num :: "json \<Rightarrow> pynum option" where
  "to_num (JInt n) = Some (PInt n)"
| "to_num (JBool b) = Some (PInt (if b then 1 else 0))"
| "to_num (JFloat f) = Some (PFloat f)"
| "to_num _ = None"

fun num_float :: "pynum \<Rightarrow> pyfloat" where
  "num_float (PInt n) = Fin (real_of_int n)"
| "num_float (PFloat f) = f"

definition num_less :: "pynum \<Rightarrow> pynum \<Rightarrow> bool" where
  "num_less a b = fless (num_float a) (num_float b)"

text \<open>\<open>max(a, b)\<close> is \<open>b\<close> if \<open>b > a\<close>, else \<open>a\<close>; \<open>min(a, b)\<close> is \<open>b\<close> if \<open>b < a\<close>, else \<open>a\<close>.\<close>

definition num_max :: "pynum \<Rightarrow> pynum \<Rightarrow> pynum" where
  "num_max a b = (if num_less a b then b else a)"

definition num_min :: "pynum \<Rightarrow> pynum \<Rightarrow> pynum" where
  "num_min a b = (if num_less b a then b else a)"

fun num_truthy :: "pynum \<Rightarrow> bool" where
  "num_truthy (PInt n) = (n \<noteq> 0)"
| "num_truthy (PFloat f) = (f \<noteq> Fin 0)"

text \<open>
  \<open>Pt(points)\<close> is \<open>int(points * 12700)\<close>: exact on an \<open>int\<close>, a rounded product on a
  float.
\<close>

fun Pt :: "pynum \<Rightarrow> py_error + int" where
  "Pt (PInt n) = Inr (n * 12700)"
| "Pt (PFloat f) = py_int_of_float (fmul f (Fin 12700))"

text \<open>
  \<open>v / 100\<close>: true division. The quotient of two integers is the exact quotient rounded,
  and raises \<open>OverflowError\<close> when that is no finite float.
\<close>

definition div100 :: "json \<Rightarrow> py_error + pyfloat" where
  "div100 v =
     (case to_num v of
        None \<Rightarrow> Inl TypeError
      | Some (PInt n) \<Rightarrow>
          (case round64 (real_of_int n / 100) of Fin y \<Rightarrow> Inr (Fin y) | _ \<Rightarrow> Inl OverflowError)
      | Some (PFloat f) \<Rightarrow> Inr (fdiv100 f))"

text \<open>\<open>int(pct * extent)\<close> for a float \<open>pct\<close> and an integer slide extent.\<close>

definition scale_to_slide :: "pyfloat \<Rightarrow> int \<Rightarrow> py_error + int" where
  "scale_to_slide pct extent =
     ebind (int_to_float extent) (\<lambda>e. py_int_of_float (fmul pct e))"

subsection \<open>The bounding box of an element\<close>

record box =
  b_left :: int
  b_top :: int
  b_width :: int
  b_height :: int

text \<open>The steps "ensure minimum dimensions" and "clamp to slide boundaries".\<close>

definition clamp_box :: "int \<Rightarrow> int \<Rightarrow> int \<Rightarrow> int \<Rightarrow> int \<Rightarrow> int \<Rightarrow> box" where
  "clamp_box slide_width slide_height left0 top0 width0 height0 =
     (let width1 = (if width0 < Inches 1 then Inches 2 else width0);
          height1 = (if height0 < Inches 0.4 then Inches 0.6 else height0);
          left1 = (if left0 < 0 then Inches 0.2 else left0);
          top1 = (if top0 < 0 then Inches 0.2 else top0);
          width2 = (if left1 + width1 > slide_width
                    then slide_width - left1 - Inches 0.2 else width1);
          height2 = (if top1 + height1 > slide_height
                     then slide_height - top1 - Inches 0.2 else height1)
      in \<lparr>b_left = left1, b_top = top1, b_width = width2, b_height = height2\<rparr>)"

text \<open>
  From the \<open>position\<close> object to the box: the four percentages (defaults 5, 5, 90, 15)
  are divided by 100, scaled by the slide dimensions and truncated, then adjusted.
\<close>

definition element_box :: "int \<Rightarrow> int \<Rightarrow> json \<Rightarrow> py_error + box" where
  "element_box slide_width slide_height pos =
     ebind (ebind (py_get pos (ustr ''x_percent'') (JInt 5)) div100) (\<lambda>x_pct.
     ebind (ebind (py_get pos (ustr ''y_percent'') (JInt 5)) div100) (\<lambda>y_pct.
     ebind (ebind (py_get pos (ustr ''width_percent'') (JInt 90)) div100) (\<lambda>w_pct.
     ebind (ebind (py_get pos (ustr ''height_percent'') (JInt 15)) div100) (\<lambda>h_pct.
     ebind (scale_to_slide x_pct slide_width) (\<lambda>left0.
     ebind (scale_to_slide y_pct slide_height) (\<lambda>top0.
     ebind (scale_to_slide w_pct slide_width) (\<lambda>width0.
     ebind (scale_to_slide h_pct slide_height) (\<lambda>height0.
     Inr (clamp_box slide_width slide_height left0 top0 width0 height0)))))))))"

subsection \<open>Paragraphs\<close>

datatype pp_align = LEFT | CENTER | RIGHT

text \<open>
  A run and a paragraph of a text frame hold what the source assigns to them. The level,
  the bold and the italic flag are kept as the Python values assigned.
\<close>

record run =
  r_text :: pystr
  r_size :: int
  r_color :: "int \<times> int \<times> int"
  r_bold :: json
  r_italic :: json
  r_name :: pystr

record para =
  p_alignment :: "pp_align option"
  p_level :: "json option"
  p_runs :: "run list"

definition blank_paragraph :: para where
  "blank_paragraph = \<lparr>p_alignment = None, p_level = None, p_runs = []\<rparr>"

definition BULLET_CHARS :: pystr where
  "BULLET_CHARS = [BULLET, 45, 42, 32]"

text \<open>The test for a leading bullet glyph, on the stripped line.\<close>

definition is_bullet_line :: "pystr \<Rightarrow> bool" where
  "is_bullet_line line \<longleftrightarrow>
     py_startswith line [BULLET] \<or> py_startswith line (ustr ''-'') \<or> py_startswith line (ustr ''*'')"

text \<open>The text given to the run of a stripped, non-empty line.\<close>

definition line_text :: "pystr \<Rightarrow> pystr" where
  "line_text line =
     (if is_bullet_line line then py_strip (py_lstrip_chars BULLET_CHARS line) else line)"

definition resolve_alignment :: "json \<Rightarrow> pp_align" where
  "resolve_alignment alignment =
     (if alignment = JStr (ustr ''center'') then CENTER
      else if alignment = JStr (ustr ''right'') then RIGHT
      else LEFT)"

text \<open>\<open>max(0, (bullet_level or 1) - 1)\<close> for a number \<open>bullet_level\<close>.\<close>

definition level_value :: "pynum \<Rightarrow> pynum" where
  "level_value bullet_level =
     num_max (PInt 0)
       (case (if num_truthy bullet_level then bullet_level else PInt 1) of
          PInt n \<Rightarrow> PInt (n - 1)
        | PFloat f \<Rightarrow> PFloat (fsub1 f))"

text \<open>
  The font size in points: a string is parsed after removing \<open>pt\<close> (18 when that fails),
  the kind sets a floor or a ceiling, and the result is clamped to 10..60. Comparing
  anything but a number with the bounds raises \<open>TypeError\<close>.
\<close>

definition resolve_font_size :: "(nat \<Rightarrow> nat option) \<Rightarrow> json \<Rightarrow> json \<Rightarrow> py_error + pynum" where
  "resolve_font_size udec font_size elem_type =
     (let fs = (case font_size of
                  JStr s \<Rightarrow> (case py_int udec 10 (replace_pt s) of
                               None \<Rightarrow> JInt 18
                             | Some n \<Rightarrow> JInt n)
                | v \<Rightarrow> v)
      in (case to_num fs of
            None \<Rightarrow> Inl TypeError
          | Some x \<Rightarrow>
              (let y = (if elem_type = JStr (ustr ''title'') then num_max x (PInt 32)
                        else if elem_type = JStr (ustr ''subtitle'') then num_max x (PInt 24)
                        else if elem_type = JStr (ustr ''heading'') then num_max x (PInt 22)
                        else if elem_type = JStr (ustr ''caption'') then num_min x (PInt 14)
                        else x)
               in Inr (num_max (PInt 10) (num_min (PInt 60) y)))))"

text \<open>\<open>RGBColor(r, g, b)\<close> of \<open>pptx.dml.color\<close> takes three integers in 0..255.\<close>

definition RGBColor :: "int \<times> int \<times> int \<Rightarrow> py_error + (int \<times> int \<times> int)" where
  "RGBColor c =
     (case c of (r, g, b) \<Rightarrow>
        if 0 \<le> r \<and> r \<le> 255 \<and> 0 \<le> g \<and> g \<le> 255 \<and> 0 \<le> b \<and> b \<le> 255 then Inr (r, g, b)
        else Inl ValueError)"

text \<open>
  The setters of the presentation writer check what they are given. The level of a
  paragraph is an \<open>int\<close> from 0 to 8 (or any value equal to 0): another \<open>int\<close> raises
  \<open>ValueError\<close>, a float \<open>TypeError\<close>. The size of a font is a length of 100 to 400000
  hundredths of a point, of 127 EMU each, else \<open>ValueError\<close>. A font flag is \<open>None\<close> or a
  value equal to \<open>True\<close> or \<open>False\<close>, anything else raises \<open>TypeError\<close>. The text of a run
  is written to XML, where control characters are escaped and a surrogate, U+FFFE or
  U+FFFF raises \<open>ValueError\<close>.
\<close>

fun set_level :: "pynum \<Rightarrow> py_error + json" where
  "set_level (PInt n) = (if 0 \<le> n \<and> n \<le> 8 then Inr (JInt n) else Inl ValueError)"
| "set_level (PFloat f) = (if f = Fin 0 then Inr (JFloat f) else Inl TypeError)"

definition set_size :: "int \<Rightarrow> py_error + int" where
  "set_size emu =
     (if 100 \<le> emu div 127 \<and> emu div 127 \<le> 400000 then Inr emu else Inl ValueError)"

definition set_flag :: "json \<Rightarrow> py_error + json" where
  "set_flag v =
     (if v = JNull \<or> to_num v = Some (PInt 0) \<or> to_num v = Some (PInt 1) \<or>
         v = JFloat (Fin 0) \<or> v = JFloat (Fin 1)
      then Inr v else Inl TypeError)"

definition xml_char :: "nat \<Rightarrow> bool" where
  "xml_char c \<longleftrightarrow> \<not> (55296 \<le> c \<and> c \<le> 57343) \<and> c \<noteq> 65534 \<and> c \<noteq> 65535"

definition set_text :: "pystr \<Rightarrow> py_error + pystr" where
  "set_text s = (if list_all xml_char s then Inr s else Inl ValueError)"

text \<open>
  The body of the line loop after the blank test, acting on the paragraph \<open>p\<close> chosen for
  the line, in the order of the source: alignment, level, a run with its text, font
  size, colour, bold, italic and font name.
\<close>

definition fill_paragraph ::
  "(nat \<Rightarrow> nat option) \<Rightarrow> json \<Rightarrow> json \<Rightarrow> json \<Rightarrow> pystr \<Rightarrow> para \<Rightarrow> py_error + para" where
  "fill_paragraph udec style bullet_level elem_type line p =
     ebind (py_get style (ustr ''alignment'') (JStr (ustr ''left''))) (\<lambda>alignment.
     ebind (case to_num bullet_level of
              None \<Rightarrow> Inl TypeError
            | Some bl \<Rightarrow>
                if num_less (PInt 0) bl \<or> is_bullet_line line \<or> elem_type = JStr (ustr ''bullet'')
                then ebind (set_level (level_value bl)) (\<lambda>v. Inr (Some v))
                else Inr (p_level p)) (\<lambda>level.
     ebind (set_text (line_text line)) (\<lambda>run_text.
     ebind (py_get style (ustr ''font_size'') (JInt 18)) (\<lambda>font_size.
     ebind (resolve_font_size udec font_size elem_type) (\<lambda>points.
     ebind (ebind (Pt points) set_size) (\<lambda>size.
     ebind (py_get style (ustr ''font_color'') (JStr (ustr ''#000000''))) (\<lambda>font_color.
     ebind (hex_to_rgb udec font_color) (\<lambda>rgb.
     ebind (RGBColor rgb) (\<lambda>color.
     ebind (py_get style (ustr ''bold'') (JBool False)) (\<lambda>bold.
     ebind (set_flag (if truthy bold then bold
                      else JBool (elem_type = JStr (ustr ''title'') \<or>
                                  elem_type = JStr (ustr ''heading'')))) (\<lambda>bold_flag.
     ebind (py_get style (ustr ''italic'') (JBool False)) (\<lambda>italic.
     ebind (set_flag italic) (\<lambda>italic_flag.
     Inr (p\<lparr>p_alignment := Some (resolve_alignment alignment),
             p_level := level,
             p_runs := p_runs p @
               [\<lparr>r_text = run_text,
                 r_size = size,
                 r_color = color,
                 r_bold = bold_flag,
                 r_italic = italic_flag,
                 r_name = ustr ''Arial''\<rparr>]\<rparr>))))))))))))))"

text \<open>
  The loop \<open>for i, line in enumerate(lines)\<close> from index \<open>i\<close> on, on the paragraphs of the
  text frame: a blank line is skipped, line 0 uses \<open>paragraphs[0]\<close>, any other line a
  paragraph added at the end.
\<close>

fun lines_loop ::
  "(nat \<Rightarrow> nat option) \<Rightarrow> json \<Rightarrow> json \<Rightarrow> json \<Rightarrow> nat \<Rightarrow> pystr list \<Rightarrow> para list
     \<Rightarrow> py_error + para list" where
  "lines_loop udec style bullet_level elem_type i [] ps = Inr ps"
| "lines_loop udec style bullet_level elem_type i (raw # rest) ps =
     (let line = py_strip raw in
      if line = [] then lines_loop udec style bullet_level elem_type (Suc i) rest ps
      else if i = 0 then
        (case ps of
           [] \<Rightarrow> Inl IndexError
         | p0 # others \<Rightarrow>
             ebind (fill_paragraph udec style bullet_level elem_type line p0) (\<lambda>p.
               lines_loop udec style bullet_level elem_type (Suc i) rest (p # others)))
      else
        ebind (fill_paragraph udec style bullet_level elem_type line blank_paragraph) (\<lambda>p.
          lines_loop udec style bullet_level elem_type (Suc i) rest (ps @ [p])))"

subsection \<open>Shapes and slides\<close>

text \<open>An image is named by the rendering that made it: page, resolution, \<open>for_ai\<close>.\<close>

datatype 'p image = Render 'p nat bool

datatype 'p shape =
    Picture "'p image" int int int int
  | TextBox box "para list"

record 'p slide =
  shapes :: "'p shape list"
  background :: "(int \<times> int \<times> int) option"

text \<open>\<open>str(text).strip()\<close> as a method call: only a string has it.\<close>

definition strip_method :: "json \<Rightarrow> py_error + pystr" where
  "strip_method v = (case v of JStr s \<Rightarrow> Inr (py_strip s) | _ \<Rightarrow> Inl AttributeError)"

text \<open>
  One pass of the element loop: \<open>None\<close> when the element is skipped for its empty text,
  else the text box added to the slide.
\<close>

definition element_shape ::
  "(nat \<Rightarrow> nat option) \<Rightarrow> int \<Rightarrow> int \<Rightarrow> json \<Rightarrow> py_error + 'p shape option" where
  "element_shape udec slide_width slide_height elem =
     ebind (ebind (py_get elem (ustr ''text'') (JStr [])) strip_method) (\<lambda>text.
     if text = [] then Inr None
     else
       ebind (py_get elem (ustr ''position'') (JDict [])) (\<lambda>pos.
       ebind (py_get elem (ustr ''style'') (JDict [])) (\<lambda>style.
       ebind (element_box slide_width slide_height pos) (\<lambda>bx.
       ebind (py_get elem (ustr ''bullet_level'') (JInt 0)) (\<lambda>bullet_level.
       ebind (py_get elem (ustr ''type'') (JStr (ustr ''body''))) (\<lambda>elem_type.
       ebind (lines_loop udec style bullet_level elem_type 0
                (if 10 \<in> set text then py_split_nl text else [text]) [blank_paragraph]) (\<lambda>ps.
       Inr (Some (TextBox bx ps)))))))))"

fun elements_loop ::
  "(nat \<Rightarrow> nat option) \<Rightarrow> int \<Rightarrow> int \<Rightarrow> json list \<Rightarrow> py_error + 'p shape list" where
  "elements_loop udec slide_width slide_height [] = Inr []"
| "elements_loop udec slide_width slide_height (elem # rest) =
     ebind (element_shape udec slide_width slide_height elem) (\<lambda>sh.
     ebind (elements_loop udec slide_width slide_height rest) (\<lambda>shs.
     Inr (case sh of None \<Rightarrow> shs | Some s \<Rightarrow> s # shs)))"

text \<open>What \<open>for elem in elements\<close> iterates over.\<close>

fun py_iter :: "json \<Rightarrow> py_error + json list" where
  "py_iter (JList xs) = Inr xs"
| "py_iter (JStr s) = Inr (map (\<lambda>c. JStr [c]) s)"
| "py_iter (JDict kvs) = Inr (map (\<lambda>kv. JStr (fst kv)) kvs)"
| "py_iter _ = Inl TypeError"

text \<open>
  \<open>create_slide_from_ai_data\<close>: the slide appended to the presentation. The background
  picture is placed first in the shape tree; without a picture the background is filled.
\<close>

definition create_slide_from_ai_data ::
  "(nat \<Rightarrow> nat option) \<Rightarrow> json \<Rightarrow> int \<Rightarrow> int \<Rightarrow> 'p image option \<Rightarrow> py_error + 'p slide" where
  "create_slide_from_ai_data udec slide_data slide_width slide_height background_image =
     ebind (case background_image of
              Some img \<Rightarrow> Inr ([Picture img (Inches 0) (Inches 0) slide_width slide_height], None)
            | None \<Rightarrow>
                ebind (py_get slide_data (ustr ''background_color'') (JStr (ustr ''#FFFFFF''))) (\<lambda>bg_color.
                ebind (hex_to_rgb udec bg_color) (\<lambda>rgb.
                ebind (RGBColor rgb) (\<lambda>c. Inr ([], Some c))))) (\<lambda>(back, fill).
     ebind (py_get slide_data (ustr ''elements'') (JList [])) (\<lambda>elements.
     ebind (py_iter elements) (\<lambda>elems.
     ebind (elements_loop udec slide_width slide_height elems) (\<lambda>boxes.
     Inr \<lparr>shapes = back @ boxes, background = fill\<rparr>))))"

section \<open>Pipeline Driver\<close>

text \<open>A page of the document: the width and height of its rectangle, and its content.\<close>

record page =
  rect_width :: pyfloat
  rect_height :: pyfloat
  page_id :: nat

record driver_state =
  ext :: ext_state
  slides :: "page slide list"
  failed_slides :: "nat list"

text \<open>
  The test \<open>slide_data and slide_data.get("elements")\<close>: the content when the test holds,
  \<open>None\<close> when it does not.
\<close>

definition usable :: "json option \<Rightarrow> py_error + json option" where
  "usable slide_data =
     (case slide_data of
        None \<Rightarrow> Inr None
      | Some d \<Rightarrow>
          if truthy d then
            ebind (py_get d (ustr ''elements'') JNull) (\<lambda>els.
              Inr (if truthy els then Some d else None))
          else Inr None)"

text \<open>One pass of the page loop, for the page with index \<open>page_num\<close> of \<open>total_pages\<close>.\<close>

definition process_page ::
  "(nat \<Rightarrow> nat option) \<Rightarrow> (pystr \<Rightarrow> exn + json) \<Rightarrow> (nat \<Rightarrow> api_outcome) \<Rightarrow> int \<Rightarrow> int \<Rightarrow> nat
     \<Rightarrow> nat \<Rightarrow> page \<Rightarrow> driver_state \<Rightarrow> py_error + driver_state" where
  "process_page udec loads env slide_width slide_height total_pages page_num pg d =
     (let bg_image = Render pg 200 False in
      case analyze_slide_with_gemini loads env 3 (ext d) of
        (slide_data, st) \<Rightarrow>
          ebind (usable slide_data) (\<lambda>content.
          ebind (case content of
                   Some data \<Rightarrow>
                     ebind (create_slide_from_ai_data udec data slide_width slide_height
                              (Some bg_image)) (\<lambda>s.
                       Inr (d\<lparr>slides := slides d @ [s]\<rparr>))
                 | None \<Rightarrow>
                     Inr (d\<lparr>failed_slides := failed_slides d @ [page_num + 1],
                            slides := slides d @
                              [\<lparr>shapes = [Picture bg_image (Inches 0) (Inches 0) slide_width slide_height],
                                background = None\<rparr>]\<rparr>))
            (\<lambda>d1.
          Inr (d1\<lparr>ext := (if int page_num < int total_pages - 1 then log_sleep 10 st else st)\<rparr>))))"

fun pages_loop ::
  "(nat \<Rightarrow> nat option) \<Rightarrow> (pystr \<Rightarrow> exn + json) \<Rightarrow> (nat \<Rightarrow> api_outcome) \<Rightarrow> int \<Rightarrow> int \<Rightarrow> nat
     \<Rightarrow> nat \<Rightarrow> page list \<Rightarrow> driver_state \<Rightarrow> py_error + driver_state" where
  "pages_loop udec loads env slide_width slide_height total_pages page_num [] d = Inr d"
| "pages_loop udec loads env slide_width slide_height total_pages page_num (pg # rest) d =
     ebind (process_page udec loads env slide_width slide_height total_pages page_num pg d) (\<lambda>d1.
       pages_loop udec loads env slide_width slide_height total_pages (Suc page_num) rest d1)"

text \<open>
  \<open>create_pptx_from_pdf_with_ai\<close>: \<open>None\<close> is the early \<open>return False\<close> (package or key
  missing); else the slide size comes from the first page and the loop runs over all pages.
\<close>

record presentation =
  out_width :: int
  out_height :: int
  out_slides :: "page slide list"
  out_failed :: "nat list"
  out_ext :: ext_state

definition create_pptx_from_pdf_with_ai ::
  "(nat \<Rightarrow> nat option) \<Rightarrow> (pystr \<Rightarrow> exn + json) \<Rightarrow> (nat \<Rightarrow> api_outcome) \<Rightarrow> bool \<Rightarrow> pystr
     \<Rightarrow> page list \<Rightarrow> py_error + presentation option" where
  "create_pptx_from_pdf_with_ai udec loads env gemini_available api_key doc =
     (if \<not> gemini_available then Inr None
      else if api_key = [] then Inr None
      else (case doc of
              [] \<Rightarrow> Inl IndexError
            | first_page # _ \<Rightarrow>
                (case fdiv (rect_width first_page) (rect_height first_page) of
                   None \<Rightarrow> Inl ZeroDivisionError
                 | Some aspect_ratio \<Rightarrow>
                  (let slide_width = (if fless (Fin 1.5) aspect_ratio then Inches 13.333 else Inches 10);
                       slide_height = Inches 7.5
                   in ebind (pages_loop udec loads env slide_width slide_height (length doc) 0 doc
                              \<lparr>ext = \<lparr>calls = [], sleeps = []\<rparr>, slides = [], failed_slides = []\<rparr>)
                        (\<lambda>d. Inr (Some \<lparr>out_width = slide_width, out_height = slide_height,
                                         out_slides = slides d, out_failed = failed_slides d,
                                         out_ext = ext d\<rparr>))))))"

section \<open>Content of the documented shape\<close>

text \<open>
  The JSON types the response format documents for the fields of a slide content. A field
  may be absent. A percentage is a finite number, a font size a finite number or a string,
  a colour a string without a minus sign, a flag a Boolean, the bullet level an integer
  from 0 to 9, a text a string of characters that XML can hold; numbers stay below
  \<open>MAGNITUDE_LIMIT\<close>, far inside the range of a float.
\<close>

definition MAGNITUDE_LIMIT :: real where
  "MAGNITUDE_LIMIT = 10 ^ 100"

definition field_ok :: "(pystr \<times> json) list \<Rightarrow> string \<Rightarrow> (json \<Rightarrow> bool) \<Rightarrow> bool" where
  "field_ok kvs k P = (case map_of kvs (ustr k) of None \<Rightarrow> True | Some v \<Rightarrow> P v)"

fun is_percentage :: "json \<Rightarrow> bool" where
  "is_percentage (JInt n) = (\<bar>real_of_int n\<bar> \<le> MAGNITUDE_LIMIT)"
| "is_percentage (JFloat (Fin r)) = (\<bar>r\<bar> \<le> MAGNITUDE_LIMIT)"
| "is_percentage _ = False"

fun is_text :: "json \<Rightarrow> bool" where
  "is_text (JStr s) = list_all xml_char s"
| "is_text _ = False"

fun is_font_size :: "json \<Rightarrow> bool" where
  "is_font_size (JInt n) = True"
| "is_font_size (JFloat (Fin r)) = True"
| "is_font_size (JStr s) = True"
| "is_font_size _ = False"

fun is_color :: "json \<Rightarrow> bool" where
  "is_color (JStr s) = (45 \<notin> set s)"
| "is_color _ = False"

fun is_flag :: "json \<Rightarrow> bool" where
  "is_flag (JBool b) = True"
| "is_flag _ = False"

fun is_level :: "json \<Rightarrow> bool" where
  "is_level (JInt n) = (0 \<le> n \<and> n \<le> 9)"
| "is_level _ = False"

fun well_typed_position :: "json \<Rightarrow> bool" where
  "well_typed_position (JDict kvs) =
     (field_ok kvs ''x_percent'' is_percentage \<and> field_ok kvs ''y_percent'' is_percentage \<and>
      field_ok kvs ''width_percent'' is_percentage \<and> field_ok kvs ''height_percent'' is_percentage)"
| "well_typed_position _ = False"

fun well_typed_style :: "json \<Rightarrow> bool" where
  "well_typed_style (JDict kvs) =
     (field_ok kvs ''font_size'' is_font_size \<and> field_ok kvs ''font_color'' is_color \<and>
      field_ok kvs ''bold'' is_flag \<and> field_ok kvs ''italic'' is_flag)"
| "well_typed_style _ = False"

fun well_typed_element :: "json \<Rightarrow> bool" where
  "well_typed_element (JDict kvs) =
     (field_ok kvs ''text'' is_text \<and> field_ok kvs ''position'' well_typed_position \<and>
      field_ok kvs ''style'' well_typed_style \<and> field_ok kvs ''bullet_level'' is_level)"
| "well_typed_element _ = False"

fun is_element_list :: "json \<Rightarrow> bool" where
  "is_element_list (JList es) = list_all well_typed_element es"
| "is_element_list _ = False"

fun well_typed_content :: "json \<Rightarrow> bool" where
  "well_typed_content (JDict kvs) =
     (field_ok kvs ''elements'' is_element_list \<and> field_ok kvs ''background_color'' is_color)"
| "well_typed_content _ = False"

definition channel_ok :: "int \<Rightarrow> bool" where
  "channel_ok c \<longleftrightarrow> 0 \<le> c \<and> c \<le> 255"

subsection \<open>The documented defaults, written into a content\<close>

text \<open>
  \<open>with_default\<close> adds a field that is absent; \<open>map_field\<close> changes the value of a field
  that is present. \<open>content_defaults\<close> writes every documented default into a content:
  elements \<open>[]\<close>, background colour \<open>#FFFFFF\<close>; per element text \<open>""\<close>, type \<open>body\<close>,
  bullet level 0, position 5, 5, 90, 15, and style alignment \<open>left\<close>, font size 18, font
  colour \<open>#000000\<close>, bold and italic \<open>False\<close>.
\<close>

definition with_default :: "string \<Rightarrow> json \<Rightarrow> (pystr \<times> json) list \<Rightarrow> (pystr \<times> json) list" where
  "with_default k d kvs =
     (case map_of kvs (ustr k) of None \<Rightarrow> kvs @ [(ustr k, d)] | Some v \<Rightarrow> kvs)"

definition map_field :: "string \<Rightarrow> (json \<Rightarrow> json) \<Rightarrow> (pystr \<times> json) list \<Rightarrow> (pystr \<times> json) list" where
  "map_field k f kvs = map (\<lambda>kv. if fst kv = ustr k then (fst kv, f (snd kv)) else kv) kvs"

fun position_defaults :: "json \<Rightarrow> json" where
  "position_defaults (JDict kvs) =
     JDict (with_default ''x_percent'' (JInt 5) (with_default ''y_percent'' (JInt 5)
           (with_default ''width_percent'' (JInt 90) (with_default ''height_percent'' (JInt 15) kvs))))"
| "position_defaults v = v"

fun style_defaults :: "json \<Rightarrow> json" where
  "style_defaults (JDict kvs) =
     JDict (with_default ''alignment'' (JStr (ustr ''left'')) (with_default ''font_size'' (JInt 18)
           (with_default ''font_color'' (JStr (ustr ''#000000''))
           (with_default ''bold'' (JBool False) (with_default ''italic'' (JBool False) kvs)))))"
| "style_defaults v = v"

fun element_defaults :: "json \<Rightarrow> json" where
  "element_defaults (JDict kvs) =
     JDict (map_field ''position'' position_defaults (map_field ''style'' style_defaults
           (with_default ''text'' (JStr []) (with_default ''type'' (JStr (ustr ''body''))
           (with_default ''bullet_level'' (JInt 0)
           (with_default ''position'' (JDict []) (with_default ''style'' (JDict []) kvs)))))))"
| "element_defaults v = v"

fun elements_defaults :: "json \<Rightarrow> json" where
  "elements_defaults (JList es) = JList (map element_defaults es)"
| "elements_defaults v = v"

fun content_defaults :: "json \<Rightarrow> json" where
  "content_defaults (JDict kvs) =
     JDict (map_field ''elements'' elements_defaults
           (with_default ''elements'' (JList [])
           (with_default ''background_color'' (JStr (ustr ''#FFFFFF'')) kvs)))"
| "content_defaults v = v"

subsection \<open>What the slide of a content holds\<close>

text \<open>
  An element is shown when its text, stripped, is not empty. The lines of a text are
  its pieces between line breaks, stripped, without the empty ones. The text box of an
  element lies at the box of its position and has one paragraph per line, whose single
  run holds the line without its leading bullet run.
\<close>

definition element_text :: "json \<Rightarrow> pystr" where
  "element_text elem =
     (case py_get elem (ustr ''text'') (JStr []) of Inr (JStr s) \<Rightarrow> py_strip s | _ \<Rightarrow> [])"

definition shown :: "json \<Rightarrow> bool" where
  "shown elem \<longleftrightarrow> element_text elem \<noteq> []"

definition text_lines :: "pystr \<Rightarrow> pystr list" where
  "text_lines text = filter (\<lambda>l. l \<noteq> []) (map py_strip (py_split_nl text))"

definition box_of_element :: "int \<Rightarrow> int \<Rightarrow> json \<Rightarrow> 'p shape \<Rightarrow> bool" where
  "box_of_element slide_width slide_height elem sh \<longleftrightarrow>
     (case sh of
        TextBox bx ps \<Rightarrow>
          (case py_get elem (ustr ''position'') (JDict []) of
             Inr pos \<Rightarrow> element_box slide_width slide_height pos = Inr bx
           | Inl e \<Rightarrow> False) \<and>
          map (\<lambda>p. map r_text (p_runs p)) ps =
            map (\<lambda>l. [line_text l]) (text_lines (element_text elem))
      | Picture img x y w h \<Rightarrow> False)"

section \<open>Scenarios\<close>

text \<open>
  The concrete runs the theorems are instantiated at. \<open>loads_stub\<close> is \<open>json.loads\<close> on
  the three texts used here (an object without keys, one with an empty \<open>elements\<close> array,
  one with a single element of text \<open>Hi\<close>) and its \<open>JSONDecodeError\<close> on any other text;
  the other texts used are not JSON.
\<close>

definition TEXT_EMPTY_OBJECT :: pystr where
  "TEXT_EMPTY_OBJECT = ustr ''{}''"

definition TEXT_NO_ELEMENTS :: pystr where
  "TEXT_NO_ELEMENTS = ustr ''{'' @ [34] @ ustr ''elements'' @ [34] @ ustr '': []}''"

definition TEXT_ONE_ELEMENT :: pystr where
  "TEXT_ONE_ELEMENT =
     ustr ''{'' @ [34] @ ustr ''elements'' @ [34] @ ustr '': [{'' @ [34] @ ustr ''text'' @ [34] @
     ustr '': '' @ [34] @ ustr ''Hi'' @ [34] @ ustr ''}]}''"

definition CONTENT_ONE_ELEMENT :: json where
  "CONTENT_ONE_ELEMENT = JDict [(ustr ''elements'', JList [JDict [(ustr ''text'', JStr (ustr ''Hi''))]])]"

definition loads_stub :: "pystr \<Rightarrow> exn + json" where
  "loads_stub s =
     (if s = TEXT_EMPTY_OBJECT then Inr (JDict [])
      else if s = TEXT_NO_ELEMENTS then Inr (JDict [(ustr ''elements'', JList [])])
      else if s = TEXT_ONE_ELEMENT then Inr CONTENT_ONE_ELEMENT
      else Inl JSONDecodeError)"

definition no_udec :: "nat \<Rightarrow> nat option" where
  "no_udec c = None"

definition fresh :: ext_state where
  "fresh = \<lparr>calls = [], sleeps = []\<rparr>"

text \<open>The first model answers with prose; every later call would return an object.\<close>

definition env_prose_first :: "nat \<Rightarrow> api_outcome" where
  "env_prose_first k =
     (if k = 0 then ApiResponse (Some (ustr ''Sorry, I cannot read this slide.''))
      else ApiResponse (Some TEXT_EMPTY_OBJECT))"

text \<open>A rate limit, then a server error, then prose from the second model.\<close>

definition env_prose_third :: "nat \<Rightarrow> api_outcome" where
  "env_prose_third k =
     (if k = 0 then ApiRaises (OtherError (ustr ''429 Too Many Requests''))
      else if k = 1 then ApiRaises (OtherError (ustr ''503 UNAVAILABLE''))
      else if k = 2 then ApiResponse (Some (ustr ''Sorry, I cannot read this slide.''))
      else ApiResponse (Some TEXT_EMPTY_OBJECT))"



text \<open>Five pages, one call each: page 3 gets an empty \<open>elements\<close> array.\<close>

definition env_five_pages :: "nat \<Rightarrow> api_outcome" where
  "env_five_pages k =
     (if k = 2 then ApiResponse (Some TEXT_NO_ELEMENTS) else ApiResponse (Some TEXT_ONE_ELEMENT))"

definition pdf_page :: "nat \<Rightarrow> page" where
  "pdf_page n = \<lparr>rect_width = Fin 960, rect_height = Fin 540, page_id = n\<rparr>"

definition five_pages :: "page list" where
  "five_pages = [pdf_page 1, pdf_page 2, pdf_page 3, pdf_page 4, pdf_page 5]"

text \<open>
  The run a line gets under the default style: 18 pt, black, neither bold nor italic.
\<close>

definition plain_run :: "pystr \<Rightarrow> run" where
  "plain_run t =
     \<lparr>r_text = t, r_size = 228600, r_color = (0, 0, 0), r_bold = JBool False,
      r_italic = JBool False, r_name = ustr ''Arial''\<rparr>"

text \<open>The box of an element without \<open>position\<close> on a slide of 10 by 7.5 inches.\<close>

definition default_box :: box where
  "default_box = \<lparr>b_left = 457200, b_top = 342900, b_width = 8229600, b_height = 1028700\<rparr>"

text \<open>The slide made from \<open>CONTENT_ONE_ELEMENT\<close> over the picture of a page.\<close>

definition one_element_slide :: "page \<Rightarrow> page slide" where
  "one_element_slide pg =
     \<lparr>shapes = [Picture (Render pg 200 False) 0 0 12191695 6858000,
                TextBox \<lparr>b_left = 609584, b_top = 342900, b_width = 10972525, b_height = 1028700\<rparr>
                  [\<lparr>p_alignment = Some LEFT, p_level = None, p_runs = [plain_run (ustr ''Hi'')]\<rparr>]],
      background = None\<rparr>"

text \<open>The states of the five-page run: at its start, after two pages, at its end.\<close>

definition run_start :: driver_state where
  "run_start = \<lparr>ext = fresh, slides = [], failed_slides = []\<rparr>"

definition after_two_pages :: driver_state where
  "after_two_pages =
     \<lparr>ext = \<lparr>calls = [(ustr ''gemini-2.5-flash-lite'', 0), (ustr ''gemini-2.5-flash-lite'', 0)],
             sleeps = [10, 10]\<rparr>,
      slides = [one_element_slide (pdf_page 1), one_element_slide (pdf_page 2)],
      failed_slides = []\<rparr>"

definition after_five_pages :: driver_state where
  "after_five_pages =
     \<lparr>ext = \<lparr>calls = [(ustr ''gemini-2.5-flash-lite'', 0), (ustr ''gemini-2.5-flash-lite'', 0),
                      (ustr ''gemini-2.5-flash-lite'', 0), (ustr ''gemini-2.5-flash-lite'', 0),
                      (ustr ''gemini-2.5-flash-lite'', 0)],
             sleeps = [10, 10, 10, 10]\<rparr>,
      slides = [one_element_slide (pdf_page 1), one_element_slide (pdf_page 2),
                \<lparr>shapes = [Picture (Render (pdf_page 3) 200 False) 0 0 12191695 6858000],
                 background = None\<rparr>,
                one_element_slide (pdf_page 4), one_element_slide (pdf_page 5)],
      failed_slides = [3]\<rparr>"

text \<open>
  A content of two elements: a title at (5, 5, 90, 15) of size 40 and a body line with a
  bullet glyph at (5, 25, 90, 50) of size 18 and bullet level 1.
\<close>

definition CONTENT_TITLE_AND_BULLET :: json where
  "CONTENT_TITLE_AND_BULLET =
     JDict [(ustr ''background_color'', JStr (ustr ''#FFFFFF'')),
            (ustr ''elements'', JList
              [JDict [(ustr ''type'', JStr (ustr ''title'')),
                      (ustr ''text'', JStr (ustr ''Quarterly Review'')),
                      (ustr ''position'', JDict [(ustr ''x_percent'', JInt 5), (ustr ''y_percent'', JInt 5),
                         (ustr ''width_percent'', JInt 90), (ustr ''height_percent'', JInt 15)]),
                      (ustr ''style'', JDict [(ustr ''font_size'', JInt 40),
                         (ustr ''font_color'', JStr (ustr ''#1F3864'')), (ustr ''bold'', JBool False),
                         (ustr ''italic'', JBool False), (ustr ''alignment'', JStr (ustr ''left''))]),
                      (ustr ''bullet_level'', JInt 0)],
               JDict [(ustr ''type'', JStr (ustr ''body'')),
                      (ustr ''text'', JStr ([BULLET] @ ustr '' Revenue up'')),
                      (ustr ''position'', JDict [(ustr ''x_percent'', JInt 5), (ustr ''y_percent'', JInt 25),
                         (ustr ''width_percent'', JInt 90), (ustr ''height_percent'', JInt 50)]),
                      (ustr ''style'', JDict [(ustr ''font_size'', JInt 18),
                         (ustr ''font_color'', JStr (ustr ''#000000'')), (ustr ''bold'', JBool False),
                         (ustr ''italic'', JBool False), (ustr ''alignment'', JStr (ustr ''left''))]),
                      (ustr ''bullet_level'', JInt 1)]])]"

text \<open>A content whose only element has a number where its text should be.\<close>

definition CONTENT_NUMBER_AS_TEXT :: json where
  "CONTENT_NUMBER_AS_TEXT =
     JDict [(ustr ''elements'', JList [JDict [(ustr ''text'', JInt 2024)]])]"

text \<open>
  A content that leaves most fields out: its first element has only a text, of the two
  lines \<open>Plan\<close> and \<open>- first step\<close>, its second element a text of three blanks. No
  background colour is given. \<open>SPARSE_SLIDE\<close> is the slide made from it on a slide of 10
  by 7.5 inches without a background picture.
\<close>

definition SPARSE_ELEMENTS :: "json list" where
  "SPARSE_ELEMENTS =
     [JDict [(ustr ''text'', JStr (ustr ''Plan'' @ [10] @ ustr ''- first step''))],
      JDict [(ustr ''text'', JStr (ustr ''   ''))]]"

definition CONTENT_SPARSE :: json where
  "CONTENT_SPARSE = JDict [(ustr ''elements'', JList SPARSE_ELEMENTS)]"

definition SPARSE_BOXES :: "page shape list" where
  "SPARSE_BOXES =
     [TextBox default_box
        [\<lparr>p_alignment = Some LEFT, p_level = None, p_runs = [plain_run (ustr ''Plan'')]\<rparr>,
         \<lparr>p_alignment = Some LEFT, p_level = Some (JInt 0),
           p_runs = [plain_run (ustr ''first step'')]\<rparr>]]"

definition SPARSE_SLIDE :: "page slide" where
  "SPARSE_SLIDE = \<lparr>shapes = SPARSE_BOXES, background = Some (255, 255, 255)\<rparr>"

section \<open>Facts about the Content Extractor\<close>

lemma calls_log_call: "calls (log_call m a st) = calls st @ [(m, a)]"
  by (simp add: log_call_def)

lemma calls_log_sleep: "calls (log_sleep n st) = calls st"
  by (simp add: log_sleep_def)

lemma try_body_parse_fails:
  "json_parse_fails loads outcome \<Longrightarrow> try_body loads outcome = Inl JSONDecodeError"
  by (cases "(loads, outcome)" rule: json_parse_fails.cases) (simp_all add: try_body_def)

lemma attempt_loop_json_error:
  assumes "attempt < max_retries"
    and "try_body loads (env (length (calls st))) = Inl JSONDecodeError"
  shows "attempt_loop loads env max_retries m attempt st = (Return None, log_call m attempt st)"
  using assms by (simp add: attempt_loop.simps)

lemma attempt_loop_success:
  assumes "attempt < max_retries"
    and "try_body loads (env (length (calls st))) = Inr data"
  shows "attempt_loop loads env max_retries m attempt st = (Return (Some data), log_call m attempt st)"
  using assms by (simp add: attempt_loop.simps)

lemma attempt_loop_rate_limited:
  assumes "attempt < max_retries"
    and "try_body loads (env (length (calls st))) = Inl (OtherError msg)"
    and "rate_limited msg"
  shows "attempt_loop loads env max_retries m attempt st =
         attempt_loop loads env max_retries m (Suc attempt)
           (log_sleep (15 * (attempt + 1)) (log_call m attempt st))"
  using assms by (simp add: attempt_loop.simps)

lemma attempt_loop_other_error:
  assumes "attempt < max_retries"
    and "try_body loads (env (length (calls st))) = Inl (OtherError msg)"
    and "\<not> rate_limited msg"
  shows "attempt_loop loads env max_retries m attempt st = (NextModel, log_call m attempt st)"
  using assms by (simp add: attempt_loop.simps)

lemma attempt_loop_exhausted:
  "\<not> attempt < max_retries \<Longrightarrow> attempt_loop loads env max_retries m attempt st = (NextModel, st)"
  by (simp add: attempt_loop.simps)

text \<open>
  A call whose response text fails to parse is the last call of the inner loop, which
  then returns the failure signal.
\<close>

lemma attempt_loop_terminal:
  "attempt_loop loads env mr m a st = (ex, st') \<Longrightarrow>
   length (calls st) \<le> k \<Longrightarrow> k < length (calls st') \<Longrightarrow> json_parse_fails loads (env k) \<Longrightarrow>
   ex = Return None \<and> length (calls st') = Suc k"
proof (induction loads env mr m a st arbitrary: ex st' rule: attempt_loop.induct)
  case (1 loads env mr m a st)
  show ?case
  proof (cases "a < mr")
    case False
    with "1.prems" show ?thesis by (simp add: attempt_loop_exhausted)
  next
    case True
    show ?thesis
    proof (cases "k = length (calls st)")
      case here: True
      with "1.prems"(4) have "try_body loads (env (length (calls st))) = Inl JSONDecodeError"
        by (simp add: try_body_parse_fails)
      from attempt_loop_json_error[where env=env and st=st, OF True this] "1.prems"(1) here show ?thesis
        by (auto simp: calls_log_call)
    next
      case later: False
      with "1.prems"(2) have k: "Suc (length (calls st)) \<le> k" by simp
      show ?thesis
      proof (cases "try_body loads (env (length (calls st)))")
        case (Inr d)
        from attempt_loop_success[where env=env and st=st, OF True Inr] "1.prems" k show ?thesis
          by (auto simp: calls_log_call)
      next
        case (Inl e)
        show ?thesis
        proof (cases e)
          case JSONDecodeError
          with Inl have "try_body loads (env (length (calls st))) = Inl JSONDecodeError" by simp
          from attempt_loop_json_error[where env=env and st=st, OF True this] "1.prems" k show ?thesis
            by (auto simp: calls_log_call)
        next
          case (OtherError msg)
          with Inl have tb: "try_body loads (env (length (calls st))) = Inl (OtherError msg)" by simp
          show ?thesis
          proof (cases "rate_limited msg")
            case False
            from attempt_loop_other_error[where env=env and st=st, OF True tb False] "1.prems" k show ?thesis
              by (auto simp: calls_log_call)
          next
            case rl: True
            from attempt_loop_rate_limited[where env=env and st=st, OF True tb rl] "1.prems"(1)
            have run: "attempt_loop loads env mr m (Suc a) (log_sleep (15 * (a + 1)) (log_call m a st)) = (ex, st')"
              by simp
            have "length (calls (log_sleep (15 * (a + 1)) (log_call m a st))) \<le> k"
              using k by (simp add: calls_log_call calls_log_sleep)
            from "1.IH"[OF True Inl OtherError rl run this "1.prems"(3,4)]
            show ?thesis .
          qed
        qed
      qed
    qed
  qed
qed

lemma model_loop_terminal:
  "model_loop loads env mr ms st = (r, st') \<Longrightarrow>
   length (calls st) \<le> k \<Longrightarrow> k < length (calls st') \<Longrightarrow> json_parse_fails loads (env k) \<Longrightarrow>
   r = None \<and> length (calls st') = Suc k"
proof (induction ms arbitrary: st)
  case Nil
  then show ?case by simp
next
  case (Cons m ms)
  obtain ex st1 where a: "attempt_loop loads env mr m 0 st = (ex, st1)"
    by (cases "attempt_loop loads env mr m 0 st")
  show ?case
  proof (cases ex)
    case (Return r')
    with a Cons.prems(1) have "r' = r" "st1 = st'" by simp_all
    with attempt_loop_terminal[OF a Cons.prems(2) _ Cons.prems(4)] Cons.prems(3) Return
    show ?thesis by simp
  next
    case NextModel
    with a Cons.prems(1) have rest: "model_loop loads env mr ms st1 = (r, st')" by simp
    show ?thesis
    proof (cases "k < length (calls st1)")
      case True
      from attempt_loop_terminal[OF a Cons.prems(2) True Cons.prems(4)] NextModel
      show ?thesis by simp
    next
      case False
      then have "length (calls st1) \<le> k" by simp
      from Cons.IH[OF rest this Cons.prems(3,4)] show ?thesis .
    qed
  qed
qed


lemmas scenario_defs =
  loads_stub_def TEXT_EMPTY_OBJECT_def TEXT_NO_ELEMENTS_def TEXT_ONE_ELEMENT_def
  CONTENT_ONE_ELEMENT_def fresh_def no_udec_def

lemmas extractor_defs =
  analyze_slide_with_gemini_def models_def attempt_loop.simps try_body_def strip_fences_def
  FENCE_def rate_limited_def log_call_def log_sleep_def ustr_def
  py_strip_def py_lstrip_def py_rstrip_def py_isspace_def py_startswith_def py_endswith_def

text \<open>
  C1. Whenever a call made while a page is analysed returns a text that fails structural
  JSON parsing, the extractor returns the failure signal and that call is the last one
  it made: the same model is not retried and no later model is called.
\<close>

theorem malformed_response_is_terminal:
  assumes "analyze_slide_with_gemini loads env max_retries st = (result, st')"
    and "length (calls st) \<le> k" and "k < length (calls st')"
    and "json_parse_fails loads (env k)"
  shows "result = None \<and> length (calls st') = Suc k"
  using assms unfolding analyze_slide_with_gemini_def by (rule model_loop_terminal)

lemma run_prose_third:
  "analyze_slide_with_gemini loads_stub env_prose_third 3 fresh =
     (None, \<lparr>calls = [(ustr ''gemini-2.5-flash-lite'', 0), (ustr ''gemini-2.5-flash-lite'', 1),
                       (ustr ''gemini-2.5-flash'', 0)],
             sleeps = [15]\<rparr>)"
  by (simp add: extractor_defs scenario_defs env_prose_third_def)

lemma prose_fails: "json_parse_fails loads_stub (ApiResponse (Some (ustr ''Sorry, I cannot read this slide.'')))"
  by (simp add: extractor_defs scenario_defs)

theorem malformed_response_is_terminal_witness:
  "analyze_slide_with_gemini loads_stub env_prose_third 3 fresh =
     (None, \<lparr>calls = [(ustr ''gemini-2.5-flash-lite'', 0), (ustr ''gemini-2.5-flash-lite'', 1),
                       (ustr ''gemini-2.5-flash'', 0)],
             sleeps = [15]\<rparr>) \<and>
   json_parse_fails loads_stub (env_prose_third 2) \<and>
   (None :: json option) = None \<and>
   length [(ustr ''gemini-2.5-flash-lite'', 0::nat), (ustr ''gemini-2.5-flash-lite'', 1),
           (ustr ''gemini-2.5-flash'', 0)] = Suc 2"
proof -
  have f: "json_parse_fails loads_stub (env_prose_third 2)"
    using prose_fails by (simp add: env_prose_third_def)
  from malformed_response_is_terminal[OF run_prose_third _ _ f] run_prose_third f
  show ?thesis by (simp add: fresh_def)
qed

text \<open>
  C2, as the specification states it, fails: when the first model answers with a text
  that is not JSON, no call to the second model is made, although that call would have
  returned a valid object.
\<close>

theorem invalid_response_no_fallback_counterexample:
  "analyze_slide_with_gemini loads_stub env_prose_first 3 fresh =
     (None, \<lparr>calls = [(ustr ''gemini-2.5-flash-lite'', 0)], sleeps = []\<rparr>)"
  by (simp add: extractor_defs scenario_defs env_prose_first_def)

text \<open>
  C2, amended. If the first model returns a structurally invalid response, the extractor
  returns the failure signal after that single call: the remaining attempts of the first
  model are not used and no other model is called.
\<close>

theorem invalid_first_response_ends_extraction:
  assumes "0 < max_retries"
    and "json_parse_fails loads (env (length (calls st)))"
  shows "analyze_slide_with_gemini loads env max_retries st =
           (None, log_call (ustr ''gemini-2.5-flash-lite'') 0 st)"
proof -
  from assms(2) have "try_body loads (env (length (calls st))) = Inl JSONDecodeError"
    by (rule try_body_parse_fails)
  from attempt_loop_json_error[where env=env and st=st, OF assms(1) this]
  show ?thesis by (simp add: analyze_slide_with_gemini_def models_def)
qed

theorem invalid_first_response_ends_extraction_witness:
  "(0::nat) < 3 \<and> json_parse_fails loads_stub (env_prose_first (length (calls fresh))) \<and>
   analyze_slide_with_gemini loads_stub env_prose_first 3 fresh =
     (None, \<lparr>calls = [(ustr ''gemini-2.5-flash-lite'', 0)], sleeps = []\<rparr>)"
proof -
  have f: "json_parse_fails loads_stub (env_prose_first (length (calls fresh)))"
    using prose_fails by (simp add: env_prose_first_def fresh_def)
  from invalid_first_response_ends_extraction[where env=env_prose_first and st=fresh and loads=loads_stub and max_retries=3] f
  show ?thesis by (simp add: log_call_def fresh_def)
qed



section \<open>Facts about colour resolution\<close>

lemmas int_defs =
  py_int_def to_ascii_def ascii_space_def strip_sign_def strip_0x_def digit_value_def

text \<open>What holds of the claim: a false value and a wrong length give black.\<close>

lemma hex_to_rgb_falsy: "\<not> truthy v \<Longrightarrow> hex_to_rgb udec v = Inr (0, 0, 0)"
  by (simp add: hex_to_rgb_def)

lemma hex_to_rgb_wrong_length:
  "length (py_lstrip_chars (ustr ''#'') s) \<noteq> 6 \<Longrightarrow> hex_to_rgb udec (JStr s) = Inr (0, 0, 0)"
  by (simp add: hex_to_rgb_def Let_def)

text \<open>Two hexadecimal digits are read as their value.\<close>

lemma py_int_hex_pair:
  assumes "digit_value a = Some x" "x < 16" "digit_value b = Some y" "y < 16"
  shows "py_int udec 16 [a, b] = Some (int x * 16 + int y)"
proof -
  from assms(1) have a: "a < 127" "a \<noteq> 95" "a \<noteq> 43" "a \<noteq> 45" "\<not> ascii_space a"
    by (auto simp: digit_value_def ascii_space_def split: if_splits)
  from assms(3) have b: "b < 127" "b \<noteq> 95"
    by (auto simp: digit_value_def split: if_splits)
  from assms(3,4) have nox: "\<not> (a = 48 \<and> (b = 120 \<or> b = 88))"
    by (auto simp: digit_value_def split: if_splits)
  from a b nox assms show ?thesis
    by (simp add: py_int_def to_ascii_def strip_sign_def strip_0x_def)
qed

lemma hex_to_rgb_six_digits:
  assumes "digit_value a = Some x1" "x1 < 16" "digit_value b = Some x2" "x2 < 16"
    and "digit_value c = Some x3" "x3 < 16" "digit_value d = Some x4" "x4 < 16"
    and "digit_value e = Some x5" "x5 < 16" "digit_value f = Some x6" "x6 < 16"
  shows "hex_to_rgb udec (JStr (replicate n 35 @ [a, b, c, d, e, f])) =
         Inr (int x1 * 16 + int x2, int x3 * 16 + int x4, int x5 * 16 + int x6)"
proof -
  from assms(1) have "a \<noteq> 35" by (auto simp: digit_value_def split: if_splits)
  then have "py_lstrip_chars (ustr ''#'') (replicate n 35 @ [a, b, c, d, e, f]) = [a, b, c, d, e, f]"
    by (induction n) (simp_all add: py_lstrip_chars_def ustr_def)
  with py_int_hex_pair[OF assms(1-4), of udec] py_int_hex_pair[OF assms(5-8), of udec]
    py_int_hex_pair[OF assms(9-12), of udec]
  show ?thesis by (simp add: hex_to_rgb_def)
qed

text \<open>
  C7. The claim is what a colour parser should do, and the code misses it: a pair made of
  a sign and one digit is accepted by \<open>int(pair, 16)\<close>, so the string \<open>-1-2-3\<close>, which is
  not six hexadecimal digits, does not give black but the triple \<open>(-1, -2, -3)\<close>, which
  is no colour at all.
\<close>

theorem hex_to_rgb_accepts_signed_pairs:
  "hex_to_rgb udec (JStr (ustr ''-1-2-3'')) = Inr (- 1, - 2, - 3)"
  by (simp add: hex_to_rgb_def ustr_def py_lstrip_chars_def int_defs)

lemma hex_to_rgb_accepts_padded_pairs:
  "hex_to_rgb udec (JStr (ustr ''+1 2 3'')) = Inr (1, 2, 3)"
  by (simp add: hex_to_rgb_def ustr_def py_lstrip_chars_def int_defs)

section \<open>Facts about the bounding box\<close>

lemma ebind_Inr: "ebind m f = Inr r \<longleftrightarrow> (\<exists>v. m = Inr v \<and> f v = Inr r)"
  by (cases m) (simp_all add: ebind_def)

lemma ebind_Inr_eq: "m = Inr v \<Longrightarrow> ebind m f = f v"
  by (simp add: ebind_def)

lemma Inches_values:
  "Inches 0 = 0" "Inches 1 = 914400" "Inches 2 = 1828800" "Inches 0.2 = 182880"
  "Inches 0.4 = 365760" "Inches 0.6 = 548640" "Inches 7.5 = 6858000" "Inches 10 = 9144000"
  "Inches 13.333 = 12191695"
  by (simp_all add: Inches_def py_trunc_def)

lemmas float_eval =
  round64_def round_even_def float_exponent_def pow2_def Let_def compute_bitlen

text \<open>
  On the literals that are not integers, \<open>Inches\<close> is what the float arithmetic gives: the
  literal rounded to a float, times 914400, rounded and truncated.
\<close>

lemma Inches_literals:
  "py_int_of_float (fmul (round64 0.2) (Fin 914400)) = Inr (Inches 0.2)"
  "py_int_of_float (fmul (round64 0.4) (Fin 914400)) = Inr (Inches 0.4)"
  "py_int_of_float (fmul (round64 0.6) (Fin 914400)) = Inr (Inches 0.6)"
  "py_int_of_float (fmul (round64 7.5) (Fin 914400)) = Inr (Inches 7.5)"
  "py_int_of_float (fmul (round64 13.333) (Fin 914400)) = Inr (Inches 13.333)"
  by (simp_all add: float_eval Inches_def py_trunc_def)

text \<open>
  Rounding matters: 69 percent of a slide 9144000 EMU wide is 6309360 EMU, but the float
  product lies just below it and truncates to 6309359; 18.4 points are 233680 EMU, and
  \<open>Pt\<close> gives 233679.
\<close>

lemma scale_69_percent:
  "ebind (div100 (JInt 69)) (\<lambda>p. scale_to_slide p 9144000) = Inr 6309359"
  by (simp add: ebind_def div100_def scale_to_slide_def int_to_float_def py_trunc_def float_eval)

lemma Pt_18_4: "Pt (PFloat (round64 18.4)) = Inr 233679"
  by (simp add: py_trunc_def float_eval)

text \<open>
  A box that is returned is \<open>clamp_box\<close> of the four percentages as they are: divided by
  100, scaled and truncated.
\<close>

lemma element_box_Inr:
  assumes "element_box slide_width slide_height pos = Inr b"
  shows "\<exists>vx vy vw vh px py' pw ph l t w h.
     py_get pos (ustr ''x_percent'') (JInt 5) = Inr vx \<and> div100 vx = Inr px \<and>
     py_get pos (ustr ''y_percent'') (JInt 5) = Inr vy \<and> div100 vy = Inr py' \<and>
     py_get pos (ustr ''width_percent'') (JInt 90) = Inr vw \<and> div100 vw = Inr pw \<and>
     py_get pos (ustr ''height_percent'') (JInt 15) = Inr vh \<and> div100 vh = Inr ph \<and>
     scale_to_slide px slide_width = Inr l \<and> scale_to_slide py' slide_height = Inr t \<and>
     scale_to_slide pw slide_width = Inr w \<and> scale_to_slide ph slide_height = Inr h \<and>
     b = clamp_box slide_width slide_height l t w h"
  using assms unfolding element_box_def ebind_Inr by blast

lemmas box_eval_defs =
  element_box_def ebind_def ustr_def div100_def scale_to_slide_def int_to_float_def py_trunc_def
  Inches_def clamp_box_def float_eval

text \<open>
  C3, as the specification states it, fails: on a slide 9144000 EMU wide an \<open>x_percent\<close>
  of -10 is not brought up to 0, which would put the box at the left edge; the negative
  coordinate it scales to is replaced by 0.2 inch (182880 EMU).
\<close>

theorem percent_not_clamped_counterexample:
  "element_box 9144000 6858000 (JDict [(ustr ''x_percent'', JInt (- 10))]) =
     Inr \<lparr>b_left = 182880, b_top = 342900, b_width = 8229600, b_height = 1028700\<rparr>"
  by (simp add: box_eval_defs)

text \<open>
  Percentages above 100 are not clamped either: an \<open>x_percent\<close> of 200 puts the left
  edge at twice the slide width, and the cut at the far edge then makes the width negative.
  The step that clamps the box to the slide misses this case.
\<close>

lemma percent_above_100_leaves_slide:
  "element_box 9144000 6858000 (JDict [(ustr ''x_percent'', JInt 200)]) =
     Inr \<lparr>b_left = 18288000, b_top = 342900, b_width = - 9326880, b_height = 1028700\<rparr>"
  by (simp add: box_eval_defs)

text \<open>
  C3, amended. The position percentages are not clamped into [0, 100] before the
  conversion: each is divided by 100, multiplied by the slide width or height and
  truncated as it is (\<open>left0\<close> and \<open>top0\<close> below are the results for \<open>x_percent\<close> and
  \<open>y_percent\<close>). Values out of range are met on the coordinates instead: a left or top
  coordinate that comes out negative is replaced by 0.2 inch, not by 0, and one that lies
  between 0 and the slide extent is used unchanged.
\<close>

theorem percentages_scaled_unclamped:
  assumes "element_box slide_width slide_height pos = Inr b"
    and "py_get pos (ustr ''x_percent'') (JInt 5) = Inr vx"
    and "div100 vx = Inr x_pct" and "scale_to_slide x_pct slide_width = Inr left0"
    and "py_get pos (ustr ''y_percent'') (JInt 5) = Inr vy"
    and "div100 vy = Inr y_pct" and "scale_to_slide y_pct slide_height = Inr top0"
  shows "(left0 < 0 \<longrightarrow> b_left b = Inches 0.2) \<and>
         (0 \<le> left0 \<and> left0 \<le> slide_width \<longrightarrow> b_left b = left0) \<and>
         (top0 < 0 \<longrightarrow> b_top b = Inches 0.2) \<and>
         (0 \<le> top0 \<and> top0 \<le> slide_height \<longrightarrow> b_top b = top0)"
proof -
  from element_box_Inr[OF assms(1)] assms(2-7) obtain w h where
    b: "b = clamp_box slide_width slide_height left0 top0 w h"
    by auto
  have l: "b_left b = (if left0 < 0 then Inches 0.2 else left0)"
    by (subst b) (simp add: clamp_box_def Let_def)
  have t: "b_top b = (if top0 < 0 then Inches 0.2 else top0)"
    by (subst b) (simp add: clamp_box_def Let_def)
  from l t show ?thesis by simp
qed

theorem percentages_scaled_unclamped_witness:
  "element_box 9144000 6858000 (JDict [(ustr ''x_percent'', JInt (- 10))]) =
     Inr \<lparr>b_left = 182880, b_top = 342900, b_width = 8229600, b_height = 1028700\<rparr> \<and>
   py_get (JDict [(ustr ''x_percent'', JInt (- 10))]) (ustr ''x_percent'') (JInt 5) = Inr (JInt (- 10)) \<and>
   ebind (div100 (JInt (- 10))) (\<lambda>p. scale_to_slide p 9144000) = Inr (- 914400) \<and>
   py_get (JDict [(ustr ''x_percent'', JInt (- 10))]) (ustr ''y_percent'') (JInt 5) = Inr (JInt 5) \<and>
   ebind (div100 (JInt 5)) (\<lambda>p. scale_to_slide p 6858000) = Inr 342900 \<and>
   b_left \<lparr>b_left = 182880, b_top = 342900, b_width = 8229600, b_height = 1028700\<rparr> = Inches 0.2 \<and>
   b_top \<lparr>b_left = 182880, b_top = 342900, b_width = 8229600, b_height = 1028700\<rparr> = 342900"
proof -
  let ?b = "\<lparr>b_left = 182880, b_top = 342900, b_width = 8229600, b_height = 1028700\<rparr>"
  have e: "element_box 9144000 6858000 (JDict [(ustr ''x_percent'', JInt (- 10))]) = Inr ?b"
    by (simp add: box_eval_defs)
  have gx: "py_get (JDict [(ustr ''x_percent'', JInt (- 10))]) (ustr ''x_percent'') (JInt 5) = Inr (JInt (- 10))"
    and gy: "py_get (JDict [(ustr ''x_percent'', JInt (- 10))]) (ustr ''y_percent'') (JInt 5) = Inr (JInt 5)"
    by (simp_all add: ustr_def)
  have sx: "ebind (div100 (JInt (- 10))) (\<lambda>p. scale_to_slide p 9144000) = Inr (- 914400)"
    and sy: "ebind (div100 (JInt 5)) (\<lambda>p. scale_to_slide p 6858000) = Inr 342900"
    by (simp_all add: ebind_def div100_def scale_to_slide_def int_to_float_def py_trunc_def float_eval)
  from sx obtain px where px: "div100 (JInt (- 10)) = Inr px" "scale_to_slide px 9144000 = Inr (- 914400)"
    unfolding ebind_Inr by blast
  from sy obtain py' where py': "div100 (JInt 5) = Inr py'" "scale_to_slide py' 6858000 = Inr 342900"
    unfolding ebind_Inr by blast
  have neg: "(- 914400 :: int) < 0" and mid: "(0::int) \<le> 342900 \<and> (342900::int) \<le> 6858000"
    by simp_all
  from percentages_scaled_unclamped[OF e gx px gy py'] neg mid
  have "b_left ?b = Inches 0.2 \<and> b_top ?b = 342900"
    by blast
  with e gx gy sx sy show ?thesis by blast
qed

text \<open>
  C4, as the specification states it, fails: a width of 12.5 percent of a 10 inch slide
  is 1.25 inch, above the threshold of one inch below which the width is replaced, so the
  box keeps a width under 2 inches (1828800 EMU).
\<close>

theorem box_narrower_than_two_inches_counterexample:
  "element_box 9144000 6858000 (JDict [(ustr ''width_percent'', JFloat (Fin 12.5))]) =
     Inr \<lparr>b_left = 457200, b_top = 342900, b_width = 1143000, b_height = 1028700\<rparr>"
  by (simp add: box_eval_defs)

text \<open>
  C4, amended. \<open>left0\<close>, \<open>top0\<close>, \<open>width0\<close> and \<open>height0\<close> are the four percentages
  scaled to the slide. The left and top coordinates of the box are never negative: a
  negative one is replaced by 0.2 inch. A scaled width under 1 inch is replaced by 2
  inches, a scaled height under 0.4 inch by 0.6 inch, and a width of 1 inch or a height of
  0.4 inch or more is kept, as long as the box so sized ends within the slide; a box that
  would end past the right or bottom edge is cut to end 0.2 inch before that edge. So a
  box that starts at least 0.2 inch before the far edge has a width and height that are
  not negative and lies within the slide. A box that starts later than that is not
  brought back: its width or height comes out negative.
\<close>

theorem box_within_slide:
  assumes "element_box slide_width slide_height pos = Inr b"
    and "py_get pos (ustr ''x_percent'') (JInt 5) = Inr vx"
    and "div100 vx = Inr x_pct" and "scale_to_slide x_pct slide_width = Inr left0"
    and "py_get pos (ustr ''y_percent'') (JInt 5) = Inr vy"
    and "div100 vy = Inr y_pct" and "scale_to_slide y_pct slide_height = Inr top0"
    and "py_get pos (ustr ''width_percent'') (JInt 90) = Inr vw"
    and "div100 vw = Inr w_pct" and "scale_to_slide w_pct slide_width = Inr width0"
    and "py_get pos (ustr ''height_percent'') (JInt 15) = Inr vh"
    and "div100 vh = Inr h_pct" and "scale_to_slide h_pct slide_height = Inr height0"
  shows "0 \<le> b_left b \<and> 0 \<le> b_top b \<and>
         (left0 < 0 \<longrightarrow> b_left b = Inches 0.2) \<and>
         (top0 < 0 \<longrightarrow> b_top b = Inches 0.2) \<and>
         (width0 < Inches 1 \<and> b_left b + Inches 2 \<le> slide_width \<longrightarrow> b_width b = Inches 2) \<and>
         (Inches 1 \<le> width0 \<and> b_left b + width0 \<le> slide_width \<longrightarrow> b_width b = width0) \<and>
         (width0 < Inches 1 \<and> slide_width < b_left b + Inches 2 \<longrightarrow>
            b_left b + b_width b = slide_width - Inches 0.2) \<and>
         (Inches 1 \<le> width0 \<and> slide_width < b_left b + width0 \<longrightarrow>
            b_left b + b_width b = slide_width - Inches 0.2) \<and>
         (b_left b + Inches 0.2 \<le> slide_width \<longrightarrow>
            0 \<le> b_width b \<and> b_left b + b_width b \<le> slide_width) \<and>
         (slide_width < b_left b + Inches 0.2 \<longrightarrow> b_width b < 0) \<and>
         (height0 < Inches 0.4 \<and> b_top b + Inches 0.6 \<le> slide_height \<longrightarrow>
            b_height b = Inches 0.6) \<and>
         (Inches 0.4 \<le> height0 \<and> b_top b + height0 \<le> slide_height \<longrightarrow> b_height b = height0) \<and>
         (height0 < Inches 0.4 \<and> slide_height < b_top b + Inches 0.6 \<longrightarrow>
            b_top b + b_height b = slide_height - Inches 0.2) \<and>
         (Inches 0.4 \<le> height0 \<and> slide_height < b_top b + height0 \<longrightarrow>
            b_top b + b_height b = slide_height - Inches 0.2) \<and>
         (b_top b + Inches 0.2 \<le> slide_height \<longrightarrow>
            0 \<le> b_height b \<and> b_top b + b_height b \<le> slide_height) \<and>
         (slide_height < b_top b + Inches 0.2 \<longrightarrow> b_height b < 0)"
proof -
  from element_box_Inr[OF assms(1)] assms(2-13) have
    b: "b = clamp_box slide_width slide_height left0 top0 width0 height0"
    by auto
  define width1 where "width1 = (if width0 < 914400 then 1828800 else width0)"
  define height1 where "height1 = (if height0 < 365760 then 548640 else height0)"
  have l: "b_left b = (if left0 < 0 then 182880 else left0)"
    and t: "b_top b = (if top0 < 0 then 182880 else top0)"
    unfolding b clamp_box_def Inches_values Let_def by simp_all
  have w: "b_width b =
      (if b_left b + width1 > slide_width then slide_width - b_left b - 182880 else width1)"
    unfolding b clamp_box_def Inches_values Let_def width1_def by simp
  have h: "b_height b =
      (if b_top b + height1 > slide_height then slide_height - b_top b - 182880 else height1)"
    unfolding b clamp_box_def Inches_values Let_def height1_def by simp
  have l0: "0 \<le> b_left b" and l1: "left0 < 0 \<longrightarrow> b_left b = 182880"
    using l by simp_all
  have t0: "0 \<le> b_top b" and t1: "top0 < 0 \<longrightarrow> b_top b = 182880"
    using t by simp_all
  have w1: "914400 \<le> width1" "width0 < 914400 \<longrightarrow> width1 = 1828800"
    "914400 \<le> width0 \<longrightarrow> width1 = width0"
    by (simp_all add: width1_def)
  have h1: "365760 \<le> height1" "height0 < 365760 \<longrightarrow> height1 = 548640"
    "365760 \<le> height0 \<longrightarrow> height1 = height0"
    by (simp_all add: height1_def)
  have wide: "(width0 < 914400 \<and> b_left b + 1828800 \<le> slide_width \<longrightarrow> b_width b = 1828800) \<and>
         (914400 \<le> width0 \<and> b_left b + width0 \<le> slide_width \<longrightarrow> b_width b = width0) \<and>
         (width0 < 914400 \<and> slide_width < b_left b + 1828800 \<longrightarrow>
            b_left b + b_width b = slide_width - 182880) \<and>
         (914400 \<le> width0 \<and> slide_width < b_left b + width0 \<longrightarrow>
            b_left b + b_width b = slide_width - 182880) \<and>
         (b_left b + 182880 \<le> slide_width \<longrightarrow>
            0 \<le> b_width b \<and> b_left b + b_width b \<le> slide_width) \<and>
         (slide_width < b_left b + 182880 \<longrightarrow> b_width b < 0)"
  proof (cases "b_left b + width1 > slide_width")
    case True
    with w have "b_width b = slide_width - b_left b - 182880" by simp
    with True w1 show ?thesis by auto
  next
    case False
    with w have "b_width b = width1" by simp
    with False w1 show ?thesis by auto
  qed
  have high: "(height0 < 365760 \<and> b_top b + 548640 \<le> slide_height \<longrightarrow> b_height b = 548640) \<and>
         (365760 \<le> height0 \<and> b_top b + height0 \<le> slide_height \<longrightarrow> b_height b = height0) \<and>
         (height0 < 365760 \<and> slide_height < b_top b + 548640 \<longrightarrow>
            b_top b + b_height b = slide_height - 182880) \<and>
         (365760 \<le> height0 \<and> slide_height < b_top b + height0 \<longrightarrow>
            b_top b + b_height b = slide_height - 182880) \<and>
         (b_top b + 182880 \<le> slide_height \<longrightarrow>
            0 \<le> b_height b \<and> b_top b + b_height b \<le> slide_height) \<and>
         (slide_height < b_top b + 182880 \<longrightarrow> b_height b < 0)"
  proof (cases "b_top b + height1 > slide_height")
    case True
    with h have "b_height b = slide_height - b_top b - 182880" by simp
    with True h1 show ?thesis by auto
  next
    case False
    with h have "b_height b = height1" by simp
    with False h1 show ?thesis by auto
  qed
  from l0 l1 t0 t1 wide high show ?thesis
    unfolding Inches_values by blast
qed

theorem box_within_slide_witness:
  "element_box 9144000 6858000
     (JDict [(ustr ''x_percent'', JInt (- 10)), (ustr ''y_percent'', JInt 95),
             (ustr ''width_percent'', JInt 5), (ustr ''height_percent'', JInt 3)]) =
     Inr \<lparr>b_left = 182880, b_top = 6515100, b_width = 1828800, b_height = 160020\<rparr> \<and>
   ebind (div100 (JInt (- 10))) (\<lambda>p. scale_to_slide p 9144000) = Inr (- 914400) \<and>
   ebind (div100 (JInt 95)) (\<lambda>p. scale_to_slide p 6858000) = Inr 6515100 \<and>
   ebind (div100 (JInt 5)) (\<lambda>p. scale_to_slide p 9144000) = Inr 457200 \<and>
   ebind (div100 (JInt 3)) (\<lambda>p. scale_to_slide p 6858000) = Inr 205740 \<and>
   (- 914400 :: int) < 0 \<and> (457200 :: int) < Inches 1 \<and> (205740 :: int) < Inches 0.4 \<and>
   (182880 :: int) = Inches 0.2 \<and> (1828800 :: int) = Inches 2 \<and>
   (182880 :: int) + Inches 2 \<le> 9144000 \<and> (6858000 :: int) < 6515100 + Inches 0.6 \<and>
   (6515100 :: int) + 160020 = 6858000 - Inches 0.2 \<and> (6515100 :: int) + Inches 0.2 \<le> 6858000 \<and>
   (0 :: int) \<le> 160020 \<and> (6515100 :: int) + 160020 \<le> 6858000"
proof -
  let ?pos = "JDict [(ustr ''x_percent'', JInt (- 10)), (ustr ''y_percent'', JInt 95),
             (ustr ''width_percent'', JInt 5), (ustr ''height_percent'', JInt 3)]"
  let ?b = "\<lparr>b_left = 182880, b_top = 6515100, b_width = 1828800, b_height = 160020\<rparr>"
  have e: "element_box 9144000 6858000 ?pos = Inr ?b"
    by (simp add: box_eval_defs)
  have g: "py_get ?pos (ustr ''x_percent'') (JInt 5) = Inr (JInt (- 10))"
    "py_get ?pos (ustr ''y_percent'') (JInt 5) = Inr (JInt 95)"
    "py_get ?pos (ustr ''width_percent'') (JInt 90) = Inr (JInt 5)"
    "py_get ?pos (ustr ''height_percent'') (JInt 15) = Inr (JInt 3)"
    by (simp_all add: ustr_def)
  have sx: "ebind (div100 (JInt (- 10))) (\<lambda>p. scale_to_slide p 9144000) = Inr (- 914400)"
    and sy: "ebind (div100 (JInt 95)) (\<lambda>p. scale_to_slide p 6858000) = Inr 6515100"
    and sw: "ebind (div100 (JInt 5)) (\<lambda>p. scale_to_slide p 9144000) = Inr 457200"
    and sh: "ebind (div100 (JInt 3)) (\<lambda>p. scale_to_slide p 6858000) = Inr 205740"
    by (simp_all add: ebind_def div100_def scale_to_slide_def int_to_float_def py_trunc_def float_eval)
  from sx obtain px where px: "div100 (JInt (- 10)) = Inr px" "scale_to_slide px 9144000 = Inr (- 914400)"
    unfolding ebind_Inr by blast
  from sy obtain py' where py': "div100 (JInt 95) = Inr py'" "scale_to_slide py' 6858000 = Inr 6515100"
    unfolding ebind_Inr by blast
  from sw obtain pw where pw: "div100 (JInt 5) = Inr pw" "scale_to_slide pw 9144000 = Inr 457200"
    unfolding ebind_Inr by blast
  from sh obtain ph where ph: "div100 (JInt 3) = Inr ph" "scale_to_slide ph 6858000 = Inr 205740"
    unfolding ebind_Inr by blast
  note r = box_within_slide[OF e g(1) px g(2) py' g(3) pw g(4) ph]
  have c1: "(- 914400 :: int) < 0"
    by simp
  have c5: "(457200 :: int) < Inches 1 \<and> b_left ?b + Inches 2 \<le> 9144000"
    unfolding Inches_values by simp
  have c13: "(205740 :: int) < Inches 0.4 \<and> 6858000 < b_top ?b + Inches 0.6"
    unfolding Inches_values by simp
  have c15: "b_top ?b + Inches 0.2 \<le> 6858000"
    unfolding Inches_values by simp
  have r3: "b_left ?b = Inches 0.2"
    using r[THEN conjunct2, THEN conjunct2, THEN conjunct1] c1 by (rule mp)
  have r5: "b_width ?b = Inches 2"
    using r[THEN conjunct2, THEN conjunct2, THEN conjunct2, THEN conjunct2, THEN conjunct1] c5
    by (rule mp)
  have r13: "b_top ?b + b_height ?b = 6858000 - Inches 0.2"
    using r[THEN conjunct2, THEN conjunct2, THEN conjunct2, THEN conjunct2, THEN conjunct2,
        THEN conjunct2, THEN conjunct2, THEN conjunct2, THEN conjunct2, THEN conjunct2,
        THEN conjunct2, THEN conjunct2, THEN conjunct1] c13
    by (rule mp)
  have r15: "0 \<le> b_height ?b \<and> b_top ?b + b_height ?b \<le> 6858000"
    using r[THEN conjunct2, THEN conjunct2, THEN conjunct2, THEN conjunct2, THEN conjunct2,
        THEN conjunct2, THEN conjunct2, THEN conjunct2, THEN conjunct2, THEN conjunct2,
        THEN conjunct2, THEN conjunct2, THEN conjunct2, THEN conjunct2, THEN conjunct1] c15
    by (rule mp)
  have d: "(457200 :: int) < Inches 1" "(205740 :: int) < Inches 0.4"
    "(182880 :: int) + Inches 2 \<le> 9144000" "(6858000 :: int) < 6515100 + Inches 0.6"
    "(6515100 :: int) + Inches 0.2 \<le> 6858000"
    unfolding Inches_values by simp_all
  have f3: "(182880 :: int) = Inches 0.2"
    using r3 by (simp only: box.select_convs)
  have f5: "(1828800 :: int) = Inches 2"
    using r5 by (simp only: box.select_convs)
  have f13: "(6515100 :: int) + 160020 = 6858000 - Inches 0.2"
    using r13 by (simp only: box.select_convs)
  have f15: "(0 :: int) \<le> 160020 \<and> (6515100 :: int) + 160020 \<le> 6858000"
    using r15 by (simp only: box.select_convs)
  show ?thesis
    using e sx sy sw sh c1 d f3 f5 f13 f15 by (intro conjI) (assumption | erule conjunct1 | erule conjunct2)+
qed

section \<open>Facts about the lines of an element\<close>

lemmas str_defs =
  py_strip_def py_lstrip_def py_rstrip_def py_isspace_def py_lstrip_chars_def py_startswith_def

lemmas para_defs =
  fill_paragraph_def resolve_alignment_def level_value_def resolve_font_size_def RGBColor_def
  hex_to_rgb_def is_bullet_line_def line_text_def BULLET_CHARS_def BULLET_def blank_paragraph_def
  py_trunc_def plain_run_def num_max_def num_min_def num_less_def set_size_def set_flag_def
  set_text_def xml_char_def

lemma fill_paragraph_runs:
  assumes "fill_paragraph udec style bullet_level elem_type line p = Inr p'"
  shows "\<exists>r. p_runs p' = p_runs p @ [r] \<and> r_text r = line_text line"
  using assms unfolding fill_paragraph_def ebind_Inr by (auto simp: set_text_def split: if_splits)

text \<open>A line that is blank before the bullet test adds nothing to the text frame.\<close>

lemma blank_line_skipped:
  "py_strip raw = [] \<Longrightarrow>
   lines_loop udec style bullet_level elem_type i (raw # rest) ps =
   lines_loop udec style bullet_level elem_type (Suc i) rest ps"
  by (simp add: Let_def)

text \<open>
  C6. The claim is what the blank test of the loop aims at, and the code misses it: the
  test comes before the bullet glyph is removed and is not repeated after. In the text
  \<open>Agenda\<close>, a line holding a bullet glyph and two blanks, \<open>Item\<close>, the middle line
  is not dropped: the text frame gets a second paragraph whose run has the empty text.
\<close>

theorem bullet_only_line_kept:
  "element_shape udec 9144000 6858000
     (JDict [(ustr ''text'', JStr (ustr ''Agenda'' @ [10, BULLET, 32, 32, 10] @ ustr ''Item''))]) =
   Inr (Some (TextBox default_box
     [\<lparr>p_alignment = Some LEFT, p_level = None, p_runs = [plain_run (ustr ''Agenda'')]\<rparr>,
      \<lparr>p_alignment = Some LEFT, p_level = Some (JInt 0), p_runs = [plain_run []]\<rparr>,
      \<lparr>p_alignment = Some LEFT, p_level = None, p_runs = [plain_run (ustr ''Item'')]\<rparr>]))"
  by (simp add: element_shape_def strip_method_def box_eval_defs str_defs int_defs para_defs
      default_box_def)

text \<open>
  C10. For a line that begins with one of the glyphs, the text of the run is what is left
  after the longest leading run of bullets, hyphens, asterisks and blanks, stripped of
  surrounding white space: the line splits into such a run, not empty, and a rest that
  does not start with one of the four characters.
\<close>

theorem bullet_run_stripped:
  assumes "is_bullet_line line"
    and "fill_paragraph udec style bullet_level elem_type line p = Inr p'"
  shows "\<exists>glyphs rest. line = glyphs @ rest \<and> glyphs \<noteq> [] \<and>
           set glyphs \<subseteq> {BULLET, 45, 42, 32} \<and>
           (rest = [] \<or> hd rest \<notin> {BULLET, 45, 42, 32}) \<and>
           r_text (last (p_runs p')) = py_strip rest"
proof -
  let ?P = "\<lambda>c. c \<in> set BULLET_CHARS"
  have chars: "set BULLET_CHARS = {BULLET, 45, 42, 32}"
    by (simp add: BULLET_CHARS_def)
  from fill_paragraph_runs[OF assms(2)] assms(1)
  have rt: "r_text (last (p_runs p')) = py_strip (dropWhile ?P line)"
    by (auto simp: line_text_def py_lstrip_chars_def)
  from assms(1) obtain c cs where line: "line = c # cs" and c: "?P c"
    by (cases line) (auto simp: is_bullet_line_def py_startswith_def ustr_def BULLET_CHARS_def)
  then have ne: "takeWhile ?P line \<noteq> []" by simp
  have sub: "set (takeWhile ?P line) \<subseteq> {BULLET, 45, 42, 32}"
    using chars by (auto dest: set_takeWhileD)
  have rest: "dropWhile ?P line = [] \<or> hd (dropWhile ?P line) \<notin> {BULLET, 45, 42, 32}"
    using hd_dropWhile[of ?P line] chars by auto
  have "line = takeWhile ?P line @ dropWhile ?P line" by simp
  with ne sub rest rt show ?thesis by blast
qed

theorem bullet_run_stripped_witness:
  "is_bullet_line (ustr ''- -5 degrees'') \<and>
   fill_paragraph no_udec (JDict []) (JInt 0) (JStr (ustr ''body'')) (ustr ''- -5 degrees'') blank_paragraph =
     Inr \<lparr>p_alignment = Some LEFT, p_level = Some (JInt 0), p_runs = [plain_run (ustr ''5 degrees'')]\<rparr> \<and>
   (\<exists>glyphs rest. ustr ''- -5 degrees'' = glyphs @ rest \<and> glyphs \<noteq> [] \<and>
      set glyphs \<subseteq> {BULLET, 45, 42, 32} \<and>
      (rest = [] \<or> hd rest \<notin> {BULLET, 45, 42, 32}) \<and>
      ustr ''5 degrees'' = py_strip rest)"
proof -
  have b: "is_bullet_line (ustr ''- -5 degrees'')"
    by (simp add: is_bullet_line_def py_startswith_def ustr_def)
  have f: "fill_paragraph no_udec (JDict []) (JInt 0) (JStr (ustr ''body'')) (ustr ''- -5 degrees'') blank_paragraph =
     Inr \<lparr>p_alignment = Some LEFT, p_level = Some (JInt 0), p_runs = [plain_run (ustr ''5 degrees'')]\<rparr>"
    by (simp add: ebind_def ustr_def str_defs int_defs para_defs)
  have "r_text (last (p_runs \<lparr>p_alignment = Some LEFT, p_level = Some (JInt 0),
          p_runs = [plain_run (ustr ''5 degrees'')]\<rparr>)) = ustr ''5 degrees''"
    by (simp add: plain_run_def)
  with bullet_run_stripped[OF b f] b f show ?thesis by simp
qed

section \<open>Facts about the Pipeline Driver\<close>

lemma usable_failed:
  assumes "r = None \<or> (\<exists>kvs. r = Some (JDict kvs) \<and> map_of kvs (ustr ''elements'') = Some (JList []))"
  shows "usable r = Inr None"
  using assms by (auto simp: usable_def ebind_def)

lemma process_page_failed:
  assumes "analyze_slide_with_gemini loads env 3 (ext d) = (r, st)"
    and "usable r = Inr None"
  shows "process_page udec loads env slide_width slide_height total_pages page_num pg d =
           Inr (d\<lparr>failed_slides := failed_slides d @ [page_num + 1],
                  slides := slides d @ 
                 [\<lparr>shapes = [Picture (Render pg 200 False) 0 0 slide_width slide_height],
                   background = None\<rparr>],
                  ext := (if int page_num < int total_pages - 1 then log_sleep 10 st else st)\<rparr>)"
  using assms by (simp add: process_page_def Let_def ebind_def Inches_values(1))

text \<open>Every pass of the page loop adds one slide and keeps what was recorded before.\<close>

lemma process_page_grows:
  assumes "process_page udec loads env slide_width slide_height total_pages page_num pg d = Inr d1"
  shows "\<exists>s f. slides d1 = slides d @ [s] \<and> failed_slides d1 = failed_slides d @ f"
proof (cases "analyze_slide_with_gemini loads env 3 (ext d)")
  case (Pair r st)
  with assms obtain content d2 where u: "usable r = Inr content"
    and d2: "(case content of
                Some data \<Rightarrow>
                  ebind (create_slide_from_ai_data udec data slide_width slide_height
                           (Some (Render pg 200 False))) (\<lambda>s. Inr (d\<lparr>slides := slides d @ [s]\<rparr>))
              | None \<Rightarrow>
                  Inr (d\<lparr>failed_slides := failed_slides d @ [page_num + 1],
                         slides := slides d @ 
                 [\<lparr>shapes = [Picture (Render pg 200 False) (Inches 0) (Inches 0) slide_width slide_height],
                   background = None\<rparr>]\<rparr>))
             = Inr d2"
    and d1: "d1 = d2\<lparr>ext := (if int page_num < int total_pages - 1 then log_sleep 10 st else st)\<rparr>"
    by (auto simp: process_page_def Let_def ebind_Inr)
  from d2 have "\<exists>s f. slides d2 = slides d @ [s] \<and> failed_slides d2 = failed_slides d @ f"
    by (cases content) (auto simp: ebind_Inr)
  with d1 show ?thesis by simp
qed

lemma pages_loop_grows:
  "pages_loop udec loads env slide_width slide_height total_pages page_num pages d = Inr d' \<Longrightarrow>
   \<exists>new f. slides d' = slides d @ new \<and> length new = length pages \<and>
           failed_slides d' = failed_slides d @ f"
proof (induction pages arbitrary: page_num d)
  case Nil
  then show ?case by simp
next
  case (Cons pg rest)
  from Cons.prems obtain d1 where
    p: "process_page udec loads env slide_width slide_height total_pages page_num pg d = Inr d1"
    and l: "pages_loop udec loads env slide_width slide_height total_pages (Suc page_num) rest d1 = Inr d'"
    by (auto simp: ebind_Inr)
  from process_page_grows[OF p] obtain s f1 where
    s: "slides d1 = slides d @ [s]" "failed_slides d1 = failed_slides d @ f1" by blast
  from Cons.IH[OF l] obtain new f2 where
    n: "slides d' = slides d1 @ new" "length new = length rest" "failed_slides d' = failed_slides d1 @ f2"
    by blast
  from s n have "slides d' = slides d @ (s # new) \<and> length (s # new) = length (pg # rest) \<and>
                 failed_slides d' = failed_slides d @ (f1 @ f2)"
    by simp
  then show ?case by blast
qed

lemma pages_loop_append:
  "pages_loop udec loads env slide_width slide_height total_pages page_num (xs @ ys) d =
   ebind (pages_loop udec loads env slide_width slide_height total_pages page_num xs d)
     (\<lambda>d1. pages_loop udec loads env slide_width slide_height total_pages (page_num + length xs) ys d1)"
proof (induction xs arbitrary: page_num d)
  case Nil
  then show ?case by (simp add: ebind_def)
next
  case (Cons x xs)
  show ?case
  proof (cases "process_page udec loads env slide_width slide_height total_pages page_num x d")
    case (Inl e)
    then show ?thesis by (simp add: ebind_def)
  next
    case (Inr d1)
    with Cons.IH[of "Suc page_num" d1] show ?thesis by (simp add: ebind_def)
  qed
qed

text \<open>
  In a run that completes, a page whose extraction failed has its number in the failure
  list and the fallback slide at its place.
\<close>

lemma failed_page_in_run:
  assumes run: "pages_loop udec loads env slide_width slide_height total_pages 0 pages d0 = Inr d'"
    and k: "k < length pages"
    and before: "pages_loop udec loads env slide_width slide_height total_pages 0 (take k pages) d0 = Inr dk"
    and an: "analyze_slide_with_gemini loads env 3 (ext dk) = (r, st)"
    and failed: "usable r = Inr None"
  shows "k + 1 \<in> set (failed_slides d') \<and>
         slides d' ! (length (slides d0) + k) =
           \<lparr>shapes = [Picture (Render (pages ! k) 200 False) 0 0 slide_width slide_height],
            background = None\<rparr>"
proof -
  from k have split: "pages = take k pages @ (pages ! k) # drop (Suc k) pages"
    by (simp add: id_take_nth_drop)
  from k have lk: "length (take k pages) = k" by simp
  have "pages_loop udec loads env slide_width slide_height total_pages 0
          (take k pages @ (pages ! k) # drop (Suc k) pages) d0 = Inr d'"
    using run split by simp
  then have "ebind (pages_loop udec loads env slide_width slide_height total_pages 0 (take k pages) d0)
          (\<lambda>d1. pages_loop udec loads env slide_width slide_height total_pages
                  (0 + length (take k pages)) ((pages ! k) # drop (Suc k) pages) d1) = Inr d'"
    by (simp only: pages_loop_append)
  then have "pages_loop udec loads env slide_width slide_height total_pages k
          ((pages ! k) # drop (Suc k) pages) dk = Inr d'"
    unfolding lk before by (simp add: ebind_def)
  then obtain d1 where
    p: "process_page udec loads env slide_width slide_height total_pages k (pages ! k) dk = Inr d1"
    and l: "pages_loop udec loads env slide_width slide_height total_pages (Suc k) (drop (Suc k) pages) d1 = Inr d'"
    by (auto simp: ebind_Inr)
  from p process_page_failed[OF an failed, of udec slide_width slide_height total_pages k "pages ! k"]
  have d1: "failed_slides d1 = failed_slides dk @ [k + 1]"
    "slides d1 = slides dk @ [\<lparr>shapes = [Picture (Render (pages ! k) 200 False) 0 0 slide_width slide_height],
            background = None\<rparr>]"
    by auto
  from pages_loop_grows[OF before] lk obtain newk where
    nk: "slides dk = slides d0 @ newk" "length newk = k" by auto
  from pages_loop_grows[OF l] obtain new f where
    n: "slides d' = slides d1 @ new" "failed_slides d' = failed_slides d1 @ f" by blast
  from d1 n have "k + 1 \<in> set (failed_slides d')" by simp
  moreover
  from d1 nk n have "slides d' = (slides d0 @ newk) @
      \<lparr>shapes = [Picture (Render (pages ! k) 200 False) 0 0 slide_width slide_height],
            background = None\<rparr> # new"
    by simp
  with nk(2) have "slides d' ! (length (slides d0) + k) =
      \<lparr>shapes = [Picture (Render (pages ! k) 200 False) 0 0 slide_width slide_height],
            background = None\<rparr>"
    by (simp add: nth_append)
  ultimately show ?thesis by blast
qed

text \<open>The run over five pages of which the third gets an empty \<open>elements\<close> array.\<close>

lemma analyze_one_call:
  assumes "env (length (calls st)) = ApiResponse (Some t)" and "loads_stub (strip_fences t) = Inr (JDict kvs)"
    and "map_of kvs (ustr ''elements'') = Some (JList es)"
  shows "analyze_slide_with_gemini loads_stub env 3 st =
           (Some (JDict kvs), log_call (ustr ''gemini-2.5-flash-lite'') 0 st)"
proof -
  from assms have "try_body loads_stub (env (length (calls st))) = Inr (JDict kvs)"
    by (simp add: try_body_def)
  from attempt_loop_success[where env=env and st=st and max_retries=3 and attempt=0, OF _ this]
  show ?thesis by (simp add: analyze_slide_with_gemini_def models_def)
qed

lemma strip_fences_texts:
  "strip_fences TEXT_NO_ELEMENTS = TEXT_NO_ELEMENTS" "strip_fences TEXT_ONE_ELEMENT = TEXT_ONE_ELEMENT"
  by (simp_all add: strip_fences_def FENCE_def ustr_def str_defs py_endswith_def
      TEXT_NO_ELEMENTS_def TEXT_ONE_ELEMENT_def)

lemma loads_stub_texts:
  "loads_stub TEXT_NO_ELEMENTS = Inr (JDict [(ustr ''elements'', JList [])])"
  "loads_stub TEXT_ONE_ELEMENT = Inr CONTENT_ONE_ELEMENT"
  by (simp_all add: loads_stub_def TEXT_NO_ELEMENTS_def TEXT_ONE_ELEMENT_def TEXT_EMPTY_OBJECT_def ustr_def)

lemma create_one_element_slide:
  "create_slide_from_ai_data no_udec CONTENT_ONE_ELEMENT 12191695 6858000 (Some (Render pg 200 False)) =
     Inr (one_element_slide pg)"
  by (simp add: create_slide_from_ai_data_def element_shape_def strip_method_def one_element_slide_def
      CONTENT_ONE_ELEMENT_def no_udec_def box_eval_defs str_defs int_defs para_defs)

lemma page_with_one_element:
  assumes "env (length (calls (ext d))) = ApiResponse (Some TEXT_ONE_ELEMENT)"
  shows "process_page no_udec loads_stub env 12191695 6858000 total_pages page_num pg d =
           Inr (d\<lparr>slides := slides d @ [one_element_slide pg],
                  ext := (if int page_num < int total_pages - 1
                          then log_sleep 10 (log_call (ustr ''gemini-2.5-flash-lite'') 0 (ext d))
                          else log_call (ustr ''gemini-2.5-flash-lite'') 0 (ext d))\<rparr>)"
proof -
  have "analyze_slide_with_gemini loads_stub env 3 (ext d) =
          (Some CONTENT_ONE_ELEMENT, log_call (ustr ''gemini-2.5-flash-lite'') 0 (ext d))"
    unfolding CONTENT_ONE_ELEMENT_def
    by (rule analyze_one_call[where env=env and st="ext d", OF assms])
       (simp_all add: strip_fences_texts loads_stub_texts CONTENT_ONE_ELEMENT_def)
  moreover have "usable (Some CONTENT_ONE_ELEMENT) = Inr (Some CONTENT_ONE_ELEMENT)"
    by (simp add: usable_def ebind_def CONTENT_ONE_ELEMENT_def)
  ultimately show ?thesis
    by (simp add: process_page_def Let_def ebind_def create_one_element_slide)
qed

lemma page_without_elements:
  assumes "env (length (calls (ext d))) = ApiResponse (Some TEXT_NO_ELEMENTS)"
  shows "analyze_slide_with_gemini loads_stub env 3 (ext d) =
          (Some (JDict [(ustr ''elements'', JList [])]), log_call (ustr ''gemini-2.5-flash-lite'') 0 (ext d))"
  by (rule analyze_one_call[where env=env and st="ext d", OF assms])
     (simp_all add: strip_fences_texts loads_stub_texts)

lemma page_fallback:
  assumes "env (length (calls (ext d))) = ApiResponse (Some TEXT_NO_ELEMENTS)"
  shows "process_page udec loads_stub env slide_width slide_height total_pages page_num pg d =
           Inr (d\<lparr>failed_slides := failed_slides d @ [page_num + 1],
                  slides := slides d @ 
                 [\<lparr>shapes = [Picture (Render pg 200 False) 0 0 slide_width slide_height],
                   background = None\<rparr>],
                  ext := (if int page_num < int total_pages - 1
                          then log_sleep 10 (log_call (ustr ''gemini-2.5-flash-lite'') 0 (ext d))
                          else log_call (ustr ''gemini-2.5-flash-lite'') 0 (ext d))\<rparr>)"
  by (rule process_page_failed[OF page_without_elements[where env=env and d=d, OF assms]])
     (simp add: usable_failed)

lemma two_pages_run:
  "pages_loop no_udec loads_stub env_five_pages 12191695 6858000 5 0 (take 2 five_pages) run_start =
     Inr after_two_pages"
  by (simp add: five_pages_def page_with_one_element env_five_pages_def ebind_def fresh_def
      log_call_def log_sleep_def run_start_def after_two_pages_def)

lemma five_pages_run:
  "pages_loop no_udec loads_stub env_five_pages 12191695 6858000 5 0 five_pages run_start =
     Inr after_five_pages"
  by (simp add: five_pages_def page_with_one_element page_fallback env_five_pages_def ebind_def
      fresh_def log_call_def log_sleep_def run_start_def after_five_pages_def)

lemma third_page_extraction:
  "analyze_slide_with_gemini loads_stub env_five_pages 3 (ext after_two_pages) =
     (Some (JDict [(ustr ''elements'', JList [])]),
      log_call (ustr ''gemini-2.5-flash-lite'') 0 (ext after_two_pages))"
  by (rule page_without_elements) (simp add: after_two_pages_def env_five_pages_def)

text \<open>The whole conversion of the five pages: five slides, page 3 in the failure list.\<close>

lemma create_pptx_wide:
  assumes "gemini_available" and "api_key \<noteq> []" and "doc = first_page # rest"
    and "fdiv (rect_width first_page) (rect_height first_page) = Some aspect_ratio"
    and "fless (Fin 1.5) aspect_ratio"
  shows "create_pptx_from_pdf_with_ai udec loads env gemini_available api_key doc =
         ebind (pages_loop udec loads env 12191695 6858000 (length doc) 0 doc run_start)
           (\<lambda>d. Inr (Some \<lparr>out_width = 12191695, out_height = 6858000,
                            out_slides = slides d, out_failed = failed_slides d, out_ext = ext d\<rparr>))"
  using assms
  by (simp add: create_pptx_from_pdf_with_ai_def Let_def Inches_def py_trunc_def run_start_def
      fresh_def del: pages_loop.simps)

lemma five_pages_converted:
  "create_pptx_from_pdf_with_ai no_udec loads_stub env_five_pages True (ustr ''key'') five_pages =
     Inr (Some \<lparr>out_width = 12191695, out_height = 6858000,
                out_slides = slides after_five_pages, out_failed = [3],
                out_ext = ext after_five_pages\<rparr>)"
proof -
  have "create_pptx_from_pdf_with_ai no_udec loads_stub env_five_pages True (ustr ''key'') five_pages =
        ebind (pages_loop no_udec loads_stub env_five_pages 12191695 6858000 (length five_pages) 0
                 five_pages run_start)
          (\<lambda>d. Inr (Some \<lparr>out_width = 12191695, out_height = 6858000,
                           out_slides = slides d, out_failed = failed_slides d, out_ext = ext d\<rparr>))"
    by (rule create_pptx_wide[where first_page = "pdf_page 1"
          and rest = "[pdf_page 2, pdf_page 3, pdf_page 4, pdf_page 5]"
          and aspect_ratio = "round64 (960 / 540)"])
       (simp_all add: ustr_def five_pages_def pdf_page_def float_eval)
  moreover have "length five_pages = 5"
    by (simp add: five_pages_def)
  ultimately show ?thesis
    by (simp add: five_pages_run ebind_def after_five_pages_def)
qed

text \<open>
  C9. A page whose extraction returns no content, or content with an empty \<open>elements\<close>
  array, is handled without an error: its number is added to the failure list and one
  slide is appended, which has no background fill and a single shape, the picture
  rendered from the page at 200 dpi, placed at (0, 0) with the width and height of the
  slide. A run that completes has one slide per page, and such a page has its number in
  the final failure list and this picture-only slide at its place.
\<close>

theorem failed_extraction_gives_fallback_slide:
  "(analyze_slide_with_gemini loads env 3 (ext d) = (r, st) \<and>
    (r = None \<or> (\<exists>kvs. r = Some (JDict kvs) \<and> map_of kvs (ustr ''elements'') = Some (JList []))) \<longrightarrow>
      process_page udec loads env slide_width slide_height total_pages page_num pg d =
        Inr (d\<lparr>failed_slides := failed_slides d @ [page_num + 1],
               slides := slides d @ 
                 [\<lparr>shapes = [Picture (Render pg 200 False) 0 0 slide_width slide_height],
                   background = None\<rparr>],
               ext := (if int page_num < int total_pages - 1 then log_sleep 10 st else st)\<rparr>)) \<and>
   (pages_loop udec loads env slide_width slide_height total_pages 0 pages d0 = Inr d' \<longrightarrow>
      length (slides d') = length (slides d0) + length pages) \<and>
   (pages_loop udec loads env slide_width slide_height total_pages 0 pages d0 = Inr d' \<and>
    k < length pages \<and>
    pages_loop udec loads env slide_width slide_height total_pages 0 (take k pages) d0 = Inr dk \<and>
    analyze_slide_with_gemini loads env 3 (ext dk) = (rk, stk) \<and>
    (rk = None \<or> (\<exists>kvs. rk = Some (JDict kvs) \<and> map_of kvs (ustr ''elements'') = Some (JList []))) \<longrightarrow>
      k + 1 \<in> set (failed_slides d') \<and>
      slides d' ! (length (slides d0) + k) =
        \<lparr>shapes = [Picture (Render (pages ! k) 200 False) 0 0 slide_width slide_height],
            background = None\<rparr>)"
proof (intro conjI impI)
  assume a: "analyze_slide_with_gemini loads env 3 (ext d) = (r, st) \<and>
    (r = None \<or> (\<exists>kvs. r = Some (JDict kvs) \<and> map_of kvs (ustr ''elements'') = Some (JList [])))"
  then have "usable r = Inr None" by (intro usable_failed) simp
  with a show "process_page udec loads env slide_width slide_height total_pages page_num pg d =
        Inr (d\<lparr>failed_slides := failed_slides d @ [page_num + 1],
               slides := slides d @ 
                 [\<lparr>shapes = [Picture (Render pg 200 False) 0 0 slide_width slide_height],
                   background = None\<rparr>],
               ext := (if int page_num < int total_pages - 1 then log_sleep 10 st else st)\<rparr>)"
    by (intro process_page_failed) simp_all
next
  assume "pages_loop udec loads env slide_width slide_height total_pages 0 pages d0 = Inr d'"
  from pages_loop_grows[OF this] show "length (slides d') = length (slides d0) + length pages"
    by auto
next
  assume a: "pages_loop udec loads env slide_width slide_height total_pages 0 pages d0 = Inr d' \<and>
    k < length pages \<and>
    pages_loop udec loads env slide_width slide_height total_pages 0 (take k pages) d0 = Inr dk \<and>
    analyze_slide_with_gemini loads env 3 (ext dk) = (rk, stk) \<and>
    (rk = None \<or> (\<exists>kvs. rk = Some (JDict kvs) \<and> map_of kvs (ustr ''elements'') = Some (JList [])))"
  then have u: "usable rk = Inr None" by (intro usable_failed) simp
  from a have run: "pages_loop udec loads env slide_width slide_height total_pages 0 pages d0 = Inr d'"
    and k: "k < length pages"
    and before: "pages_loop udec loads env slide_width slide_height total_pages 0 (take k pages) d0 = Inr dk"
    and an: "analyze_slide_with_gemini loads env 3 (ext dk) = (rk, stk)"
    by simp_all
  from failed_page_in_run[OF run k before an u]
  show "k + 1 \<in> set (failed_slides d')"
    and "slides d' ! (length (slides d0) + k) =
        \<lparr>shapes = [Picture (Render (pages ! k) 200 False) 0 0 slide_width slide_height],
            background = None\<rparr>"
    by simp_all
qed

theorem failed_extraction_gives_fallback_slide_witness:
  "pages_loop no_udec loads_stub env_five_pages 12191695 6858000 5 0 five_pages run_start =
     Inr after_five_pages \<and>
   2 < length five_pages \<and>
   pages_loop no_udec loads_stub env_five_pages 12191695 6858000 5 0 (take 2 five_pages) run_start =
     Inr after_two_pages \<and>
   analyze_slide_with_gemini loads_stub env_five_pages 3 (ext after_two_pages) =
     (Some (JDict [(ustr ''elements'', JList [])]),
      log_call (ustr ''gemini-2.5-flash-lite'') 0 (ext after_two_pages)) \<and>
   map_of [(ustr ''elements'', JList [])] (ustr ''elements'') = Some (JList []) \<and>
   length (slides after_five_pages) = length (slides run_start) + length five_pages \<and>
   length (slides after_five_pages) = 5 \<and>
   2 + 1 \<in> set (failed_slides after_five_pages) \<and>
   slides after_five_pages ! (length (slides run_start) + 2) =
     \<lparr>shapes = [Picture (Render (five_pages ! 2) 200 False) 0 0 12191695 6858000],
       background = None\<rparr>"
proof -
  have k: "2 < length five_pages"
    by (simp add: five_pages_def)
  have m: "map_of [(ustr ''elements'', JList [])] (ustr ''elements'') = Some (JList [])"
    by simp
  have e: "Some (JDict [(ustr ''elements'', JList [])]) = None \<or>
           (\<exists>kvs. Some (JDict [(ustr ''elements'', JList [])]) = Some (JDict kvs) \<and>
                  map_of kvs (ustr ''elements'') = Some (JList []))"
    using m by blast
  note t = failed_extraction_gives_fallback_slide[of loads_stub env_five_pages _ _ _ no_udec
      12191695 6858000 5 _ _ five_pages run_start after_five_pages 2 after_two_pages
      "Some (JDict [(ustr ''elements'', JList [])])"
      "log_call (ustr ''gemini-2.5-flash-lite'') 0 (ext after_two_pages)"]
  from t five_pages_run
  have n: "length (slides after_five_pages) = length (slides run_start) + length five_pages"
    by blast
  from t five_pages_run k two_pages_run third_page_extraction e
  have f: "2 + 1 \<in> set (failed_slides after_five_pages) \<and>
     slides after_five_pages ! (length (slides run_start) + 2) =
       \<lparr>shapes = [Picture (Render (five_pages ! 2) 200 False) 0 0 12191695 6858000],
       background = None\<rparr>"
    by blast
  have c: "length (slides after_five_pages) = 5"
    by (simp add: after_five_pages_def)
  from five_pages_run k two_pages_run third_page_extraction m n c f show ?thesis
    by blast
qed

section \<open>Facts about the Slide Reconstructor\<close>

subsection \<open>Numbers of the documented size do not overflow\<close>

text \<open>
  Rounding moves a number by at most one unit in the last place, which is at most the
  number itself or 1: the rounded value of \<open>x\<close> is at most \<open>2 * \<bar>x\<bar> + 1\<close> in magnitude,
  and finite when that bound is below \<open>2 ^ 1024\<close>.
\<close>

lemma pow2_pos: "0 < pow2 k"
  by (simp add: pow2_def)

lemma pow2_le_one: "k \<le> 0 \<Longrightarrow> pow2 k \<le> 1"
  by (auto simp: pow2_def field_simps)

lemma round_even_bounds:
  assumes "0 \<le> x"
  shows "0 \<le> round_even x" and "real_of_int (round_even x) \<le> x + 1"
proof -
  have f: "0 \<le> \<lfloor>x\<rfloor>" using assms by simp
  have c: "round_even x = \<lfloor>x\<rfloor> \<or> round_even x = \<lfloor>x\<rfloor> + 1"
    by (simp add: round_even_def Let_def)
  from c f show "0 \<le> round_even x" by auto
  have fl: "real_of_int \<lfloor>x\<rfloor> \<le> x" by (rule of_int_floor_le)
  from c have "real_of_int (round_even x) \<le> real_of_int \<lfloor>x\<rfloor> + 1" by auto
  with fl show "real_of_int (round_even x) \<le> x + 1" by linarith
qed

lemma float_unit_le:
  assumes "0 < a"
  shows "pow2 (float_exponent a - 52) \<le> max 1 a"
proof (cases "1 \<le> a")
  case True
  let ?n = "\<lfloor>a\<rfloor>"
  from True have n: "0 < ?n" by simp
  from bitlen_bounds[OF n] have b: "2 ^ nat (bitlen ?n - 1) \<le> ?n" by simp
  have e: "float_exponent a = max (- 1022) (bitlen ?n - 1)"
    using True by (simp add: float_exponent_def)
  have nn: "0 \<le> bitlen ?n - 1"
  proof (rule ccontr)
    assume "\<not> 0 \<le> bitlen ?n - 1"
    then have "nat (bitlen ?n) = 0" by simp
    with bitlen_bounds[OF n] have "?n < 1" by simp
    with n show False by simp
  qed
  with e have e': "float_exponent a = bitlen ?n - 1" by simp
  show ?thesis
  proof (cases "0 \<le> bitlen ?n - 1 - 52")
    case False
    then have "pow2 (float_exponent a - 52) \<le> 1"
      unfolding e' by (intro pow2_le_one) simp
    then show ?thesis by simp
  next
    case ge: True
    then have "pow2 (float_exponent a - 52) = 2 ^ nat (bitlen ?n - 1 - 52)"
      unfolding e' by (simp add: pow2_def)
    also have "\<dots> \<le> (2::real) ^ nat (bitlen ?n - 1)"
      by (intro power_increasing) simp_all
    also have "\<dots> \<le> real_of_int ?n"
      using b by (metis of_int_le_iff of_int_numeral of_int_power)
    also have "\<dots> \<le> a" by simp
    finally show ?thesis by simp
  qed
next
  case False
  have "float_exponent a \<le> 0"
    using False bitlen_nonneg[of "\<lceil>1 / a\<rceil> - 1"] by (simp add: float_exponent_def)
  then have "pow2 (float_exponent a - 52) \<le> 1"
    by (intro pow2_le_one) simp
  then show ?thesis by simp
qed

lemma float_unit_half:
  assumes "1 \<le> a"
  shows "pow2 (float_exponent a - 52) \<le> a / 2"
proof -
  let ?n = "\<lfloor>a\<rfloor>"
  from assms have n: "0 < ?n" by simp
  from bitlen_bounds[OF n] have b: "2 ^ nat (bitlen ?n - 1) \<le> ?n" by simp
  have nn: "0 \<le> bitlen ?n - 1"
  proof (rule ccontr)
    assume "\<not> 0 \<le> bitlen ?n - 1"
    then have "nat (bitlen ?n) = 0" by simp
    with bitlen_bounds[OF n] have "?n < 1" by simp
    with n show False by simp
  qed
  then have e: "float_exponent a = bitlen ?n - 1"
    using assms by (simp add: float_exponent_def)
  show ?thesis
  proof (cases "0 \<le> bitlen ?n - 1 - 52")
    case False
    then have "pow2 (float_exponent a - 52) = 1 / 2 ^ nat (52 - (bitlen ?n - 1))"
      unfolding e by (simp add: pow2_def)
    also have "\<dots> \<le> 1 / (2::real) ^ 1"
      using False by (intro divide_left_mono power_increasing) simp_all
    also have "\<dots> \<le> a / 2" using assms by simp
    finally show ?thesis .
  next
    case True
    then have "2 * pow2 (float_exponent a - 52) = 2 ^ Suc (nat (bitlen ?n - 1 - 52))"
      unfolding e by (simp add: pow2_def)
    also have "\<dots> \<le> (2::real) ^ nat (bitlen ?n - 1)"
      using True by (intro power_increasing) simp_all
    also have "\<dots> \<le> real_of_int ?n"
      using b by (metis of_int_le_iff of_int_numeral of_int_power)
    also have "\<dots> \<le> a" by simp
    finally show ?thesis by simp
  qed
qed

lemma round64_lower:
  assumes "1 \<le> x" and "round64 x = Fin y"
  shows "x / 2 \<le> y"
proof -
  define q where "q = pow2 (float_exponent x - 52)"
  define y' where "y' = real_of_int (round_even (x / q)) * q"
  have q: "0 < q" by (simp add: q_def pow2_pos)
  from assms(1) have x: "0 < x" "x \<noteq> 0" "\<bar>x\<bar> = x" by simp_all
  from assms(2) have "y = y'"
    unfolding round64_def Let_def x(3) q_def[symmetric] y'_def[symmetric]
    using x by (simp split: if_splits)
  moreover have "x / q - 1 \<le> real_of_int (round_even (x / q))"
  proof -
    have "round_even (x / q) = \<lfloor>x / q\<rfloor> \<or> round_even (x / q) = \<lfloor>x / q\<rfloor> + 1"
      by (simp add: round_even_def Let_def)
    then have "real_of_int \<lfloor>x / q\<rfloor> \<le> real_of_int (round_even (x / q))" by auto
    moreover have "x / q - 1 \<le> real_of_int \<lfloor>x / q\<rfloor>" by linarith
    ultimately show ?thesis by linarith
  qed
  then have "(x / q - 1) * q \<le> y'"
    unfolding y'_def using q by (intro mult_right_mono) simp_all
  moreover have "(x / q - 1) * q = x - q"
    using q by (simp add: field_simps)
  ultimately have "x - q \<le> y" by simp
  moreover have "q \<le> x / 2"
    unfolding q_def by (rule float_unit_half[OF assms(1)])
  ultimately show ?thesis by linarith
qed

lemma round64_bound:
  assumes "2 * \<bar>x\<bar> + 1 < 2 ^ 1024"
  shows "\<exists>y. round64 x = Fin y \<and> \<bar>y\<bar> \<le> 2 * \<bar>x\<bar> + 1"
proof (cases "x = 0")
  case True
  then show ?thesis by (simp add: round64_def)
next
  case False
  define a where "a = \<bar>x\<bar>"
  define q where "q = pow2 (float_exponent a - 52)"
  define y where "y = real_of_int (round_even (a / q)) * q"
  from False have a: "0 < a" by (simp add: a_def)
  have q: "0 < q" by (simp add: q_def pow2_pos)
  from a q have aq: "0 \<le> a / q" by simp
  from round_even_bounds[OF aq] have r: "0 \<le> round_even (a / q)"
    "real_of_int (round_even (a / q)) \<le> a / q + 1" by simp_all
  from r(1) q have y0: "0 \<le> y" by (simp add: y_def)
  have "y \<le> (a / q + 1) * q"
    unfolding y_def using r(2) q by (intro mult_right_mono) simp_all
  also have "\<dots> = a + q" using q by (simp add: field_simps)
  also have "\<dots> \<le> a + max 1 a"
    using float_unit_le[OF a] by (simp add: q_def)
  also have "\<dots> \<le> 2 * a + 1" using a by simp
  finally have y1: "y \<le> 2 * a + 1" .
  with assms have fin: "\<not> 2 ^ 1024 \<le> y" by (simp add: a_def)
  have "round64 x = Fin (if 0 < x then y else - y)"
    using False fin unfolding round64_def Let_def a_def[symmetric] q_def[symmetric] y_def[symmetric]
    by simp
  moreover have "\<bar>if 0 < x then y else - y\<bar> \<le> 2 * \<bar>x\<bar> + 1"
    using y0 y1 unfolding a_def by (cases "0 < x") simp_all
  ultimately show ?thesis by blast
qed

lemma limit_ge_one: "1 \<le> MAGNITUDE_LIMIT"
  by (simp add: MAGNITUDE_LIMIT_def)

lemma below_limit_finite:
  assumes "\<bar>x\<bar> \<le> (2 * MAGNITUDE_LIMIT + 1) * (2 * MAGNITUDE_LIMIT + 1)"
  shows "2 * \<bar>x\<bar> + 1 < 2 ^ 1024"
proof -
  have "2 * ((2 * MAGNITUDE_LIMIT + 1) * (2 * MAGNITUDE_LIMIT + 1)) + 1 < 2 ^ 1024"
    by (simp add: MAGNITUDE_LIMIT_def)
  with assms show ?thesis by linarith
qed

lemma below_limit_square:
  assumes "\<bar>p\<bar> \<le> 2 * MAGNITUDE_LIMIT + 1" "\<bar>q\<bar> \<le> 2 * MAGNITUDE_LIMIT + 1"
  shows "\<bar>p * q\<bar> \<le> (2 * MAGNITUDE_LIMIT + 1) * (2 * MAGNITUDE_LIMIT + 1)"
proof -
  have "\<bar>p * q\<bar> = \<bar>p\<bar> * \<bar>q\<bar>" by (simp add: abs_mult)
  also have "\<dots> \<le> (2 * MAGNITUDE_LIMIT + 1) * (2 * MAGNITUDE_LIMIT + 1)"
    using assms by (intro mult_mono) simp_all
  finally show ?thesis .
qed

lemma below_limit:
  assumes "\<bar>p\<bar> \<le> MAGNITUDE_LIMIT"
  shows "\<bar>p\<bar> \<le> (2 * MAGNITUDE_LIMIT + 1) * (2 * MAGNITUDE_LIMIT + 1)"
proof -
  from assms limit_ge_one have "\<bar>p\<bar> \<le> 2 * MAGNITUDE_LIMIT + 1" "\<bar>1::real\<bar> \<le> 2 * MAGNITUDE_LIMIT + 1"
    by simp_all
  from below_limit_square[OF this] show ?thesis by simp
qed

lemma round64_small:
  assumes "\<bar>x\<bar> \<le> MAGNITUDE_LIMIT"
  shows "\<exists>y. round64 x = Fin y \<and> \<bar>y\<bar> \<le> 2 * MAGNITUDE_LIMIT + 1"
proof -
  from round64_bound[OF below_limit_finite[OF below_limit[OF assms]]] obtain y where
    "round64 x = Fin y" "\<bar>y\<bar> \<le> 2 * \<bar>x\<bar> + 1" by blast
  with assms show ?thesis by auto
qed

lemma div100_ok:
  assumes "is_percentage v"
  shows "\<exists>p. div100 v = Inr (Fin p) \<and> \<bar>p\<bar> \<le> 2 * MAGNITUDE_LIMIT + 1"
proof (cases v)
  case (JInt n)
  with assms have "\<bar>real_of_int n / 100\<bar> \<le> MAGNITUDE_LIMIT" by simp
  from round64_small[OF this] JInt show ?thesis
    by (auto simp: div100_def)
next
  case (JFloat f)
  with assms obtain r where f: "f = Fin r" and "\<bar>r\<bar> \<le> MAGNITUDE_LIMIT"
    by (cases f) simp_all
  then have "\<bar>r / 100\<bar> \<le> MAGNITUDE_LIMIT" by simp
  from round64_small[OF this] JFloat f show ?thesis
    by (auto simp: div100_def)
qed (use assms in simp_all)

lemma scale_to_slide_ok:
  assumes "\<bar>p\<bar> \<le> 2 * MAGNITUDE_LIMIT + 1" "\<bar>real_of_int e\<bar> \<le> MAGNITUDE_LIMIT"
  shows "\<exists>z. scale_to_slide (Fin p) e = Inr z"
proof -
  from round64_small[OF assms(2)] obtain y where
    y: "round64 (real_of_int e) = Fin y" "\<bar>y\<bar> \<le> 2 * MAGNITUDE_LIMIT + 1" by blast
  from round64_bound[OF below_limit_finite[OF below_limit_square[OF assms(1) y(2)]]] obtain z where
    "round64 (p * y) = Fin z" by blast
  with y(1) show ?thesis
    by (simp add: scale_to_slide_def int_to_float_def ebind_def)
qed

lemma get_percentage:
  assumes "field_ok kvs k is_percentage" "is_percentage dflt"
  shows "\<exists>p. ebind (py_get (JDict kvs) (ustr k) dflt) div100 = Inr (Fin p) \<and>
             \<bar>p\<bar> \<le> 2 * MAGNITUDE_LIMIT + 1"
proof -
  from assms have "is_percentage (case map_of kvs (ustr k) of None \<Rightarrow> dflt | Some v \<Rightarrow> v)"
    by (auto simp: field_ok_def split: option.splits)
  from div100_ok[OF this] show ?thesis by (simp add: ebind_def)
qed

lemma default_percentages:
  "is_percentage (JInt 5)" "is_percentage (JInt 90)" "is_percentage (JInt 15)"
  using limit_ge_one by (simp_all add: MAGNITUDE_LIMIT_def)

lemma element_box_ok:
  assumes "well_typed_position pos"
    and "\<bar>real_of_int slide_width\<bar> \<le> MAGNITUDE_LIMIT"
    and "\<bar>real_of_int slide_height\<bar> \<le> MAGNITUDE_LIMIT"
  shows "\<exists>b. element_box slide_width slide_height pos = Inr b"
proof -
  from assms(1) obtain kvs where pos: "pos = JDict kvs"
    and f: "field_ok kvs ''x_percent'' is_percentage" "field_ok kvs ''y_percent'' is_percentage"
       "field_ok kvs ''width_percent'' is_percentage" "field_ok kvs ''height_percent'' is_percentage"
    by (cases pos) simp_all
  from get_percentage[OF f(1) default_percentages(1)] obtain x where
    x: "ebind (py_get (JDict kvs) (ustr ''x_percent'') (JInt 5)) div100 = Inr (Fin x)"
       "\<bar>x\<bar> \<le> 2 * MAGNITUDE_LIMIT + 1"
    by blast
  from get_percentage[OF f(2) default_percentages(1)] obtain y where
    y: "ebind (py_get (JDict kvs) (ustr ''y_percent'') (JInt 5)) div100 = Inr (Fin y)"
       "\<bar>y\<bar> \<le> 2 * MAGNITUDE_LIMIT + 1"
    by blast
  from get_percentage[OF f(3) default_percentages(2)] obtain w where
    w: "ebind (py_get (JDict kvs) (ustr ''width_percent'') (JInt 90)) div100 = Inr (Fin w)"
       "\<bar>w\<bar> \<le> 2 * MAGNITUDE_LIMIT + 1"
    by blast
  from get_percentage[OF f(4) default_percentages(3)] obtain h where
    h: "ebind (py_get (JDict kvs) (ustr ''height_percent'') (JInt 15)) div100 = Inr (Fin h)"
       "\<bar>h\<bar> \<le> 2 * MAGNITUDE_LIMIT + 1"
    by blast
  from scale_to_slide_ok[OF x(2) assms(2)] obtain l where
    l: "scale_to_slide (Fin x) slide_width = Inr l" by blast
  from scale_to_slide_ok[OF y(2) assms(3)] obtain t where
    t: "scale_to_slide (Fin y) slide_height = Inr t" by blast
  from scale_to_slide_ok[OF w(2) assms(2)] obtain w0 where
    w0: "scale_to_slide (Fin w) slide_width = Inr w0" by blast
  from scale_to_slide_ok[OF h(2) assms(3)] obtain h0 where
    h0: "scale_to_slide (Fin h) slide_height = Inr h0" by blast
  have "element_box slide_width slide_height pos = Inr (clamp_box slide_width slide_height l t w0 h0)"
    unfolding element_box_def pos
    by (simp only: x(1) y(1) w(1) h(1) l t w0 h0 ebind_Inr_eq)
  then show ?thesis by blast
qed

subsection \<open>Colours without a minus sign are in range\<close>

lemma scan_digits_bound:
  assumes "scan_digits base us acc n cs = Some (v, n', rest)" and "0 \<le> acc" and "0 < base"
  shows "0 \<le> v \<and> v + 1 \<le> (acc + 1) * int base ^ length cs"
  using assms
proof (induction cs arbitrary: us acc n)
  case Nil
  then show ?case by (simp split: if_splits)
next
  case (Cons c cs)
  have one: "1 \<le> int base ^ k" for k
    using Cons.prems(3) by (simp add: one_le_power)
  have stop: "0 \<le> acc \<and> acc + 1 \<le> (acc + 1) * int base ^ length (c # cs)"
    using Cons.prems(2) one[of "length (c # cs)"] by (simp add: mult_le_cancel_left1)
  have grow: "(a + 1) * int base ^ length cs \<le> (acc + 1) * int base ^ length (c # cs)"
    if "a + 1 \<le> (acc + 1) * int base" for a
  proof -
    have "(a + 1) * int base ^ length cs \<le> ((acc + 1) * int base) * int base ^ length cs"
      using that by (intro mult_right_mono) simp_all
    then show ?thesis by (simp add: mult.assoc)
  qed
  show ?case
  proof (cases "c = 95")
    case True
    with Cons.prems(1) have r: "scan_digits base True acc n cs = Some (v, n', rest)"
      by (simp split: if_splits)
    from Cons.IH[OF r Cons.prems(2,3)] have v: "0 \<le> v" "v + 1 \<le> (acc + 1) * int base ^ length cs"
      by simp_all
    have "acc + 1 \<le> (acc + 1) * int base"
      using Cons.prems(2,3) by (simp add: mult_le_cancel_left1)
    from grow[OF this] v show ?thesis by simp
  next
    case False
    show ?thesis
    proof (cases "digit_value c")
      case None
      with False Cons.prems(1) stop show ?thesis by (simp split: if_splits)
    next
      case (Some d)
      show ?thesis
      proof (cases "d < base")
        case False
        with \<open>c \<noteq> 95\<close> Some Cons.prems(1) stop show ?thesis by (simp split: if_splits)
      next
        case True
        with \<open>c \<noteq> 95\<close> Some Cons.prems(1)
        have r: "scan_digits base False (acc * int base + int d) (Suc n) cs = Some (v, n', rest)"
          by simp
        have nn: "0 \<le> acc * int base + int d"
          using Cons.prems(2) by simp
        from Cons.IH[OF r nn Cons.prems(3)]
        have v: "0 \<le> v" "v + 1 \<le> (acc * int base + int d + 1) * int base ^ length cs"
          by simp_all
        have "acc * int base + int d + 1 \<le> (acc + 1) * int base"
          using True by (simp add: algebra_simps)
        from grow[OF this] v show ?thesis by simp
      qed
    qed
  qed
qed

lemma those_map_Some:
  "those (map f xs) = Some ys \<Longrightarrow> length ys = length xs \<and> (\<forall>y \<in> set ys. \<exists>x \<in> set xs. f x = Some y)"
proof (induction xs arbitrary: ys)
  case Nil
  then show ?case by simp
next
  case (Cons x xs)
  from Cons.prems obtain y ys' where
    y: "f x = Some y" "those (map f xs) = Some ys'" "ys = y # ys'"
    by (auto split: option.splits)
  from Cons.IH[OF y(2)] have "length ys' = length xs" "\<forall>z \<in> set ys'. \<exists>x \<in> set xs. f x = Some z"
    by simp_all
  with y(1,3) show ?case by auto
qed

lemma strip_sign_shorter:
  "strip_sign s = (neg, r) \<Longrightarrow> length r \<le> length s \<and> (neg \<longrightarrow> 45 \<in> set s)"
  by (cases s) (auto simp: strip_sign_def split: if_splits)

lemma to_ascii_minus: "to_ascii udec c = Some 45 \<Longrightarrow> c = 45"
  by (auto simp: to_ascii_def split: if_splits option.splits)

lemma strip_0x_shorter: "length (strip_0x base s) \<le> length s"
  by (auto simp: strip_0x_def split: list.splits)

text \<open>Without a minus sign, \<open>int(pair, 16)\<close> of at most two characters is a channel value.\<close>

lemma py_int_pair_range:
  assumes "py_int udec 16 s = Some v" and "45 \<notin> set s" and "length s \<le> 2"
  shows "channel_ok v"
proof -
  from assms(1) obtain a where a: "those (map (to_ascii udec) s) = Some a"
    by (auto simp: py_int_def split: option.splits)
  from those_map_Some[OF a] assms(2,3) have la: "length a \<le> 2" and na: "45 \<notin> set a"
    by (auto dest: to_ascii_minus)
  obtain neg a2 where s: "strip_sign (dropWhile ascii_space a) = (neg, a2)"
    by (cases "strip_sign (dropWhile ascii_space a)")
  have sub: "set (dropWhile ascii_space a) \<subseteq> set a"
    by (auto dest: set_dropWhileD)
  have ld: "length (dropWhile ascii_space a) \<le> length a"
    by (rule length_dropWhile_le)
  from strip_sign_shorter[OF s] sub na ld have neg: "\<not> neg" and l2: "length a2 \<le> length a"
    by auto
  from assms(1) a s neg obtain c cs n rest where
    x: "strip_0x 16 a2 = c # cs" and sc: "scan_digits 16 False 0 0 (c # cs) = Some (v, n, rest)"
    by (auto simp: py_int_def split: list.splits if_splits option.splits)
  from strip_0x_shorter[of 16 a2] x l2 la have "length (c # cs) \<le> 2" by simp
  then have "(16::int) ^ length (c # cs) \<le> 16 ^ 2"
    by (intro power_increasing) simp_all
  with scan_digits_bound[OF sc] show ?thesis
    by (simp add: channel_ok_def)
qed

lemma hex_to_rgb_ok:
  assumes "is_color v"
  shows "\<exists>c. hex_to_rgb udec v = Inr c \<and> RGBColor c = Inr c \<and>
             (case c of (cr, cg, cb) \<Rightarrow> channel_ok cr \<and> channel_ok cg \<and> channel_ok cb)"
proof -
  from assms obtain s where v: "v = JStr s" and s: "45 \<notin> set s"
    by (cases v) simp_all
  let ?h = "py_lstrip_chars (ustr ''#'') s"
  have "set ?h \<subseteq> set s"
    by (auto simp: py_lstrip_chars_def dest: set_dropWhileD)
  with s have h: "45 \<notin> set ?h" by blast
  have pair: "channel_ok x" if "py_int udec 16 (take 2 (drop k ?h)) = Some x" for k x
  proof -
    have "set (take 2 (drop k ?h)) \<subseteq> set ?h"
      by (meson set_take_subset set_drop_subset subset_trans)
    with h have "45 \<notin> set (take 2 (drop k ?h))" by blast
    from py_int_pair_range[OF that this] show ?thesis by simp
  qed
  have black: "channel_ok 0" by (simp add: channel_ok_def)
  have "\<exists>cr cg cb. hex_to_rgb udec (JStr s) = Inr (cr, cg, cb) \<and>
          channel_ok cr \<and> channel_ok cg \<and> channel_ok cb"
    using pair[of 0] pair[of 2] pair[of 4] black
    by (auto simp: hex_to_rgb_def Let_def split: option.splits)
  then obtain cr cg cb where c: "hex_to_rgb udec (JStr s) = Inr (cr, cg, cb)"
    "channel_ok cr" "channel_ok cg" "channel_ok cb" by blast
  then have "RGBColor (cr, cg, cb) = Inr (cr, cg, cb)"
    by (simp add: RGBColor_def channel_ok_def)
  with c v show ?thesis by simp
qed

subsection \<open>Strings\<close>

lemma lstrip_subset: "set (py_lstrip s) \<subseteq> set s"
  by (auto simp: py_lstrip_def dest: set_dropWhileD)

lemma rstrip_subset: "set (py_rstrip s) \<subseteq> set s"
  by (auto simp: py_rstrip_def dest: set_dropWhileD)

lemma strip_subset: "set (py_strip s) \<subseteq> set s"
  using lstrip_subset rstrip_subset unfolding py_strip_def by blast

lemma line_text_subset: "set (line_text line) \<subseteq> set line"
proof -
  have "set (py_lstrip_chars BULLET_CHARS line) \<subseteq> set line"
    by (auto simp: py_lstrip_chars_def dest: set_dropWhileD)
  with strip_subset[of "py_lstrip_chars BULLET_CHARS line"] show ?thesis
    by (auto simp: line_text_def)
qed

lemma xml_subset: "set t \<subseteq> set s \<Longrightarrow> list_all xml_char s \<Longrightarrow> list_all xml_char t"
  by (auto simp: list_all_iff)

lemma keeps_nonspace:
  assumes "c \<in> set s" "\<not> P c"
  shows "c \<in> set (dropWhile P s)"
proof -
  have "set s = set (takeWhile P s) \<union> set (dropWhile P s)"
    by (metis set_append takeWhile_dropWhile_id)
  moreover have "c \<notin> set (takeWhile P s)"
    using assms(2) by (auto dest: set_takeWhileD)
  ultimately show ?thesis using assms(1) by blast
qed

lemma strip_nonempty:
  assumes "c \<in> set s" "\<not> py_isspace c"
  shows "py_strip s \<noteq> []"
proof -
  from keeps_nonspace[where P=py_isspace, OF assms] have
    "c \<in> set (rev (dropWhile py_isspace s))" by simp
  from keeps_nonspace[where P=py_isspace, OF this assms(2)] have
    "dropWhile py_isspace (rev (dropWhile py_isspace s)) \<noteq> []"
    by (metis empty_iff empty_set)
  then show ?thesis
    unfolding py_strip_def py_lstrip_def py_rstrip_def by (simp only: rev_is_Nil_conv simp_thms)
qed

lemma strip_hd:
  assumes "py_strip s \<noteq> []"
  shows "\<not> py_isspace (hd (py_strip s))"
proof -
  let ?u = "dropWhile py_isspace s"
  have u: "?u = py_strip s @ rev (takeWhile py_isspace (rev ?u))"
  proof -
    have "rev (dropWhile py_isspace (rev ?u)) @ rev (takeWhile py_isspace (rev ?u)) = ?u"
      by (simp only: rev_append[symmetric] takeWhile_dropWhile_id rev_rev_ident)
    then show ?thesis by (simp only: py_strip_def py_lstrip_def py_rstrip_def)
  qed
  with assms have ne: "?u \<noteq> []" by (metis append_is_Nil_conv)
  from u assms have "hd ?u = hd (py_strip s)" by (metis hd_append2)
  moreover from ne have "\<not> py_isspace (hd ?u)" by (rule hd_dropWhile)
  ultimately show ?thesis by simp
qed

lemma split_nl_nonempty: "py_split_nl t \<noteq> []"
  by (induction t) (auto split: list.splits)

lemma split_nl_single: "10 \<notin> set t \<Longrightarrow> py_split_nl t = [t]"
  by (induction t) auto

lemma split_nl_subset: "l \<in> set (py_split_nl t) \<Longrightarrow> set l \<subseteq> set t"
proof (induction t arbitrary: l)
  case Nil
  then show ?case by simp
next
  case (Cons c cs)
  show ?case
  proof (cases "c = 10")
    case True
    with Cons show ?thesis by auto
  next
    case False
    from split_nl_nonempty[of cs] obtain l0 ls where s: "py_split_nl cs = l0 # ls"
      by (cases "py_split_nl cs") auto
    with Cons.IH have "set l0 \<subseteq> set cs" "\<forall>x \<in> set ls. set x \<subseteq> set cs" by auto
    with Cons.prems False s show ?thesis by auto
  qed
qed

lemma split_nl_first:
  assumes "c \<noteq> 10"
  shows "\<exists>l ls. py_split_nl (c # cs) = (c # l) # ls"
  using assms split_nl_nonempty[of cs] by (cases "py_split_nl cs") auto

text \<open>The first line of a stripped text that is not empty is not blank.\<close>

lemma first_line_not_blank:
  assumes "body = py_strip s" "body \<noteq> []"
  shows "\<exists>raw rest. (if 10 \<in> set body then py_split_nl body else [body]) = raw # rest \<and>
           py_split_nl body = raw # rest \<and> py_strip raw \<noteq> []"
proof -
  from assms(2) obtain c cs where t: "body = c # cs" by (cases body) auto
  from strip_hd[of s] assms t have c: "\<not> py_isspace c" by (metis list.sel(1))
  then have c10: "c \<noteq> 10" by (auto simp: py_isspace_def)
  from split_nl_first[OF c10, of cs] obtain l ls where sp: "py_split_nl body = (c # l) # ls"
    unfolding t by blast
  have ne: "py_strip (c # l) \<noteq> []"
    by (rule strip_nonempty[of c]) (simp_all add: c)
  have "(if 10 \<in> set body then py_split_nl body else [body]) = py_split_nl body"
    by (simp add: split_nl_single)
  with sp ne show ?thesis by simp
qed

subsection \<open>Paragraphs of well-typed elements\<close>

lemma get_field:
  assumes "field_ok kvs k P" "P dflt"
  shows "\<exists>v. py_get (JDict kvs) (ustr k) dflt = Inr v \<and> P v"
  using assms by (auto simp: field_ok_def split: option.splits)

text \<open>
  A font size clamped to 10..60 converts to a length that the writer accepts, whatever
  number it was.
\<close>

lemma set_size_ok:
  assumes "12700 \<le> z" "z \<le> 50800000"
  shows "set_size z = Inr z"
proof -
  from zdiv_mono1[OF assms(1), of 127] have "100 \<le> z div 127" by simp
  moreover from zdiv_mono1[OF assms(2), of 127] have "z div 127 \<le> 400000" by simp
  ultimately show ?thesis by (simp add: set_size_def)
qed

lemma Pt_clamped: "\<exists>z. ebind (Pt (num_max (PInt 10) (num_min (PInt 60) y))) set_size = Inr z"
proof (cases y)
  case (PInt n)
  have "\<exists>m. num_max (PInt 10) (num_min (PInt 60) (PInt n)) = PInt m \<and> 10 \<le> m \<and> m \<le> 60"
    by (simp add: num_max_def num_min_def num_less_def)
  then obtain m where m: "num_max (PInt 10) (num_min (PInt 60) (PInt n)) = PInt m" "10 \<le> m" "m \<le> 60"
    by blast
  from m(2,3) have "set_size (m * 12700) = Inr (m * 12700)"
    by (intro set_size_ok) simp_all
  with PInt m(1) show ?thesis by (simp add: ebind_def)
next
  case (PFloat f)
  have int: "ebind (Pt (PInt k)) set_size = Inr (k * 12700)" if "k = 10 \<or> k = 60" for k
    using that by (auto simp: ebind_def set_size_def)
  show ?thesis
  proof (cases f)
    case (Fin r)
    show ?thesis
    proof (cases "10 < r \<and> r < 60")
      case True
      then have a: "\<bar>r * 12700\<bar> \<le> 762000" "1 \<le> r * 12700" "127000 \<le> r * 12700" by simp_all
      have "2 * (762000 :: real) + 1 < 2 ^ 1024" by simp
      with a(1) have "2 * \<bar>r * 12700\<bar> + 1 < 2 ^ 1024" by linarith
      from round64_bound[OF this] obtain z where
        z: "round64 (r * 12700) = Fin z" "\<bar>z\<bar> \<le> 2 * \<bar>r * 12700\<bar> + 1" by blast
      from round64_lower[OF a(2) z(1)] a(3) have lo: "63500 \<le> z" by linarith
      from z(2) a(1) have hi: "z \<le> 1524001" by linarith
      from lo have "(63500 :: int) \<le> \<lfloor>z\<rfloor>" by linarith
      moreover from hi have "\<lfloor>z\<rfloor> \<le> (1524001 :: int)" by linarith
      ultimately have "set_size (py_trunc z) = Inr (py_trunc z)"
        using lo by (intro set_size_ok) (simp_all add: py_trunc_def)
      with PFloat Fin True z(1) show ?thesis
        by (simp add: num_max_def num_min_def num_less_def ebind_def)
    next
      case False
      with PFloat Fin int[of 10] int[of 60] show ?thesis
        by (auto simp: num_max_def num_min_def num_less_def)
    qed
  qed (use PFloat int[of 10] int[of 60] in \<open>simp_all add: num_max_def num_min_def num_less_def\<close>)
qed

lemma resolve_font_size_ok:
  assumes "is_font_size v"
  shows "\<exists>x z. resolve_font_size udec v elem_type = Inr x \<and> ebind (Pt x) set_size = Inr z"
proof -
  from assms have "\<exists>y. resolve_font_size udec v elem_type =
      Inr (num_max (PInt 10) (num_min (PInt 60) y))"
    by (cases v) (auto simp: resolve_font_size_def Let_def split: option.splits)
  with Pt_clamped show ?thesis by metis
qed

lemma set_level_ok:
  assumes "is_level bullet_level"
  shows "\<exists>n m. to_num bullet_level = Some (PInt n) \<and> set_level (level_value (PInt n)) = Inr (JInt m)"
  using assms
  by (cases bullet_level) (auto simp: level_value_def num_max_def num_less_def)

lemma set_flag_ok: "set_flag (JBool b) = Inr (JBool b)"
  by (simp add: set_flag_def)

lemma default_color: "is_color (JStr (ustr ''#000000''))" "is_color (JStr (ustr ''#FFFFFF''))"
  by (simp_all add: ustr_def)

lemma fill_paragraph_ok:
  assumes "well_typed_style style" and "is_level bullet_level" and "list_all xml_char line"
  shows "\<exists>p'. fill_paragraph udec style bullet_level elem_type line p = Inr p'"
proof -
  from assms(1) obtain kvs where style: "style = JDict kvs"
    and f: "field_ok kvs ''font_size'' is_font_size" "field_ok kvs ''font_color'' is_color"
       "field_ok kvs ''bold'' is_flag" "field_ok kvs ''italic'' is_flag"
    by (cases style) simp_all
  obtain alignment where al: "py_get style (ustr ''alignment'') (JStr (ustr ''left'')) = Inr alignment"
    unfolding style by simp
  from set_level_ok[OF assms(2)] obtain n m where
    n: "to_num bullet_level = Some (PInt n)" "set_level (level_value (PInt n)) = Inr (JInt m)"
    by blast
  then have "\<exists>lv.
     (case to_num bullet_level of
        None \<Rightarrow> Inl TypeError
      | Some bl \<Rightarrow>
          if num_less (PInt 0) bl \<or> is_bullet_line line \<or> elem_type = JStr (ustr ''bullet'')
          then ebind (set_level (level_value bl)) (\<lambda>v. Inr (Some v))
          else Inr (p_level p)) = Inr lv"
    by (simp add: ebind_def)
  then obtain lv where lv:
    "(case to_num bullet_level of
        None \<Rightarrow> Inl TypeError
      | Some bl \<Rightarrow>
          if num_less (PInt 0) bl \<or> is_bullet_line line \<or> elem_type = JStr (ustr ''bullet'')
          then ebind (set_level (level_value bl)) (\<lambda>v. Inr (Some v))
          else Inr (p_level p)) = Inr lv"
    by blast
  from xml_subset[OF line_text_subset assms(3)] have
    tx: "set_text (line_text line) = Inr (line_text line)"
    by (simp add: set_text_def)
  from get_field[OF f(1), of "JInt 18"] obtain fs where
    fs: "py_get style (ustr ''font_size'') (JInt 18) = Inr fs" "is_font_size fs"
    unfolding style by auto
  from resolve_font_size_ok[OF fs(2)] obtain x z where
    x: "resolve_font_size udec fs elem_type = Inr x" "ebind (Pt x) set_size = Inr z" by blast
  from get_field[OF f(2) default_color(1)] obtain fc where
    fc: "py_get style (ustr ''font_color'') (JStr (ustr ''#000000'')) = Inr fc" "is_color fc"
    unfolding style by auto
  from hex_to_rgb_ok[OF fc(2)] obtain c where
    c: "hex_to_rgb udec fc = Inr c" "RGBColor c = Inr c"
    by blast
  from get_field[OF f(3), of "JBool False"] obtain bold where
    bold: "py_get style (ustr ''bold'') (JBool False) = Inr bold" "is_flag bold"
    unfolding style by auto
  then obtain b where b: "bold = JBool b" by (cases bold) simp_all
  have bf: "set_flag (if truthy bold then bold
                      else JBool (elem_type = JStr (ustr ''title'') \<or>
                                  elem_type = JStr (ustr ''heading''))) =
            Inr (if truthy bold then bold
                 else JBool (elem_type = JStr (ustr ''title'') \<or>
                             elem_type = JStr (ustr ''heading'')))"
    unfolding b by (simp add: set_flag_ok)
  from get_field[OF f(4), of "JBool False"] obtain italic where
    italic: "py_get style (ustr ''italic'') (JBool False) = Inr italic" "is_flag italic"
    unfolding style by auto
  then have itf: "set_flag italic = Inr italic"
    by (cases italic) (simp_all add: set_flag_ok)
  show ?thesis
    unfolding fill_paragraph_def
    by (simp only: al lv tx fs(1) x fc(1) c bold(1) bf italic(1) itf ebind_Inr_eq) blast
qed

text \<open>
  The runs of the paragraphs after the line loop: one paragraph with one run per line
  that is not blank, holding the text of the line.
\<close>

lemma fill_paragraph_texts:
  assumes "fill_paragraph udec style bullet_level elem_type line p = Inr p'"
  shows "map r_text (p_runs p') = map r_text (p_runs p) @ [line_text line]"
  using fill_paragraph_runs[OF assms] by auto

lemma lines_loop_later:
  assumes "well_typed_style style" and "is_level bullet_level"
  shows "0 < i \<Longrightarrow> list_all (list_all xml_char) lines \<Longrightarrow>
         \<exists>ps'. lines_loop udec style bullet_level elem_type i lines ps = Inr ps' \<and>
               map (\<lambda>p. map r_text (p_runs p)) ps' =
                 map (\<lambda>p. map r_text (p_runs p)) ps @
                 map (\<lambda>l. [line_text l]) (filter (\<lambda>l. l \<noteq> []) (map py_strip lines))"
proof (induction lines arbitrary: i ps)
  case Nil
  then show ?case by simp
next
  case (Cons raw rest)
  from Cons.prems have xs: "list_all xml_char raw" "list_all (list_all xml_char) rest"
    by simp_all
  show ?case
  proof (cases "py_strip raw = []")
    case True
    with Cons.IH[OF _ xs(2), of "Suc i" ps] show ?thesis by (simp add: Let_def)
  next
    case False
    from xml_subset[OF strip_subset xs(1)] have "list_all xml_char (py_strip raw)" .
    from fill_paragraph_ok[OF assms this] obtain p where
      p: "fill_paragraph udec style bullet_level elem_type (py_strip raw) blank_paragraph = Inr p"
      by blast
    from fill_paragraph_texts[OF p] have pt: "map r_text (p_runs p) = [line_text (py_strip raw)]"
      by (simp add: blank_paragraph_def)
    from Cons.IH[OF _ xs(2), of "Suc i" "ps @ [p]"] obtain ps' where
      ps': "lines_loop udec style bullet_level elem_type (Suc i) rest (ps @ [p]) = Inr ps'"
        "map (\<lambda>p. map r_text (p_runs p)) ps' =
           map (\<lambda>p. map r_text (p_runs p)) (ps @ [p]) @
           map (\<lambda>l. [line_text l]) (filter (\<lambda>l. l \<noteq> []) (map py_strip rest))"
      by auto
    from Cons.prems(1) False p ps'(1) have
      "lines_loop udec style bullet_level elem_type i (raw # rest) ps = Inr ps'"
      by (simp add: Let_def ebind_def)
    with ps'(2) pt False show ?thesis by simp
  qed
qed

lemma lines_loop_first:
  assumes "well_typed_style style" and "is_level bullet_level"
    and "list_all (list_all xml_char) (raw # rest)" and "py_strip raw \<noteq> []"
  shows "\<exists>ps'. lines_loop udec style bullet_level elem_type 0 (raw # rest) [blank_paragraph] = Inr ps' \<and>
               map (\<lambda>p. map r_text (p_runs p)) ps' =
                 map (\<lambda>l. [line_text l]) (filter (\<lambda>l. l \<noteq> []) (map py_strip (raw # rest)))"
proof -
  from assms(3) have xs: "list_all xml_char raw" "list_all (list_all xml_char) rest"
    by simp_all
  from xml_subset[OF strip_subset xs(1)] have "list_all xml_char (py_strip raw)" .
  from fill_paragraph_ok[OF assms(1,2) this] obtain p where
    p: "fill_paragraph udec style bullet_level elem_type (py_strip raw) blank_paragraph = Inr p"
    by blast
  from fill_paragraph_texts[OF p] have pt: "map r_text (p_runs p) = [line_text (py_strip raw)]"
    by (simp add: blank_paragraph_def)
  from lines_loop_later[OF assms(1,2) _ xs(2), of "Suc 0" udec elem_type "[p]"] obtain ps' where
    ps': "lines_loop udec style bullet_level elem_type (Suc 0) rest [p] = Inr ps'"
      "map (\<lambda>p. map r_text (p_runs p)) ps' =
         map (\<lambda>p. map r_text (p_runs p)) [p] @
         map (\<lambda>l. [line_text l]) (filter (\<lambda>l. l \<noteq> []) (map py_strip rest))"
    by auto
  from assms(4) p ps'(1) have
    "lines_loop udec style bullet_level elem_type 0 (raw # rest) [blank_paragraph] = Inr ps'"
    by (simp add: Let_def ebind_def)
  with ps'(2) pt assms(4) show ?thesis by simp
qed

subsection \<open>Text boxes of well-typed elements\<close>

lemma empty_dicts: "well_typed_position (JDict [])" "well_typed_style (JDict [])"
  by (simp_all add: field_ok_def)

text \<open>
  A well-typed element with text that is not blank gets its text box, at the box of its
  position and with one paragraph per line of the text; any other well-typed element
  is skipped.
\<close>

lemma element_shape_ok:
  assumes "well_typed_element elem"
    and "\<bar>real_of_int slide_width\<bar> \<le> MAGNITUDE_LIMIT"
    and "\<bar>real_of_int slide_height\<bar> \<le> MAGNITUDE_LIMIT"
  shows "(shown elem \<longrightarrow>
            (\<exists>sh :: 'p shape. element_shape udec slide_width slide_height elem = Inr (Some sh) \<and>
                  box_of_element slide_width slide_height elem sh)) \<and>
         (\<not> shown elem \<longrightarrow>
            element_shape udec slide_width slide_height elem = Inr (None :: 'p shape option))"
proof -
  from assms(1) obtain kvs where elem: "elem = JDict kvs"
    and f: "field_ok kvs ''text'' is_text" "field_ok kvs ''position'' well_typed_position"
       "field_ok kvs ''style'' well_typed_style" "field_ok kvs ''bullet_level'' is_level"
    by (cases elem) simp_all
  from get_field[OF f(1), of "JStr []"] obtain t where
    "py_get elem (ustr ''text'') (JStr []) = Inr t" "is_text t"
    unfolding elem by auto
  then obtain s where t: "py_get elem (ustr ''text'') (JStr []) = Inr (JStr s)"
    and xs: "list_all xml_char s"
    by (cases t) simp_all
  then have stripped: "ebind (py_get elem (ustr ''text'') (JStr [])) strip_method = Inr (py_strip s)"
    by (simp add: ebind_def strip_method_def)
  from t have et: "element_text elem = py_strip s"
    by (simp add: element_text_def)
  show ?thesis
  proof (cases "py_strip s = []")
    case True
    have "element_shape udec slide_width slide_height elem = Inr (None :: 'p shape option)"
      unfolding element_shape_def by (simp add: stripped ebind_Inr_eq True)
    with True et show ?thesis by (simp add: shown_def)
  next
    case False
    from get_field[OF f(2) empty_dicts(1)] obtain pos where
      pos: "py_get elem (ustr ''position'') (JDict []) = Inr pos" "well_typed_position pos"
      unfolding elem by auto
    from get_field[OF f(3) empty_dicts(2)] obtain style where
      style: "py_get elem (ustr ''style'') (JDict []) = Inr style" "well_typed_style style"
      unfolding elem by auto
    from element_box_ok[OF pos(2) assms(2,3)] obtain bx where
      bx: "element_box slide_width slide_height pos = Inr bx" by blast
    from get_field[OF f(4), of "JInt 0"] obtain bl where
      bl: "py_get elem (ustr ''bullet_level'') (JInt 0) = Inr bl" "is_level bl"
      unfolding elem by auto
    obtain ty where ty: "py_get elem (ustr ''type'') (JStr (ustr ''body'')) = Inr ty"
      unfolding elem by simp
    from first_line_not_blank[OF refl False] obtain raw rest where
      lines: "(if 10 \<in> set (py_strip s) then py_split_nl (py_strip s) else [py_strip s]) = raw # rest"
        "py_split_nl (py_strip s) = raw # rest" "py_strip raw \<noteq> []"
      by blast
    have "list_all xml_char l" if "l \<in> set (py_split_nl (py_strip s))" for l
    proof -
      from split_nl_subset[OF that] strip_subset[of s] have "set l \<subseteq> set s" by blast
      from xml_subset[OF this xs] show ?thesis .
    qed
    then have xl: "list_all (list_all xml_char) (raw # rest)"
      unfolding lines(2)[symmetric] by (simp add: list_all_iff)
    from lines_loop_first[OF style(2) bl(2) xl lines(3), of udec ty] obtain ps where
      ps: "lines_loop udec style bl ty 0 (raw # rest) [blank_paragraph] = Inr ps"
        "map (\<lambda>p. map r_text (p_runs p)) ps =
           map (\<lambda>l. [line_text l]) (filter (\<lambda>l. l \<noteq> []) (map py_strip (raw # rest)))"
      by blast
    have "element_shape udec slide_width slide_height elem = Inr (Some (TextBox bx ps :: 'p shape))"
      unfolding element_shape_def
      by (simp only: stripped pos(1) style(1) bx bl(1) ty lines(1) ps(1) ebind_Inr_eq False if_False)
    moreover have "box_of_element slide_width slide_height elem (TextBox bx ps :: 'p shape)"
      unfolding box_of_element_def
      by (simp add: pos(1) bx et text_lines_def lines(2) ps(2))
    ultimately show ?thesis using False et by (auto simp: shown_def)
  qed
qed

lemma elements_loop_ok:
  assumes "\<bar>real_of_int slide_width\<bar> \<le> MAGNITUDE_LIMIT"
    and "\<bar>real_of_int slide_height\<bar> \<le> MAGNITUDE_LIMIT"
  shows "list_all well_typed_element elems \<Longrightarrow>
         \<exists>shs :: 'p shape list. elements_loop udec slide_width slide_height elems = Inr shs \<and>
               list_all2 (box_of_element slide_width slide_height) (filter shown elems) shs"
proof (induction elems)
  case Nil
  then show ?case by simp
next
  case (Cons e es)
  from Cons.prems have e: "well_typed_element e" and es: "list_all well_typed_element es"
    by simp_all
  from Cons.IH[OF es] obtain shs :: "'p shape list" where
    shs: "elements_loop udec slide_width slide_height es = Inr shs"
      "list_all2 (box_of_element slide_width slide_height) (filter shown es) shs"
    by blast
  note one = element_shape_ok[OF e assms, where udec=udec and 'p='p]
  show ?case
  proof (cases "shown e")
    case True
    with one obtain sh :: "'p shape" where
      "element_shape udec slide_width slide_height e = Inr (Some sh)"
      "box_of_element slide_width slide_height e sh"
      by blast
    with shs True show ?thesis by (simp add: ebind_def)
  next
    case False
    with one have "element_shape udec slide_width slide_height e = Inr (None :: 'p shape option)"
      by blast
    with shs False show ?thesis by (simp add: ebind_def)
  qed
qed

subsection \<open>Absent fields and the documented defaults\<close>

lemma ebind_simps: "ebind (Inr v) f = f v" "ebind (Inl e) f = Inl e"
  by (simp_all add: ebind_def)

lemma map_of_with_default:
  "map_of (with_default k d kvs) k' =
     (if k' = ustr k then Some (case map_of kvs k' of None \<Rightarrow> d | Some v \<Rightarrow> v) else map_of kvs k')"
  by (auto simp: with_default_def map_add_def split: option.splits)

lemma map_of_map_field:
  "map_of (map_field k f kvs) k' =
     (if k' = ustr k then map_option f (map_of kvs k') else map_of kvs k')"
  by (induction kvs) (auto simp: map_field_def)

lemma position_defaults_box:
  "element_box slide_width slide_height (position_defaults pos) =
   element_box slide_width slide_height pos"
proof (cases pos)
  case (JDict kvs)
  have k: "ustr ''x_percent'' \<noteq> ustr ''y_percent''" "ustr ''x_percent'' \<noteq> ustr ''width_percent''"
    "ustr ''x_percent'' \<noteq> ustr ''height_percent''" "ustr ''y_percent'' \<noteq> ustr ''width_percent''"
    "ustr ''y_percent'' \<noteq> ustr ''height_percent''" "ustr ''width_percent'' \<noteq> ustr ''height_percent''"
    by (simp_all add: ustr_def)
  show ?thesis
    unfolding JDict element_box_def position_defaults.simps py_get.simps map_of_with_default
    using k by (simp split: option.splits)
qed simp_all

lemma style_defaults_paragraph:
  "fill_paragraph udec (style_defaults style) bullet_level elem_type line p =
   fill_paragraph udec style bullet_level elem_type line p"
proof (cases style)
  case (JDict kvs)
  have k: "ustr ''alignment'' \<noteq> ustr ''font_size''" "ustr ''alignment'' \<noteq> ustr ''font_color''"
    "ustr ''alignment'' \<noteq> ustr ''bold''" "ustr ''alignment'' \<noteq> ustr ''italic''"
    "ustr ''font_size'' \<noteq> ustr ''font_color''" "ustr ''font_size'' \<noteq> ustr ''bold''"
    "ustr ''font_size'' \<noteq> ustr ''italic''" "ustr ''font_color'' \<noteq> ustr ''bold''"
    "ustr ''font_color'' \<noteq> ustr ''italic''" "ustr ''bold'' \<noteq> ustr ''italic''"
    by (simp_all add: ustr_def)
  show ?thesis
    unfolding JDict fill_paragraph_def style_defaults.simps py_get.simps map_of_with_default
    using k by (simp split: option.splits)
qed simp_all

lemma style_defaults_lines:
  "lines_loop udec (style_defaults style) bullet_level elem_type i lines ps =
   lines_loop udec style bullet_level elem_type i lines ps"
  by (induction lines arbitrary: i ps)
     (simp_all add: style_defaults_paragraph Let_def split: list.splits)

lemma element_defaults_shape:
  "element_shape udec slide_width slide_height (element_defaults elem) =
   (element_shape udec slide_width slide_height elem :: py_error + 'p shape option)"
proof (cases elem)
  case (JDict kvs)
  have k: "ustr ''position'' \<noteq> ustr ''style''" "ustr ''position'' \<noteq> ustr ''text''"
    "ustr ''position'' \<noteq> ustr ''type''" "ustr ''position'' \<noteq> ustr ''bullet_level''"
    "ustr ''style'' \<noteq> ustr ''text''" "ustr ''style'' \<noteq> ustr ''type''"
    "ustr ''style'' \<noteq> ustr ''bullet_level''" "ustr ''text'' \<noteq> ustr ''type''"
    "ustr ''text'' \<noteq> ustr ''bullet_level''" "ustr ''type'' \<noteq> ustr ''bullet_level''"
    by (simp_all add: ustr_def)
  let ?e = "element_defaults (JDict kvs)"
  have g_text: "py_get ?e (ustr ''text'') (JStr []) = py_get (JDict kvs) (ustr ''text'') (JStr [])"
    using k by (simp add: map_of_with_default map_of_map_field split: option.splits)
  have g_bl: "py_get ?e (ustr ''bullet_level'') (JInt 0) = py_get (JDict kvs) (ustr ''bullet_level'') (JInt 0)"
    using k by (simp add: map_of_with_default map_of_map_field split: option.splits)
  have g_type: "py_get ?e (ustr ''type'') (JStr (ustr ''body'')) =
      py_get (JDict kvs) (ustr ''type'') (JStr (ustr ''body''))"
    using k by (simp add: map_of_with_default map_of_map_field split: option.splits)
  have g_pos: "py_get ?e (ustr ''position'') (JDict []) =
      Inr (position_defaults (case map_of kvs (ustr ''position'') of None \<Rightarrow> JDict [] | Some v \<Rightarrow> v))"
    using k by (simp add: map_of_with_default map_of_map_field split: option.splits)
  have g_style: "py_get ?e (ustr ''style'') (JDict []) =
      Inr (style_defaults (case map_of kvs (ustr ''style'') of None \<Rightarrow> JDict [] | Some v \<Rightarrow> v))"
    using k by (simp add: map_of_with_default map_of_map_field split: option.splits)
  show ?thesis
    unfolding JDict element_shape_def g_text g_bl g_type g_pos g_style
    by (simp add: ebind_simps position_defaults_box style_defaults_lines cong: if_cong)
qed simp_all

lemma elements_defaults_loop:
  "elements_loop udec slide_width slide_height (map element_defaults elems) =
   (elements_loop udec slide_width slide_height elems :: py_error + 'p shape list)"
  by (induction elems) (simp_all add: element_defaults_shape)

lemma elements_defaults_iter:
  "ebind (py_iter (elements_defaults els)) (elements_loop udec slide_width slide_height) =
   (ebind (py_iter els) (elements_loop udec slide_width slide_height) :: py_error + 'p shape list)"
  by (cases els) (simp_all add: ebind_simps elements_defaults_loop)

lemma content_defaults_slide:
  "create_slide_from_ai_data udec (content_defaults slide_data) slide_width slide_height background_image =
   (create_slide_from_ai_data udec slide_data slide_width slide_height background_image
      :: py_error + 'p slide)"
proof (cases slide_data)
  case (JDict kvs)
  have k: "ustr ''elements'' \<noteq> ustr ''background_color''"
    by (simp add: ustr_def)
  let ?d = "content_defaults (JDict kvs)"
  have g_bg: "py_get ?d (ustr ''background_color'') (JStr (ustr ''#FFFFFF'')) =
      py_get (JDict kvs) (ustr ''background_color'') (JStr (ustr ''#FFFFFF''))"
    using k by (simp add: map_of_with_default map_of_map_field split: option.splits)
  have g_els: "py_get ?d (ustr ''elements'') (JList []) =
      Inr (elements_defaults (case map_of kvs (ustr ''elements'') of None \<Rightarrow> JList [] | Some v \<Rightarrow> v))"
    using k by (simp add: map_of_with_default map_of_map_field split: option.splits)
  have loop: "ebind (py_iter (elements_defaults els)) (\<lambda>elems.
              ebind (elements_loop udec slide_width slide_height elems) (\<lambda>boxes.
              Inr \<lparr>shapes = behind @ boxes, background = bg_fill\<rparr>)) =
        ebind (py_iter els) (\<lambda>elems.
              ebind (elements_loop udec slide_width slide_height elems) (\<lambda>boxes.
              Inr \<lparr>shapes = behind @ boxes, background = bg_fill\<rparr>))"
    for els and behind :: "'p shape list" and bg_fill
    by (cases els) (simp_all add: ebind_simps elements_defaults_loop)
  show ?thesis
    unfolding JDict create_slide_from_ai_data_def g_bg g_els
    by (simp add: ebind_simps loop)
qed simp_all

subsection \<open>Values that degrade\<close>

lemma font_size_degrades:
  assumes "py_int udec 10 (replace_pt s) = None"
  shows "fill_paragraph udec (JDict ((ustr ''font_size'', JStr s) # kvs)) bullet_level elem_type line p =
         fill_paragraph udec (JDict ((ustr ''font_size'', JInt 18) # kvs)) bullet_level elem_type line p"
proof -
  have r: "resolve_font_size udec (JStr s) elem_type = resolve_font_size udec (JInt 18) elem_type"
    using assms by (simp add: resolve_font_size_def)
  have k: "ustr ''alignment'' \<noteq> ustr ''font_size''" "ustr ''font_color'' \<noteq> ustr ''font_size''"
    "ustr ''bold'' \<noteq> ustr ''font_size''" "ustr ''italic'' \<noteq> ustr ''font_size''"
    by (simp_all add: ustr_def)
  show ?thesis
    unfolding fill_paragraph_def py_get.simps using k by (simp add: ebind_simps r)
qed

lemma black_is_black: "hex_to_rgb udec (JStr (ustr ''#000000'')) = Inr (0, 0, 0)"
  by (simp add: hex_to_rgb_def ustr_def py_lstrip_chars_def int_defs)

lemma font_color_degrades:
  assumes "length (py_lstrip_chars (ustr ''#'') c) \<noteq> 6 \<or>
           py_int udec 16 (take 2 (py_lstrip_chars (ustr ''#'') c)) = None \<or>
           py_int udec 16 (take 2 (drop 2 (py_lstrip_chars (ustr ''#'') c))) = None \<or>
           py_int udec 16 (take 2 (drop 4 (py_lstrip_chars (ustr ''#'') c))) = None"
  shows "fill_paragraph udec (JDict ((ustr ''font_color'', JStr c) # kvs)) bullet_level elem_type line p =
         fill_paragraph udec (JDict ((ustr ''font_color'', JStr (ustr ''#000000'')) # kvs))
           bullet_level elem_type line p"
proof -
  have "hex_to_rgb udec (JStr c) = Inr (0, 0, 0)"
    using assms by (auto simp: hex_to_rgb_def Let_def split: option.splits)
  then have r: "hex_to_rgb udec (JStr c) = hex_to_rgb udec (JStr (ustr ''#000000''))"
    by (simp only: black_is_black)
  have k: "ustr ''alignment'' \<noteq> ustr ''font_color''" "ustr ''font_size'' \<noteq> ustr ''font_color''"
    "ustr ''bold'' \<noteq> ustr ''font_color''" "ustr ''italic'' \<noteq> ustr ''font_color''"
    by (simp_all add: ustr_def)
  show ?thesis
    unfolding fill_paragraph_def py_get.simps using k by (simp add: ebind_simps r)
qed

lemma alignment_degrades:
  assumes "a \<noteq> JStr (ustr ''center'')" "a \<noteq> JStr (ustr ''right'')"
  shows "fill_paragraph udec (JDict ((ustr ''alignment'', a) # kvs)) bullet_level elem_type line p =
         fill_paragraph udec (JDict ((ustr ''alignment'', JStr (ustr ''left'')) # kvs))
           bullet_level elem_type line p"
proof -
  have r: "resolve_alignment a = resolve_alignment (JStr (ustr ''left''))"
    using assms by (simp add: resolve_alignment_def ustr_def)
  have k: "ustr ''font_size'' \<noteq> ustr ''alignment''" "ustr ''font_color'' \<noteq> ustr ''alignment''"
    "ustr ''bold'' \<noteq> ustr ''alignment''" "ustr ''italic'' \<noteq> ustr ''alignment''"
    by (simp_all add: ustr_def)
  show ?thesis
    unfolding fill_paragraph_def py_get.simps using k by (simp add: ebind_simps r)
qed

subsection \<open>Slides of well-typed content\<close>

text \<open>
  C5, as the specification states it, fails: an element whose \<open>text\<close> is the number 2024
  has no \<open>strip\<close> method; the reconstructor raises \<open>AttributeError\<close> and no slide
  is returned.
\<close>

theorem malformed_text_raises_counterexample:
  "create_slide_from_ai_data no_udec CONTENT_NUMBER_AS_TEXT 9144000 6858000
     (Some (Render (pdf_page 1) 200 False)) = Inl AttributeError"
  by (simp add: create_slide_from_ai_data_def element_shape_def strip_method_def ebind_def
      CONTENT_NUMBER_AS_TEXT_def ustr_def Inches_def py_trunc_def)

text \<open>
  Values of the documented type can raise as well when the presentation writer refuses
  them: a text with a lone surrogate cannot be written to XML, a bullet level of 10 is
  above the nine levels of a paragraph, and a colour with a minus sign gives a channel
  below 0.
\<close>

lemma surrogate_text_raises:
  "create_slide_from_ai_data no_udec
     (JDict [(ustr ''elements'', JList [JDict [(ustr ''text'', JStr [72, 55296])]])])
     9144000 6858000 (Some (Render (pdf_page 1) 200 False)) = Inl ValueError"
  by (simp add: create_slide_from_ai_data_def element_shape_def strip_method_def
      no_udec_def box_eval_defs str_defs int_defs para_defs)

lemma level_ten_raises:
  "create_slide_from_ai_data no_udec
     (JDict [(ustr ''elements'', JList [JDict [(ustr ''text'', JStr (ustr ''Hi'')),
                                              (ustr ''bullet_level'', JInt 10)]])])
     9144000 6858000 (Some (Render (pdf_page 1) 200 False)) = Inl ValueError"
  by (simp add: create_slide_from_ai_data_def element_shape_def strip_method_def
      no_udec_def box_eval_defs str_defs int_defs para_defs)

text \<open>
  C5, amended. For every slide content whose fields, where present, have the documented
  JSON types (an object with an array of element objects; text a string of characters
  that XML can hold; position an object of finite numbers; style an object with a finite
  number or a string as font size, a string without minus sign as colour and Boolean
  flags; an integer bullet level from 0 to 9; numbers and slide dimensions of magnitude
  up to \<open>10 ^ 100\<close>), the reconstructor raises no error and returns the slide: the
  background picture at full bleed and no fill, or without a picture the fill of the
  background colour; then one text box per element whose text is not blank, in the order
  of the elements, each at the box of its position and with one paragraph of one run per
  line of the text that is not blank, holding the text of the line. Absent fields degrade
  to the documented defaults: the slide is the one of the content with every default
  written out. A font size string that does not parse counts as 18, a colour string
  whose length after the leading \<open>#\<close> is not 6 or of which a pair is no number counts as
  black, an alignment other than \<open>center\<close> and \<open>right\<close> counts as \<open>left\<close>. Content outside
  these types is not covered: it can raise, as a number given as text does.
\<close>

theorem well_typed_content_reconstructed:
  assumes "well_typed_content slide_data"
    and "\<bar>real_of_int slide_width\<bar> \<le> MAGNITUDE_LIMIT"
    and "\<bar>real_of_int slide_height\<bar> \<le> MAGNITUDE_LIMIT"
  shows "(\<exists>elems boxes bg_fill.
            py_get slide_data (ustr ''elements'') (JList []) = Inr (JList elems) \<and>
            create_slide_from_ai_data udec slide_data slide_width slide_height background_image =
              Inr \<lparr>shapes = (case background_image of
                               Some img \<Rightarrow> [Picture img 0 0 slide_width slide_height]
                             | None \<Rightarrow> []) @ boxes,
                   background = bg_fill\<rparr> \<and>
            list_all2 (box_of_element slide_width slide_height) (filter shown elems) boxes \<and>
            (case background_image of
               Some img \<Rightarrow> bg_fill = None
             | None \<Rightarrow>
                 (\<exists>c. bg_fill = Some c \<and>
                      ebind (py_get slide_data (ustr ''background_color'') (JStr (ustr ''#FFFFFF'')))
                        (hex_to_rgb udec) = Inr c))) \<and>
         create_slide_from_ai_data udec (content_defaults slide_data) slide_width slide_height
           background_image =
         (create_slide_from_ai_data udec slide_data slide_width slide_height background_image
            :: py_error + 'p slide) \<and>
         (py_int udec 10 (replace_pt s) = None \<longrightarrow>
            fill_paragraph udec (JDict ((ustr ''font_size'', JStr s) # kvs)) bullet_level elem_type line p =
            fill_paragraph udec (JDict ((ustr ''font_size'', JInt 18) # kvs)) bullet_level elem_type line p) \<and>
         (length (py_lstrip_chars (ustr ''#'') c) \<noteq> 6 \<or>
          py_int udec 16 (take 2 (py_lstrip_chars (ustr ''#'') c)) = None \<or>
          py_int udec 16 (take 2 (drop 2 (py_lstrip_chars (ustr ''#'') c))) = None \<or>
          py_int udec 16 (take 2 (drop 4 (py_lstrip_chars (ustr ''#'') c))) = None \<longrightarrow>
            fill_paragraph udec (JDict ((ustr ''font_color'', JStr c) # kvs)) bullet_level elem_type line p =
            fill_paragraph udec (JDict ((ustr ''font_color'', JStr (ustr ''#000000'')) # kvs))
              bullet_level elem_type line p) \<and>
         (a \<noteq> JStr (ustr ''center'') \<and> a \<noteq> JStr (ustr ''right'') \<longrightarrow>
            fill_paragraph udec (JDict ((ustr ''alignment'', a) # kvs)) bullet_level elem_type line p =
            fill_paragraph udec (JDict ((ustr ''alignment'', JStr (ustr ''left'')) # kvs))
              bullet_level elem_type line p)"
proof (intro conjI impI)
  from assms(1) obtain items where d: "slide_data = JDict items"
    and f: "field_ok items ''elements'' is_element_list" "field_ok items ''background_color'' is_color"
    by (cases slide_data) simp_all
  have "is_element_list (JList [])" by simp
  from get_field[OF f(1) this] obtain els where
    "py_get slide_data (ustr ''elements'') (JList []) = Inr els" "is_element_list els"
    unfolding d by auto
  then obtain elems where
    els: "py_get slide_data (ustr ''elements'') (JList []) = Inr (JList elems)"
    and wt: "list_all well_typed_element elems"
    by (cases els) simp_all
  from elements_loop_ok[OF assms(2,3) wt, where udec=udec and 'p='p] obtain boxes :: "'p shape list" where
    boxes: "elements_loop udec slide_width slide_height elems = Inr boxes"
      "list_all2 (box_of_element slide_width slide_height) (filter shown elems) boxes"
    by blast
  have rest: "ebind (py_get slide_data (ustr ''elements'') (JList [])) (\<lambda>elements.
              ebind (py_iter elements) (\<lambda>elems.
              ebind (elements_loop udec slide_width slide_height elems) (\<lambda>boxes.
              Inr \<lparr>shapes = behind @ boxes, background = bg_fill\<rparr>))) =
              Inr \<lparr>shapes = behind @ boxes, background = bg_fill\<rparr>"
    for behind :: "'p shape list" and bg_fill
    by (simp add: els boxes(1) ebind_simps)
  show "\<exists>elems boxes bg_fill.
            py_get slide_data (ustr ''elements'') (JList []) = Inr (JList elems) \<and>
            create_slide_from_ai_data udec slide_data slide_width slide_height background_image =
              Inr \<lparr>shapes = (case background_image of
                               Some img \<Rightarrow> [Picture img 0 0 slide_width slide_height]
                             | None \<Rightarrow> []) @ boxes,
                   background = bg_fill\<rparr> \<and>
            list_all2 (box_of_element slide_width slide_height) (filter shown elems) boxes \<and>
            (case background_image of
               Some img \<Rightarrow> bg_fill = None
             | None \<Rightarrow>
                 (\<exists>c. bg_fill = Some c \<and>
                      ebind (py_get slide_data (ustr ''background_color'') (JStr (ustr ''#FFFFFF'')))
                        (hex_to_rgb udec) = Inr c))"
  proof (cases background_image)
    case (Some img)
    have "create_slide_from_ai_data udec slide_data slide_width slide_height background_image =
          Inr \<lparr>shapes = [Picture img 0 0 slide_width slide_height] @ boxes, background = None\<rparr>"
      unfolding create_slide_from_ai_data_def Some
      by (simp add: ebind_simps rest Inches_values(1))
    with els boxes(2) Some show ?thesis by auto
  next
    case None
    from get_field[OF f(2) default_color(2)] obtain bg where
      bg: "py_get slide_data (ustr ''background_color'') (JStr (ustr ''#FFFFFF'')) = Inr bg" "is_color bg"
      unfolding d by auto
    from hex_to_rgb_ok[OF bg(2)] obtain c where
      c: "hex_to_rgb udec bg = Inr c" "RGBColor c = Inr c" by blast
    have "create_slide_from_ai_data udec slide_data slide_width slide_height background_image =
          Inr \<lparr>shapes = [] @ boxes, background = Some c\<rparr>"
      unfolding create_slide_from_ai_data_def None
      by (simp add: ebind_simps bg(1) c rest)
    moreover have "ebind (py_get slide_data (ustr ''background_color'') (JStr (ustr ''#FFFFFF'')))
                     (hex_to_rgb udec) = Inr c"
      by (simp add: bg(1) c(1) ebind_simps)
    ultimately show ?thesis using els boxes(2) unfolding None
      by (intro exI[of _ elems] exI[of _ boxes] exI[of _ "Some c"]) (cases c, simp)
  qed
next
  show "create_slide_from_ai_data udec (content_defaults slide_data) slide_width slide_height
           background_image =
         (create_slide_from_ai_data udec slide_data slide_width slide_height background_image
            :: py_error + 'p slide)"
    by (rule content_defaults_slide)
next
  assume "py_int udec 10 (replace_pt s) = None"
  then show "fill_paragraph udec (JDict ((ustr ''font_size'', JStr s) # kvs)) bullet_level elem_type line p =
            fill_paragraph udec (JDict ((ustr ''font_size'', JInt 18) # kvs)) bullet_level elem_type line p"
    by (rule font_size_degrades)
next
  assume "length (py_lstrip_chars (ustr ''#'') c) \<noteq> 6 \<or>
          py_int udec 16 (take 2 (py_lstrip_chars (ustr ''#'') c)) = None \<or>
          py_int udec 16 (take 2 (drop 2 (py_lstrip_chars (ustr ''#'') c))) = None \<or>
          py_int udec 16 (take 2 (drop 4 (py_lstrip_chars (ustr ''#'') c))) = None"
  then show "fill_paragraph udec (JDict ((ustr ''font_color'', JStr c) # kvs)) bullet_level elem_type line p =
            fill_paragraph udec (JDict ((ustr ''font_color'', JStr (ustr ''#000000'')) # kvs))
              bullet_level elem_type line p"
    by (rule font_color_degrades)
next
  assume "a \<noteq> JStr (ustr ''center'') \<and> a \<noteq> JStr (ustr ''right'')"
  then show "fill_paragraph udec (JDict ((ustr ''alignment'', a) # kvs)) bullet_level elem_type line p =
            fill_paragraph udec (JDict ((ustr ''alignment'', JStr (ustr ''left'')) # kvs))
              bullet_level elem_type line p"
    by (intro alignment_degrades) simp_all
qed

lemma title_and_bullet_typed: "well_typed_content CONTENT_TITLE_AND_BULLET"
  by (simp add: CONTENT_TITLE_AND_BULLET_def field_ok_def ustr_def MAGNITUDE_LIMIT_def BULLET_def
      xml_char_def)

text \<open>
  The slide of the two-element content on the wide slide: the picture behind two text
  boxes, the title bold at 40 pt, the body line at level 0 without its bullet glyph.
\<close>

lemma title_and_bullet_slide:
  "create_slide_from_ai_data no_udec CONTENT_TITLE_AND_BULLET 12191695 6858000
     (Some (Render (pdf_page 1) 200 False)) =
   Inr \<lparr>shapes =
          [Picture (Render (pdf_page 1) 200 False) 0 0 12191695 6858000,
           TextBox \<lparr>b_left = 609584, b_top = 342900, b_width = 10972525, b_height = 1028700\<rparr>
             [\<lparr>p_alignment = Some LEFT, p_level = None,
               p_runs = [\<lparr>r_text = ustr ''Quarterly Review'', r_size = 508000,
                          r_color = (31, 56, 100), r_bold = JBool True, r_italic = JBool False,
                          r_name = ustr ''Arial''\<rparr>]\<rparr>],
           TextBox \<lparr>b_left = 609584, b_top = 1714500, b_width = 10972525, b_height = 3429000\<rparr>
             [\<lparr>p_alignment = Some LEFT, p_level = Some (JInt 0),
               p_runs = [plain_run (ustr ''Revenue up'')]\<rparr>]],
        background = None\<rparr>"
  by (simp add: create_slide_from_ai_data_def element_shape_def strip_method_def
      CONTENT_TITLE_AND_BULLET_def no_udec_def box_eval_defs str_defs int_defs para_defs)

lemma sparse_typed: "well_typed_content CONTENT_SPARSE"
  by (simp add: CONTENT_SPARSE_def SPARSE_ELEMENTS_def field_ok_def ustr_def xml_char_def)

lemma sparse_slide:
  "create_slide_from_ai_data no_udec CONTENT_SPARSE 9144000 6858000 None = Inr SPARSE_SLIDE"
  by (simp add: create_slide_from_ai_data_def element_shape_def strip_method_def
      CONTENT_SPARSE_def SPARSE_ELEMENTS_def SPARSE_SLIDE_def SPARSE_BOXES_def default_box_def
      no_udec_def box_eval_defs str_defs int_defs para_defs)

text \<open>The paragraph a line \<open>Hi\<close> gets under a style that gives one field.\<close>

lemma plain_paragraphs:
  "fill_paragraph no_udec (JDict [(ustr ''font_size'', JInt 18)]) (JInt 0) (JStr (ustr ''body''))
     (ustr ''Hi'') blank_paragraph =
   Inr \<lparr>p_alignment = Some LEFT, p_level = None, p_runs = [plain_run (ustr ''Hi'')]\<rparr>"
  "fill_paragraph no_udec (JDict [(ustr ''font_color'', JStr (ustr ''#000000''))]) (JInt 0)
     (JStr (ustr ''body'')) (ustr ''Hi'') blank_paragraph =
   Inr \<lparr>p_alignment = Some LEFT, p_level = None, p_runs = [plain_run (ustr ''Hi'')]\<rparr>"
  "fill_paragraph no_udec (JDict [(ustr ''alignment'', JStr (ustr ''left''))]) (JInt 0)
     (JStr (ustr ''body'')) (ustr ''Hi'') blank_paragraph =
   Inr \<lparr>p_alignment = Some LEFT, p_level = None, p_runs = [plain_run (ustr ''Hi'')]\<rparr>"
  by (simp_all add: ebind_def ustr_def no_udec_def str_defs int_defs para_defs)

theorem well_typed_content_reconstructed_witness:
  "well_typed_content CONTENT_SPARSE \<and>
   \<bar>real_of_int 9144000\<bar> \<le> MAGNITUDE_LIMIT \<and> \<bar>real_of_int 6858000\<bar> \<le> MAGNITUDE_LIMIT \<and>
   create_slide_from_ai_data no_udec CONTENT_SPARSE 9144000 6858000 None = Inr SPARSE_SLIDE \<and>
   list_all2 (box_of_element 9144000 6858000) (filter shown SPARSE_ELEMENTS) SPARSE_BOXES \<and>
   create_slide_from_ai_data no_udec (content_defaults CONTENT_SPARSE) 9144000 6858000 None =
     Inr SPARSE_SLIDE \<and>
   py_int no_udec 10 (replace_pt (ustr ''large'')) = None \<and>
   fill_paragraph no_udec (JDict [(ustr ''font_size'', JStr (ustr ''large''))]) (JInt 0)
     (JStr (ustr ''body'')) (ustr ''Hi'') blank_paragraph =
     Inr \<lparr>p_alignment = Some LEFT, p_level = None, p_runs = [plain_run (ustr ''Hi'')]\<rparr> \<and>
   length (py_lstrip_chars (ustr ''#'') (ustr ''#12'')) \<noteq> 6 \<and>
   fill_paragraph no_udec (JDict [(ustr ''font_color'', JStr (ustr ''#12''))]) (JInt 0)
     (JStr (ustr ''body'')) (ustr ''Hi'') blank_paragraph =
     Inr \<lparr>p_alignment = Some LEFT, p_level = None, p_runs = [plain_run (ustr ''Hi'')]\<rparr> \<and>
   JStr (ustr ''justify'') \<noteq> JStr (ustr ''center'') \<and>
   JStr (ustr ''justify'') \<noteq> JStr (ustr ''right'') \<and>
   fill_paragraph no_udec (JDict [(ustr ''alignment'', JStr (ustr ''justify''))]) (JInt 0)
     (JStr (ustr ''body'')) (ustr ''Hi'') blank_paragraph =
     Inr \<lparr>p_alignment = Some LEFT, p_level = None, p_runs = [plain_run (ustr ''Hi'')]\<rparr>"
proof -
  have w: "\<bar>real_of_int 9144000\<bar> \<le> MAGNITUDE_LIMIT" and h: "\<bar>real_of_int 6858000\<bar> \<le> MAGNITUDE_LIMIT"
    by (simp_all add: MAGNITUDE_LIMIT_def)
  note t = well_typed_content_reconstructed[OF sparse_typed w h,
      where udec=no_udec and background_image="None :: page image option"
        and s="ustr ''large''" and c="ustr ''#12''" and a="JStr (ustr ''justify'')"
        and kvs="[]" and bullet_level="JInt 0" and elem_type="JStr (ustr ''body'')"
        and line="ustr ''Hi''" and p=blank_paragraph]
  from t[THEN conjunct1] obtain elems boxes bg_fill where
    els: "py_get CONTENT_SPARSE (ustr ''elements'') (JList []) = Inr (JList elems)"
    and made: "create_slide_from_ai_data no_udec CONTENT_SPARSE 9144000 6858000 None =
      Inr \<lparr>shapes = (case None :: page image option of
                       Some img \<Rightarrow> [Picture img 0 0 9144000 6858000] | None \<Rightarrow> []) @ boxes,
           background = bg_fill\<rparr>"
    and each: "list_all2 (box_of_element 9144000 6858000) (filter shown elems) boxes"
    by blast
  from els have "elems = SPARSE_ELEMENTS"
    by (simp add: CONTENT_SPARSE_def)
  moreover from made have "boxes = SPARSE_BOXES"
    by (simp add: sparse_slide SPARSE_SLIDE_def)
  ultimately have boxes: "list_all2 (box_of_element 9144000 6858000) (filter shown SPARSE_ELEMENTS)
      SPARSE_BOXES"
    using each by simp
  have dflt: "create_slide_from_ai_data no_udec (content_defaults CONTENT_SPARSE) 9144000 6858000 None =
     Inr SPARSE_SLIDE"
    using t[THEN conjunct2, THEN conjunct1] by (simp only: sparse_slide)
  have n1: "py_int no_udec 10 (replace_pt (ustr ''large'')) = None"
    by (simp add: ustr_def no_udec_def int_defs)
  have n2: "length (py_lstrip_chars (ustr ''#'') (ustr ''#12'')) \<noteq> 6"
    by (simp add: ustr_def py_lstrip_chars_def)
  have n3: "JStr (ustr ''justify'') \<noteq> JStr (ustr ''center'')"
    "JStr (ustr ''justify'') \<noteq> JStr (ustr ''right'')"
    by (simp_all add: ustr_def)
  have d1: "fill_paragraph no_udec (JDict [(ustr ''font_size'', JStr (ustr ''large''))]) (JInt 0)
     (JStr (ustr ''body'')) (ustr ''Hi'') blank_paragraph =
     Inr \<lparr>p_alignment = Some LEFT, p_level = None, p_runs = [plain_run (ustr ''Hi'')]\<rparr>"
    using t[THEN conjunct2, THEN conjunct2, THEN conjunct1, THEN mp, OF n1]
    by (simp only: plain_paragraphs)
  have d2: "fill_paragraph no_udec (JDict [(ustr ''font_color'', JStr (ustr ''#12''))]) (JInt 0)
     (JStr (ustr ''body'')) (ustr ''Hi'') blank_paragraph =
     Inr \<lparr>p_alignment = Some LEFT, p_level = None, p_runs = [plain_run (ustr ''Hi'')]\<rparr>"
    using t[THEN conjunct2, THEN conjunct2, THEN conjunct2, THEN conjunct1, THEN mp, OF disjI1, OF n2]
    by (simp only: plain_paragraphs)
  have d3: "fill_paragraph no_udec (JDict [(ustr ''alignment'', JStr (ustr ''justify''))]) (JInt 0)
     (JStr (ustr ''body'')) (ustr ''Hi'') blank_paragraph =
     Inr \<lparr>p_alignment = Some LEFT, p_level = None, p_runs = [plain_run (ustr ''Hi'')]\<rparr>"
    using t[THEN conjunct2, THEN conjunct2, THEN conjunct2, THEN conjunct2, THEN mp, OF conjI, OF n3]
    by (simp only: plain_paragraphs)
  show ?thesis
    using sparse_typed w h sparse_slide boxes dflt n1 d1 n2 d2 n3 d3
    by (intro conjI) assumption+
qed

end
